(* ===== verification/Prelude.thy ===== *)
theory Prelude
  imports Main "HOL-Library.AList"
begin

text \<open>
  Shared ground of the development: the model's basic types (a Go string is a list of bytes, that
  is a \<^typ>\<open>string\<close>; a \<open>map[string]string\<close> is an association list; an \<open>error\<close> produced by code
  outside this repository is its text), the generic facts about lists that several components use,
  and the interface \<open>string_map\<close> of the Go maps the program reads and writes, with its
  interpretation on association lists.
\<close>

section \<open>Collections of facts\<close>

named_theorems frame_simps \<open>fields an operation leaves alone\<close>
named_theorems name_simps \<open>equations between the names and keys the program derives\<close>

section \<open>Basic types\<close>

type_synonym smap = "(string \<times> string) list"
type_synonym go_error = string

text \<open>
  \<open>m[k]\<close> of a Go map yields the zero value for an absent key, \<open>v, ok := m[k]\<close> tells the two cases
  apart, and \<open>m[k] = v\<close> replaces the entry or adds one. A nil map behaves like an empty one for
  every read the program makes, and every write is preceded by an allocation.
\<close>

definition smap_lookup :: "smap \<Rightarrow> string \<Rightarrow> string option" where
  "smap_lookup m k = map_of m k"

definition smap_get :: "smap \<Rightarrow> string \<Rightarrow> string" where
  "smap_get m k = (case smap_lookup m k of None \<Rightarrow> [] | Some v \<Rightarrow> v)"

definition smap_set :: "smap \<Rightarrow> string \<Rightarrow> string \<Rightarrow> smap" where
  "smap_set m k v = AList.update k v m"

definition smap_wf :: "smap \<Rightarrow> bool" where
  "smap_wf m = distinct (map fst m)"

fun smap_bytes :: "smap \<Rightarrow> nat" where
  "smap_bytes [] = 0"
| "smap_bytes ((k, v) # m) = length k + length v + smap_bytes m"

section \<open>Lists\<close>

lemma sum_list_map_append_le:
  "sum_list (map f (filter P xs)) \<le> sum_list (map (f :: 'a \<Rightarrow> nat) xs)"
  by (induction xs) auto

lemma find_None_all: "find P xs = None \<longleftrightarrow> (\<forall>x\<in>set xs. \<not> P x)"
  by (auto simp: find_None_iff)

lemma find_append: "find P (xs @ ys) = (case find P xs of None \<Rightarrow> find P ys | Some x \<Rightarrow> Some x)"
  by (induction xs) auto

lemma find_Some_in: "find P xs = Some x \<Longrightarrow> x \<in> set xs \<and> P x"
  by (auto simp: find_Some_iff)

lemma distinct_map_append_iff:
  "distinct (map f (xs @ ys)) \<longleftrightarrow>
     distinct (map f xs) \<and> distinct (map f ys) \<and> f ` set xs \<inter> f ` set ys = {}"
  by auto

text \<open>A chain of checks, each an early return, passes when every check does.\<close>

lemma check_chain_None:
  "(case x of None \<Rightarrow> y | Some r \<Rightarrow> Some r) = None \<longleftrightarrow> x = None \<and> y = None"
  by (cases x) auto

section \<open>Go maps\<close>

text \<open>
  What the program relies on when it reads and writes a \<open>map[string]string\<close>: a read after a write,
  the well-formedness every write keeps, and how the size in bytes grows. The lemmas of the locale
  are about a whole sequence of writes, which is what the pod mutation performs.
\<close>

locale string_map =
  fixes lookup :: "'m \<Rightarrow> string \<Rightarrow> string option"
    and store :: "'m \<Rightarrow> string \<Rightarrow> string \<Rightarrow> 'm"
    and wf :: "'m \<Rightarrow> bool"
    and bytes :: "'m \<Rightarrow> nat"
  assumes lookup_store: "lookup (store m k v) k' = (if k' = k then Some v else lookup m k')"
    and wf_store: "wf m \<Longrightarrow> wf (store m k v)"
    and bytes_store_le: "bytes (store m k v) \<le> bytes m + length k + length v"
begin

lemma lookup_store_all_other:
  "k \<notin> fst ` set kvs \<Longrightarrow> lookup (fold (\<lambda>(k, v) m. store m k v) kvs m) k = lookup m k"
  by (induction kvs arbitrary: m) (auto simp: lookup_store)

lemma lookup_store_all:
  assumes "distinct (map fst kvs)" and "(k, v) \<in> set kvs"
  shows "lookup (fold (\<lambda>(k, v) m. store m k v) kvs m) k = Some v"
  using assms
proof (induction kvs arbitrary: m)
  case Nil
  then show ?case by simp
next
  case (Cons kv kvs)
  obtain k0 v0 where kv: "kv = (k0, v0)" by (cases kv)
  show ?case
  proof (cases "(k, v) \<in> set kvs")
    case True
    with Cons kv show ?thesis by simp
  next
    case False
    with Cons.prems(2) kv have eq: "k0 = k" "v0 = v" by auto
    with Cons.prems(1) kv have "k \<notin> fst ` set kvs" by simp
    then show ?thesis by (simp add: kv eq lookup_store_all_other lookup_store)
  qed
qed

lemma wf_store_all: "wf m \<Longrightarrow> wf (fold (\<lambda>(k, v) m. store m k v) kvs m)"
  by (induction kvs arbitrary: m) (auto simp: wf_store)

lemma bytes_store_all_le:
  "bytes (fold (\<lambda>(k, v) m. store m k v) kvs m)
     \<le> bytes m + sum_list (map (\<lambda>(k, v). length k + length v) kvs)"
proof (induction kvs arbitrary: m)
  case Nil
  then show ?case by simp
next
  case (Cons kv kvs)
  obtain k v where kv: "kv = (k, v)" by (cases kv)
  have "bytes (fold (\<lambda>(k, v) m. store m k v) kvs (store m k v))
      \<le> bytes (store m k v) + sum_list (map (\<lambda>(k, v). length k + length v) kvs)"
    by (rule Cons.IH)
  with bytes_store_le [of m k v] show ?case by (simp add: kv)
qed

end

lemma smap_bytes_update_le: "smap_bytes (AList.update k v m) \<le> smap_bytes m + length k + length v"
  by (induction m rule: smap_bytes.induct) auto

interpretation sm: string_map smap_lookup smap_set smap_wf smap_bytes
  by unfold_locales
    (auto simp: smap_lookup_def smap_set_def smap_wf_def update_conv' distinct_update
      smap_bytes_update_le)

lemma smap_get_set: "smap_get (smap_set m k v) k' = (if k' = k then v else smap_get m k')"
  by (simp add: smap_get_def sm.lookup_store)

end
