(* ===== verification/GoStrings.thy ===== *)
theory GoStrings
  imports Prelude "HOL-Library.Word"
begin

text \<open>
  The parts of Go's standard library the program calls on strings: \<open>strings.Split\<close>, \<open>Join\<close>,
  \<open>HasPrefix\<close>, \<open>Contains\<close>, \<open>TrimSpace\<close> and \<open>EqualFold\<close>, \<open>strconv.Itoa\<close> and \<open>ParseUint\<close> in base 8,
  and \<open>path.Clean\<close>, \<open>path.Join\<close> and \<open>path.IsAbs\<close>. A string is its bytes, as in Go, so a code point
  outside ASCII is the list of the bytes of its UTF-8 encoding and \<^const>\<open>length\<close> is \<open>len\<close>.
\<close>

section \<open>Split, Join, HasPrefix\<close>

fun split_on :: "char \<Rightarrow> string \<Rightarrow> string list" where
  "split_on c [] = [[]]"
| "split_on c (x # xs) =
     (if x = c then [] # split_on c xs
      else (case split_on c xs of [] \<Rightarrow> [[x]] | y # ys \<Rightarrow> (x # y) # ys))"

fun join :: "string \<Rightarrow> string list \<Rightarrow> string" where
  "join sep [] = []"
| "join sep [x] = x"
| "join sep (x # y # ys) = x @ sep @ join sep (y # ys)"

definition HasPrefix :: "string \<Rightarrow> string \<Rightarrow> bool" where
  "HasPrefix s p = (take (length p) s = p)"

lemma split_on_not_Nil [simp]: "split_on c s \<noteq> []"
  by (cases s) (auto split: list.splits)

lemma split_on_no_sep: "p \<in> set (split_on c s) \<Longrightarrow> c \<notin> set p"
  by (induction s arbitrary: p) (auto split: if_splits list.splits)

lemma split_on_free: "c \<notin> set p \<Longrightarrow> split_on c p = [p]"
  by (induction p) auto

lemma split_on_append: "c \<notin> set p \<Longrightarrow> split_on c (p @ c # s) = p # split_on c s"
  by (induction p) auto

lemma split_on_join:
  assumes "ps \<noteq> []" and "\<And>p. p \<in> set ps \<Longrightarrow> c \<notin> set p"
  shows "split_on c (join [c] ps) = ps"
  using assms
proof (induction "[c]" ps rule: join.induct)
  case 1
  then show ?case by simp
next
  case (2 x)
  then show ?case by (simp add: split_on_free)
next
  case (3 x y ys)
  then have "split_on c (join [c] (y # ys)) = y # ys" by simp
  moreover have "c \<notin> set x" using 3 by simp
  ultimately show ?case by (simp add: split_on_append)
qed

lemma join_split_on: "join [c] (split_on c s) = s"
proof (induction s)
  case Nil
  then show ?case by simp
next
  case (Cons x xs)
  obtain y ys where ys: "split_on c xs = y # ys"
    using split_on_not_Nil [of c xs] by (cases "split_on c xs") auto
  show ?case using Cons.IH by (cases ys) (auto simp: ys)
qed

lemma HasPrefix_iff: "HasPrefix s p \<longleftrightarrow> (\<exists>r. s = p @ r)"
  unfolding HasPrefix_def by (metis append_eq_conv_conj append_take_drop_id)

lemma HasPrefix_trans: "HasPrefix s p \<Longrightarrow> HasPrefix p q \<Longrightarrow> HasPrefix s q"
  by (auto simp: HasPrefix_iff)

lemma length_join:
  "length (join sep ps) = sum_list (map length ps) + (length ps - 1) * length sep"
  by (induction sep ps rule: join.induct) auto

section \<open>TrimSpace\<close>

text \<open>
  \<open>unicode.IsSpace\<close> holds of six ASCII characters, U+0085, U+00A0, U+1680, U+2000 to U+200A, U+2028,
  U+2029, U+202F, U+205F and U+3000; the list holds their encodings. A byte sequence that is no
  valid encoding decodes to U+FFFD, which is no space, so \<open>TrimSpace\<close> strips exactly these.
\<close>

definition space_encodings :: "string list" where
  "space_encodings =
     [[CHR 0x09], [CHR 0x0A], [CHR 0x0B], [CHR 0x0C], [CHR 0x0D], [CHR 0x20],
      [CHR 0xC2, CHR 0x85], [CHR 0xC2, CHR 0xA0], [CHR 0xE1, CHR 0x9A, CHR 0x80],
      [CHR 0xE2, CHR 0x80, CHR 0x80], [CHR 0xE2, CHR 0x80, CHR 0x81], [CHR 0xE2, CHR 0x80, CHR 0x82],
      [CHR 0xE2, CHR 0x80, CHR 0x83], [CHR 0xE2, CHR 0x80, CHR 0x84], [CHR 0xE2, CHR 0x80, CHR 0x85],
      [CHR 0xE2, CHR 0x80, CHR 0x86], [CHR 0xE2, CHR 0x80, CHR 0x87], [CHR 0xE2, CHR 0x80, CHR 0x88],
      [CHR 0xE2, CHR 0x80, CHR 0x89], [CHR 0xE2, CHR 0x80, CHR 0x8A], [CHR 0xE2, CHR 0x80, CHR 0xA8],
      [CHR 0xE2, CHR 0x80, CHR 0xA9], [CHR 0xE2, CHR 0x80, CHR 0xAF], [CHR 0xE2, CHR 0x81, CHR 0x9F],
      [CHR 0xE3, CHR 0x80, CHR 0x80]]"

fun strip_any :: "string list \<Rightarrow> string \<Rightarrow> string option" where
  "strip_any [] s = None"
| "strip_any (e # es) s =
     (if e \<noteq> [] \<and> take (length e) s = e then Some (drop (length e) s) else strip_any es s)"

lemma strip_any_Some: "strip_any es s = Some r \<Longrightarrow> \<exists>e\<in>set es. e \<noteq> [] \<and> s = e @ r"
  by (induction es) (auto split: if_splits, metis append_take_drop_id)

lemma strip_any_shorter: "strip_any es s = Some r \<Longrightarrow> length r < length s"
  by (drule strip_any_Some) auto

lemma strip_any_None: "strip_any es s = None \<longleftrightarrow> (\<forall>e\<in>set es. e = [] \<or> (\<forall>r. s \<noteq> e @ r))"
  by (induction es) (auto simp: append_eq_conv_conj, metis append_take_drop_id)

function trim_left :: "string list \<Rightarrow> string \<Rightarrow> string" where
  "trim_left es s = (case strip_any es s of None \<Rightarrow> s | Some r \<Rightarrow> trim_left es r)"
  by pat_completeness auto
termination
  by (relation "measure (\<lambda>(es, s). length s)") (auto dest: strip_any_shorter)

declare trim_left.simps [simp del]

definition TrimSpace :: "string \<Rightarrow> string" where
  "TrimSpace s = rev (trim_left (map rev space_encodings) (rev (trim_left space_encodings s)))"

lemma trim_left_stops: "strip_any es (trim_left es s) = None"
  by (induction es s rule: trim_left.induct) (subst trim_left.simps, simp split: option.splits)

lemma trim_left_id: "strip_any es s = None \<Longrightarrow> trim_left es s = s"
  by (subst trim_left.simps) simp

lemma trim_left_suffix: "\<exists>p. s = p @ trim_left es s"
proof (induction es s rule: trim_left.induct)
  case (1 es s)
  show ?case
  proof (cases "strip_any es s")
    case None
    then show ?thesis by (simp add: trim_left_id)
  next
    case (Some r)
    with 1 obtain p where "r = p @ trim_left es r" by blast
    with strip_any_Some [OF Some] Some show ?thesis
      by (metis append.assoc option.simps(5) trim_left.simps)
  qed
qed

lemma set_trim_left: "set (trim_left es s) \<subseteq> set s"
  using trim_left_suffix [of s es] by (metis Un_upper2 set_append)

lemma set_TrimSpace: "set (TrimSpace s) \<subseteq> set s"
  using set_trim_left [of "map rev space_encodings" "rev (trim_left space_encodings s)"]
    set_trim_left [of space_encodings s] by (auto simp: TrimSpace_def)

lemma strip_any_None_prefix: "strip_any es (a @ b) = None \<Longrightarrow> strip_any es a = None"
  unfolding strip_any_None by (metis append.assoc)

lemma TrimSpace_idem [simp]: "TrimSpace (TrimSpace s) = TrimSpace s"
proof -
  define l where "l = trim_left space_encodings s"
  define t where "t = trim_left (map rev space_encodings) (rev l)"
  obtain p where "rev l = p @ t" using trim_left_suffix t_def by blast
  then have "l = rev t @ rev p" by (metis rev_append rev_rev_ident)
  moreover have "strip_any space_encodings l = None" unfolding l_def by (rule trim_left_stops)
  ultimately have "strip_any space_encodings (rev t) = None" by (auto intro: strip_any_None_prefix)
  then have "trim_left space_encodings (rev t) = rev t" by (rule trim_left_id)
  moreover have "trim_left (map rev space_encodings) t = t"
    unfolding t_def by (rule trim_left_id [OF trim_left_stops])
  moreover have "TrimSpace s = rev t" by (simp add: TrimSpace_def l_def t_def)
  ultimately show ?thesis by (simp add: TrimSpace_def)
qed

section \<open>Comma-separated lists\<close>

text \<open>
  The idiom three functions of the program share: split at the commas, trim each part and keep the
  non-empty ones, in order.
\<close>

definition trimmed_fields :: "string \<Rightarrow> string list" where
  "trimmed_fields v = filter (\<lambda>n. n \<noteq> []) (map TrimSpace (split_on (CHR '','') v))"

definition trimmed_name :: "string \<Rightarrow> bool" where
  "trimmed_name n = (n \<noteq> [] \<and> TrimSpace n = n \<and> CHR '','' \<notin> set n)"

lemma TrimSpace_Nil [simp]: "TrimSpace [] = []"
  using set_TrimSpace [of "[]"] by simp

lemma trimmed_fields_trimmed: "n \<in> set (trimmed_fields v) \<Longrightarrow> trimmed_name n"
  using set_TrimSpace split_on_no_sep by (fastforce simp: trimmed_fields_def trimmed_name_def)

lemma trimmed_fields_join:
  assumes "\<And>n. n \<in> set ns \<Longrightarrow> trimmed_name n"
  shows "trimmed_fields (join '','' ns) = ns"
proof (cases "ns = []")
  case True
  then show ?thesis by (simp add: trimmed_fields_def)
next
  case False
  then have "split_on (CHR '','') (join '','' ns) = ns"
    using assms by (intro split_on_join) (auto simp: trimmed_name_def)
  moreover have "map TrimSpace ns = ns" using assms by (intro map_idI) (auto simp: trimmed_name_def)
  ultimately show ?thesis using assms by (auto simp: trimmed_fields_def trimmed_name_def)
qed

lemma trimmed_fields_all: "list_all trimmed_name (trimmed_fields v)"
  by (auto simp: list_all_iff dest: trimmed_fields_trimmed)

lemma trimmed_fields_join_iff:
  "trimmed_fields (join '','' ns) = ns \<longleftrightarrow> list_all trimmed_name ns"
  using trimmed_fields_join [of ns] trimmed_fields_all [of "join '','' ns"]
  by (auto simp: list_all_iff)

section \<open>EqualFold\<close>

text \<open>
  \<open>strings.EqualFold(s, t)\<close> for an ASCII \<open>t\<close>, the only way the program calls it: each character of
  \<open>t\<close> matches the runes of its simple folding orbit, that is the two cases of a letter, U+017F for
  the letter S and U+212A for the letter K.
\<close>

definition swap_case :: "char \<Rightarrow> char" where
  "swap_case c =
     (let n = of_char c :: nat in
      if 65 \<le> n \<and> n \<le> 90 then char_of (n + 32)
      else if 97 \<le> n \<and> n \<le> 122 then char_of (n - 32)
      else c)"

definition fold_orbit :: "char \<Rightarrow> string list" where
  "fold_orbit c =
     [[c], [swap_case c]] @
     (if c \<in> {CHR ''s'', CHR ''S''} then [[CHR 0xC5, CHR 0xBF]] else []) @
     (if c \<in> {CHR ''k'', CHR ''K''} then [[CHR 0xE2, CHR 0x84, CHR 0xAA]] else [])"

fun EqualFold :: "string \<Rightarrow> string \<Rightarrow> bool" where
  "EqualFold s [] = (s = [])"
| "EqualFold s (c # cs) =
     (case strip_any (fold_orbit c) s of None \<Rightarrow> False | Some r \<Rightarrow> EqualFold r cs)"

section \<open>Itoa\<close>

definition digit_char :: "nat \<Rightarrow> char" where
  "digit_char n = char_of (48 + n)"

fun itoa :: "nat \<Rightarrow> string" where
  "itoa n = (if n < 10 then [digit_char n] else itoa (n div 10) @ [digit_char (n mod 10)])"

declare itoa.simps [simp del]

definition digit_val :: "char \<Rightarrow> nat" where
  "digit_val c = of_char c - 48"

definition atoi :: "string \<Rightarrow> nat" where
  "atoi s = foldl (\<lambda>a c. a * 10 + digit_val c) 0 s"

lemma of_char_digit_char: "n < 10 \<Longrightarrow> of_char (digit_char n) = (48 + n :: nat)"
  by (simp add: digit_char_def)

lemma atoi_itoa: "atoi (itoa n) = n"
proof (induction n rule: itoa.induct)
  case (1 n)
  have step: "atoi (s @ [digit_char d]) = atoi s * 10 + d" if "d < 10" for s d
    using of_char_digit_char [OF that] by (simp add: atoi_def digit_val_def)
  show ?case
  proof (cases "n < 10")
    case True
    then show ?thesis using step [of n "[]"] by (subst itoa.simps) (simp add: atoi_def)
  next
    case False
    with "1.IH" step [of "n mod 10"] show ?thesis by (subst itoa.simps) simp
  qed
qed

lemma inj_itoa: "itoa m = itoa n \<longleftrightarrow> m = n"
  by (metis atoi_itoa)

lemma itoa_digits: "c \<in> set (itoa n) \<Longrightarrow> 48 \<le> (of_char c :: nat) \<and> of_char c \<le> (57 :: nat)"
proof (induction n rule: itoa.induct)
  case (1 n)
  then show ?case
    by (subst (asm) itoa.simps) (auto simp: of_char_digit_char split: if_splits)
qed

lemma itoa_no_dash: "CHR ''-'' \<notin> set (itoa n)"
  using itoa_digits [of "CHR ''-''" n] by auto

lemma itoa_not_Nil [simp]: "itoa n \<noteq> []"
  by (subst itoa.simps) simp

section \<open>ParseUint in base 8, octal modes\<close>

definition is_octal :: "char \<Rightarrow> bool" where
  "is_octal c = (48 \<le> (of_char c :: nat) \<and> of_char c \<le> (55 :: nat))"

definition octal_val :: "string \<Rightarrow> nat" where
  "octal_val s = foldl (\<lambda>a c. a * 8 + digit_val c) 0 s"

text \<open>\<open>strconv.ParseUint(s, 8, 32)\<close>: every failure (empty, a bad digit, out of range) is \<open>None\<close>.\<close>

definition ParseUint8_32 :: "string \<Rightarrow> nat option" where
  "ParseUint8_32 s =
     (if s \<noteq> [] \<and> list_all is_octal s \<and> octal_val s < 2 ^ 32 then Some (octal_val s) else None)"

lemma octal_val_snoc: "octal_val (s @ [c]) = octal_val s * 8 + digit_val c"
  by (simp add: octal_val_def)

lemma octal_val_less: "list_all is_octal s \<Longrightarrow> octal_val s < 8 ^ length s"
proof (induction s rule: rev_induct)
  case Nil
  then show ?case by (simp add: octal_val_def)
next
  case (snoc c s)
  then have "octal_val s < 8 ^ length s" and "digit_val c < 8"
    by (auto simp: is_octal_def digit_val_def)
  then show ?case by (simp add: octal_val_snoc)
qed

lemma octal_val_leading_zero: "octal_val (CHR ''0'' # s) = octal_val s"
  by (simp add: octal_val_def digit_val_def)

section \<open>Paths\<close>

text \<open>
  \<open>path.Clean\<close> by its documented rules: repeated slashes and \<open>.\<close> elements go, an inner \<open>..\<close> removes
  the element before it, a \<open>..\<close> at the root goes, and an empty result is the dot.
\<close>

definition IsAbs :: "string \<Rightarrow> bool" where
  "IsAbs p = HasPrefix p ''/''"

fun clean_parts :: "bool \<Rightarrow> string list \<Rightarrow> string list \<Rightarrow> string list" where
  "clean_parts rooted acc [] = rev acc"
| "clean_parts rooted acc (p # ps) =
     (if p = [] \<or> p = ''.'' then clean_parts rooted acc ps
      else if p = ''..'' then
        (case acc of
           [] \<Rightarrow> if rooted then clean_parts rooted [] ps else clean_parts rooted [p] ps
         | a # as \<Rightarrow>
             if a = ''..'' then clean_parts rooted (p # acc) ps else clean_parts rooted as ps)
      else clean_parts rooted (p # acc) ps)"

definition Clean :: "string \<Rightarrow> string" where
  "Clean p =
     (if p = [] then ''.''
      else
        let rooted = IsAbs p; parts = clean_parts rooted [] (split_on (CHR ''/'') p) in
        if rooted then ''/'' @ join ''/'' parts
        else if parts = [] then ''.'' else join ''/'' parts)"

definition path_Join :: "string list \<Rightarrow> string" where
  "path_Join elems =
     (let es = filter (\<lambda>e. e \<noteq> []) elems in if es = [] then [] else Clean (join ''/'' es))"

lemma clean_parts_nonempty:
  "(\<And>a. a \<in> set acc \<Longrightarrow> a \<noteq> []) \<Longrightarrow> p \<in> set (clean_parts r acc ps) \<Longrightarrow> p \<noteq> []"
  by (induction r acc ps rule: clean_parts.induct) (auto split: if_splits list.splits)

lemma join_slash_not_Nil: "ps \<noteq> [] \<Longrightarrow> (\<And>p. p \<in> set ps \<Longrightarrow> p \<noteq> []) \<Longrightarrow> join ''/'' ps \<noteq> []"
  by (induction "''/''" ps rule: join.induct) auto

lemma join_clean_parts_not_Nil:
  "clean_parts r [] ps \<noteq> [] \<Longrightarrow> join ''/'' (clean_parts r [] ps) \<noteq> []"
  using clean_parts_nonempty [of "[]" _ r ps] by (intro join_slash_not_Nil) auto

lemma Clean_not_Nil [simp]: "Clean p \<noteq> []"
  by (simp add: Clean_def Let_def join_clean_parts_not_Nil)

lemma path_Join_Nil_iff: "path_Join elems = [] \<longleftrightarrow> (\<forall>e\<in>set elems. e = [])"
  by (auto simp: path_Join_def Let_def filter_empty_conv)

lemma IsAbs_Clean: "IsAbs p \<Longrightarrow> IsAbs (Clean p)"
  by (auto simp: Clean_def IsAbs_def HasPrefix_def Let_def split: if_splits)

lemma IsAbs_path_Join: "IsAbs a \<Longrightarrow> IsAbs (path_Join (a # es))"
proof -
  assume abs: "IsAbs a"
  then have "a \<noteq> []" by (auto simp: IsAbs_def HasPrefix_def)
  then have "IsAbs (join ''/'' (filter (\<lambda>e. e \<noteq> []) (a # es)))"
    using abs by (cases "filter (\<lambda>e. e \<noteq> []) es") (auto simp: IsAbs_def HasPrefix_iff)
  with \<open>a \<noteq> []\<close> show ?thesis by (simp add: path_Join_def IsAbs_Clean)
qed

end
