(* ===== verification/ApiTypes.thy ===== *)
theory ApiTypes
  imports GoStrings
begin

text \<open>
  The API group \<open>oidcshim.kemo.dev/v1alpha1\<close> (\<open>api/v1alpha1\<close>): the annotation and label keys the
  operator owns, the spec and status types, the two kinds of shim and the interface \<open>Shim\<close> they both
  implement. Pointers to optional values are \<open>option\<close>; strings whose zero value means
  unset stay strings, as in the source. The locale \<open>shim_interface\<close> states what the clients of the
  Go interface rely on, and is interpreted on the methods of the two shim kinds.
\<close>

section \<open>Keys\<close>

definition GroupPrefix :: string where "GroupPrefix = ''oidcshim.kemo.dev''"
definition EnrollmentKey :: string where "EnrollmentKey = GroupPrefix @ ''/shim''"
definition InjectAnnotation :: string where "InjectAnnotation = GroupPrefix @ ''/inject''"
definition StatusAnnotation :: string where "StatusAnnotation = GroupPrefix @ ''/status''"
definition ShimsAnnotation :: string where "ShimsAnnotation = GroupPrefix @ ''/shims''"
definition ContainersAnnotation :: string where "ContainersAnnotation = GroupPrefix @ ''/containers''"
definition HelperConfAnnotationPrefix :: string where
  "HelperConfAnnotationPrefix = GroupPrefix @ ''/helper-conf-''"
definition FileAnnotationPrefix :: string where "FileAnnotationPrefix = GroupPrefix @ ''/file-''"
definition ShimLabelPrefix :: string where "ShimLabelPrefix = GroupPrefix @ ''/shim-''"
definition StatusInjected :: string where "StatusInjected = ''injected''"
definition ShimLabelValueNamespaced :: string where "ShimLabelValueNamespaced = ''namespaced''"
definition ShimLabelValueCluster :: string where "ShimLabelValueCluster = ''cluster''"
definition ConditionReady :: string where "ConditionReady = ''Ready''"
definition ReasonValid :: string where "ReasonValid = ''Valid''"
definition ReasonInvalidSpec :: string where "ReasonInvalidSpec = ''InvalidSpec''"

lemmas key_defs = GroupPrefix_def EnrollmentKey_def InjectAnnotation_def StatusAnnotation_def
  ShimsAnnotation_def ContainersAnnotation_def HelperConfAnnotationPrefix_def
  FileAnnotationPrefix_def ShimLabelPrefix_def StatusInjected_def ShimLabelValueNamespaced_def
  ShimLabelValueCluster_def

definition ShimLabelKey :: "string \<Rightarrow> string" where
  "ShimLabelKey shimName = ShimLabelPrefix @ shimName"

definition HelperConfAnnotation :: "string \<Rightarrow> string" where
  "HelperConfAnnotation shimName = HelperConfAnnotationPrefix @ shimName"

lemma ShimLabelKey_inj [name_simps]: "ShimLabelKey a = ShimLabelKey b \<longleftrightarrow> a = b"
  by (simp add: ShimLabelKey_def)

lemma HelperConfAnnotation_inj [name_simps]:
  "HelperConfAnnotation a = HelperConfAnnotation b \<longleftrightarrow> a = b"
  by (simp add: HelperConfAnnotation_def)

section \<open>Spec and status\<close>

record EnrollmentSpec =
  en_Namespaces :: "bool option"
  en_ServiceAccounts :: "bool option"
  en_Pods :: "bool option"

record LabelSelectorRequirement =
  lr_Key :: string
  lr_Operator :: string
  lr_Values :: "string list"

record LabelSelector =
  ls_MatchLabels :: smap
  ls_MatchExpressions :: "LabelSelectorRequirement list"

record SelectionSpec =
  sel_Enrollment :: "EnrollmentSpec option"
  sel_NamespaceSelector :: "LabelSelector option"
  sel_ServiceAccountSelector :: "LabelSelector option"
  sel_PodSelector :: "LabelSelector option"

record ConfigMapKeySelector =
  cmk_Name :: string
  cmk_Key :: string

record ParameterSource =
  src_Static :: "string option"
  src_Annotation :: string
  src_Label :: string
  src_ConfigMapKeyRef :: "ConfigMapKeySelector option"
  src_Template :: string

record Parameter =
  par_Name :: string
  par_ValueFrom :: ParameterSource
  par_Default :: "string option"
  par_Required :: bool

record TokenSpec =
  tk_VolumeName :: string
  tk_MountPath :: string
  tk_FileName :: string
  tk_FileMode :: string

record EnvVarSpec =
  es_Name :: string
  es_Value :: string

record FileSpec =
  fs_Path :: string
  fs_Content :: string
  fs_Mode :: string

record InjectSpec =
  inj_Env :: "EnvVarSpec list"
  inj_Files :: "FileSpec list"
  inj_Containers :: "string list"

record SPIFFESpec =
  sp_CSIDriver :: string
  sp_SocketMountPath :: string
  sp_SocketFile :: string

text \<open>
  The core API types a shim carries through to the helper containers. The program sets the fields
  of a \<open>SecurityContext\<close> listed here; every other field is kept in \<open>sc_Rest\<close>, which no operation reads.
\<close>

record SecurityContext =
  sc_RunAsNonRoot :: "bool option"
  sc_AllowPrivilegeEscalation :: "bool option"
  sc_ReadOnlyRootFilesystem :: "bool option"
  sc_CapabilitiesAdd :: "string list"
  sc_CapabilitiesDrop :: "string list"
  sc_SeccompProfileType :: "string option"
  sc_Rest :: string

record ResourceRequirements =
  rr_Limits :: smap
  rr_Requests :: smap
  rr_Claims :: "string list"

record HelperSpec =
  h_Image :: string
  h_ImagePullPolicy :: string
  h_Resources :: "ResourceRequirements option"
  h_SecurityContext :: "SecurityContext option"

record OIDCShimSpec =
  spec_Provider :: string
  spec_Selection :: SelectionSpec
  spec_Parameters :: "Parameter list"
  spec_Audience :: string
  spec_ExtraAudiences :: "string list"
  spec_Token :: TokenSpec
  spec_Inject :: InjectSpec
  spec_SPIFFE :: "SPIFFESpec option"
  spec_Helper :: "HelperSpec option"

record Condition =
  cond_Type :: string
  cond_Status :: string
  cond_Reason :: string
  cond_Message :: string
  cond_ObservedGeneration :: int
  cond_LastTransitionTime :: nat

record OIDCShimStatus =
  st_Conditions :: "Condition list"
  st_ObservedGeneration :: int
  st_MatchedPods :: "32 word option"

section \<open>The two shim kinds and the interface\<close>

record OIDCShim =
  os_Namespace :: string
  os_Name :: string
  os_Generation :: int
  os_Spec :: OIDCShimSpec
  os_Status :: OIDCShimStatus

record ClusterOIDCShimSpec =
  cos_OIDCShimSpec :: OIDCShimSpec
  cos_ConfigMapNamespace :: string

record ClusterOIDCShim =
  cs_Name :: string
  cs_Generation :: int
  cs_Spec :: ClusterOIDCShimSpec
  cs_Status :: OIDCShimStatus

datatype Shim = Namespaced OIDCShim | ClusterScoped ClusterOIDCShim

fun GetName :: "Shim \<Rightarrow> string" where
  "GetName (Namespaced s) = os_Name s"
| "GetName (ClusterScoped s) = cs_Name s"

fun GetNamespace :: "Shim \<Rightarrow> string" where
  "GetNamespace (Namespaced s) = os_Namespace s"
| "GetNamespace (ClusterScoped s) = []"

fun GetGeneration :: "Shim \<Rightarrow> int" where
  "GetGeneration (Namespaced s) = os_Generation s"
| "GetGeneration (ClusterScoped s) = cs_Generation s"

fun ShimSpec :: "Shim \<Rightarrow> OIDCShimSpec" where
  "ShimSpec (Namespaced s) = os_Spec s"
| "ShimSpec (ClusterScoped s) = cos_OIDCShimSpec (cs_Spec s)"

fun ShimStatus :: "Shim \<Rightarrow> OIDCShimStatus" where
  "ShimStatus (Namespaced s) = os_Status s"
| "ShimStatus (ClusterScoped s) = cs_Status s"

fun with_ShimStatus :: "OIDCShimStatus \<Rightarrow> Shim \<Rightarrow> Shim" where
  "with_ShimStatus st (Namespaced s) = Namespaced (s\<lparr>os_Status := st\<rparr>)"
| "with_ShimStatus st (ClusterScoped s) = ClusterScoped (s\<lparr>cs_Status := st\<rparr>)"

fun IsClusterScoped :: "Shim \<Rightarrow> bool" where
  "IsClusterScoped (Namespaced s) = False"
| "IsClusterScoped (ClusterScoped s) = True"

fun ConfigMapNamespaceFor :: "Shim \<Rightarrow> string \<Rightarrow> string" where
  "ConfigMapNamespaceFor (Namespaced s) podNamespace = os_Namespace s"
| "ConfigMapNamespaceFor (ClusterScoped s) podNamespace =
     (if cos_ConfigMapNamespace (cs_Spec s) \<noteq> [] then cos_ConfigMapNamespace (cs_Spec s)
      else podNamespace)"

fun ShimKey :: "Shim \<Rightarrow> string" where
  "ShimKey (Namespaced s) = ''OIDCShim/'' @ os_Namespace s @ ''/'' @ os_Name s"
| "ShimKey (ClusterScoped s) = ''ClusterOIDCShim/'' @ cs_Name s"

text \<open>
  A Kubernetes name holds neither a slash nor a comma. \<open>shim_ident\<close> is the object identity the API
  server keys a shim by.
\<close>

definition k8s_name :: "string \<Rightarrow> bool" where
  "k8s_name s = (CHR ''/'' \<notin> set s \<and> CHR '','' \<notin> set s)"

definition shim_wf :: "Shim \<Rightarrow> bool" where
  "shim_wf s = (k8s_name (GetName s) \<and> k8s_name (GetNamespace s))"

definition shim_ident :: "Shim \<Rightarrow> bool \<times> string \<times> string" where
  "shim_ident s = (IsClusterScoped s, GetNamespace s, GetName s)"

locale shim_interface =
  fixes ident :: "'s \<Rightarrow> 'i"
    and key :: "'s \<Rightarrow> string"
    and wf :: "'s \<Rightarrow> bool"
  assumes key_inj: "wf s \<Longrightarrow> wf t \<Longrightarrow> key s = key t \<Longrightarrow> ident s = ident t"
    and key_no_comma: "wf s \<Longrightarrow> CHR '','' \<notin> set (key s)"
begin

lemma distinct_keys:
  assumes "distinct (map ident ss)" and "\<And>s. s \<in> set ss \<Longrightarrow> wf s"
  shows "distinct (map key ss)"
  using assms
proof (induction ss)
  case Nil
  then show ?case by simp
next
  case (Cons s ss)
  have "key s \<noteq> key t" if "t \<in> set ss" for t
    using that Cons.prems key_inj [of s t] by auto
  with Cons show ?case by auto
qed

lemma split_joined_keys:
  assumes "ss \<noteq> []" and "\<And>s. s \<in> set ss \<Longrightarrow> wf s"
  shows "split_on (CHR '','') (join '','' (map key ss)) = map key ss"
  using assms by (intro split_on_join) (auto dest: key_no_comma)

end

lemma slash_split:
  assumes "CHR ''/'' \<notin> set a" "CHR ''/'' \<notin> set c" "a @ ''/'' @ b = c @ ''/'' @ d"
  shows "a = c \<and> b = d"
proof -
  have "a # split_on (CHR ''/'') b = c # split_on (CHR ''/'') d"
    using arg_cong [OF assms(3), of "split_on (CHR ''/'')"] assms(1,2)
    by (simp add: split_on_append)
  then show ?thesis using join_split_on by (metis list.inject)
qed

lemma ShimKey_inj: "shim_wf s \<Longrightarrow> shim_wf t \<Longrightarrow> ShimKey s = ShimKey t \<Longrightarrow> shim_ident s = shim_ident t"
  using slash_split [of "os_Namespace _" "os_Namespace _" "os_Name _" "os_Name _"]
  by (cases s; cases t) (auto simp: shim_wf_def k8s_name_def shim_ident_def)

lemma ShimKey_no_comma: "shim_wf s \<Longrightarrow> CHR '','' \<notin> set (ShimKey s)"
  by (cases s) (auto simp: shim_wf_def k8s_name_def)

interpretation shim: shim_interface shim_ident ShimKey shim_wf
  by unfold_locales (auto intro: ShimKey_inj simp: ShimKey_no_comma)

lemma ShimSpec_with_ShimStatus [simp]: "ShimSpec (with_ShimStatus st s) = ShimSpec s"
  by (cases s) auto

lemma shim_meta_with_ShimStatus [simp]:
  "GetName (with_ShimStatus st s) = GetName s" "GetNamespace (with_ShimStatus st s) = GetNamespace s"
  "GetGeneration (with_ShimStatus st s) = GetGeneration s"
  "IsClusterScoped (with_ShimStatus st s) = IsClusterScoped s"
  "ShimStatus (with_ShimStatus st s) = st"
  by (cases s; simp)+

end
