(* ===== verification/PodModel.thy ===== *)
theory PodModel
  imports ApiTypes
begin

text \<open>
  The core Kubernetes objects as the operator sees them. Each record carries the fields the program
  reads or writes; the rest of an object, which the program carries along without looking at it, is
  one opaque field whose name ends in \<open>_Rest\<close>, so that a theorem can say it is unchanged.
\<close>

record EnvVar =
  ev_Name :: string
  ev_Value :: string
  ev_Rest :: string

record VolumeMount =
  vm_Name :: string
  vm_MountPath :: string
  vm_SubPath :: string
  vm_ReadOnly :: bool
  vm_Rest :: string

record Container =
  c_Name :: string
  c_Image :: string
  c_ImagePullPolicy :: string
  c_Args :: "string list"
  c_Env :: "EnvVar list"
  c_VolumeMounts :: "VolumeMount list"
  c_RestartPolicy :: "string option"
  c_SecurityContext :: "SecurityContext option"
  c_Resources :: ResourceRequirements
  c_Rest :: string

record CSIVolumeSource =
  csi_Driver :: string
  csi_ReadOnly :: "bool option"
  csi_Rest :: string

record EmptyDirVolumeSource =
  ed_Medium :: string
  ed_Rest :: string

record DownwardAPIVolumeFile =
  da_Path :: string
  da_FieldPath :: string
  da_Mode :: "32 word option"

record VolumeSource =
  vs_CSI :: "CSIVolumeSource option"
  vs_EmptyDir :: "EmptyDirVolumeSource option"
  vs_DownwardAPI :: "DownwardAPIVolumeFile list option"
  vs_Rest :: string

record Volume =
  v_Name :: string
  v_Source :: VolumeSource

record Pod =
  pod_Name :: string
  pod_GenerateName :: string
  pod_Namespace :: string
  pod_Annotations :: smap
  pod_Labels :: smap
  pod_ServiceAccountName :: string
  pod_Volumes :: "Volume list"
  pod_InitContainers :: "Container list"
  pod_Containers :: "Container list"
  pod_Rest :: string

text \<open>A Namespace or a ServiceAccount: only the metadata matters here.\<close>

record MetaObject =
  mo_Name :: string
  mo_Annotations :: smap
  mo_Labels :: smap

text \<open>A read from the API server: what the program tells apart of its outcome.\<close>

datatype 'a api_get = Found 'a | NotFound | Failed go_error

end
