(* ===== verification/TextTemplate.thy ===== *)
theory TextTemplate
  imports GoStrings
begin

text \<open>
  Go's \<open>text/template\<close>, as far as the program looks into it: the node kinds of \<open>text/template/parse\<close>,
  which \<open>walkNode\<close> distinguishes, and an engine, that is a parser and an executor. The program is
  modelled over an arbitrary engine \<open>E\<close>. What its correctness relies on is the locale
  \<open>template_engine\<close>: the name of a template whose text defines no templates of its own (no \<open>define\<close> and no
  \<open>block\<close> action) matters for its error messages only, and a \<^emph>\<open>plain\<close> template
  (literal text and actions of the form \<open>{{ .key }}\<close>, the only ones the shipped sample shims use)
  executes to the concatenation of its parts and fails, under \<open>missingkey=error\<close>, exactly when a key
  is absent. \<open>field_engine\<close> is an executable parser and executor of the plain templates; the locale is
  interpreted on it.
\<close>

section \<open>Parse trees\<close>

text \<open>
  \<open>NoNode\<close> is the nil interface value; a typed nil pointer to a list or a pipeline is the \<open>None\<close> of
  its constructor. A pipeline carries its declared variables and its commands.
\<close>

datatype node =
    NoNode
  | TextNode string
  | CommentNode string
  | ListNode "node list option"
  | ActionNode node
  | PipeNode "string list" "node list option"
  | CommandNode "node list"
  | FieldNode "string list"
  | ChainNode node "string list"
  | VariableNode "string list"
  | IdentifierNode string
  | DotNode
  | NilNode
  | BoolNode bool
  | NumberNode string
  | StringNode string
  | IfNode node node node
  | RangeNode node node node
  | WithNode node node node
  | TemplateNode string node
  | BreakNode
  | ContinueNode

text \<open>A parsed template: its own tree, if it has one, and the templates its text defines.\<close>

record template =
  t_Root :: "node option"
  t_Defined :: "(string \<times> node) list"

record engine =
  eng_parse :: "string \<Rightarrow> string \<Rightarrow> go_error + template"
  eng_exec :: "template \<Rightarrow> smap \<Rightarrow> go_error + string"

text \<open>
  Texts that define templates: an action, after the trim marker and blanks, starts with the keyword \<open>define\<close>
  or \<open>block\<close>. A definition under the name of the template itself would replace its body, so only for other
  texts is the name irrelevant.
\<close>

definition action_space :: "char \<Rightarrow> bool" where
  "action_space c = (c \<in> {CHR '' '', CHR 0x09, CHR 0x0A, CHR 0x0D})"

definition opens_definition :: "string \<Rightarrow> bool" where
  "opens_definition r =
     (let w = dropWhile (\<lambda>c. action_space c \<or> c = CHR ''-'') r in HasPrefix w ''define'' \<or> HasPrefix w ''block'')"

fun defines_templates :: "string \<Rightarrow> bool" where
  "defines_templates [] = False"
| "defines_templates (c # cs) =
     (c = CHR ''{'' \<and> cs \<noteq> [] \<and> hd cs = CHR ''{'' \<and> opens_definition (tl cs) \<or> defines_templates cs)"

section \<open>Plain templates\<close>

fun plain_key :: "node \<Rightarrow> string option" where
  "plain_key (ActionNode (PipeNode [] (Some [CommandNode [FieldNode [k]]]))) = Some k"
| "plain_key _ = None"

fun plain_node :: "node \<Rightarrow> bool" where
  "plain_node (TextNode s) = True"
| "plain_node n = (plain_key n \<noteq> None)"

fun plain_template :: "template \<Rightarrow> bool" where
  "plain_template t =
     (t_Defined t = [] \<and>
      (case t_Root t of Some (ListNode (Some ns)) \<Rightarrow> list_all plain_node ns | _ \<Rightarrow> False))"

fun plain_keys :: "node list \<Rightarrow> string list" where
  "plain_keys [] = []"
| "plain_keys (n # ns) = (case plain_key n of None \<Rightarrow> plain_keys ns | Some k \<Rightarrow> k # plain_keys ns)"

fun plain_out :: "node list \<Rightarrow> smap \<Rightarrow> string option" where
  "plain_out [] vs = Some []"
| "plain_out (TextNode s # ns) vs = map_option ((@) s) (plain_out ns vs)"
| "plain_out (n # ns) vs =
     (case plain_key n of None \<Rightarrow> None
      | Some k \<Rightarrow>
          (case smap_lookup vs k of None \<Rightarrow> None
           | Some v \<Rightarrow> map_option ((@) v) (plain_out ns vs)))"

definition plain_nodes :: "template \<Rightarrow> node list" where
  "plain_nodes t = (case t_Root t of Some (ListNode (Some ns)) \<Rightarrow> ns | _ \<Rightarrow> [])"

lemma plain_node_cases:
  assumes "plain_node n"
  obtains s where "n = TextNode s"
  | k where "n = ActionNode (PipeNode [] (Some [CommandNode [FieldNode [k]]]))"
  using assms by (cases n rule: plain_node.cases) (auto elim: plain_key.elims)

lemma plain_out_defined:
  "list_all plain_node ns \<Longrightarrow>
     (plain_out ns vs \<noteq> None) \<longleftrightarrow> (\<forall>k\<in>set (plain_keys ns). smap_lookup vs k \<noteq> None)"
proof (induction ns)
  case Nil
  then show ?case by simp
next
  case (Cons n ns)
  then have "plain_node n" by simp
  then show ?case
    by (cases n rule: plain_node_cases) (use Cons in \<open>auto split: option.splits\<close>)
qed

section \<open>The engine's contract\<close>

locale template_engine =
  fixes E :: engine
  assumes parse_any_name: "\<not> defines_templates s \<Longrightarrow> eng_parse E n s = Inr t \<Longrightarrow> eng_parse E n' s = Inr t"
    and exec_plain:
      "plain_template t \<Longrightarrow> plain_out (plain_nodes t) vs = Some out \<Longrightarrow> eng_exec E t vs = Inr out"
    and exec_plain_missing:
      "plain_template t \<Longrightarrow> plain_out (plain_nodes t) vs = None \<Longrightarrow> \<exists>e. eng_exec E t vs = Inl e"
begin

lemma exec_succeeds_iff:
  assumes "plain_template t"
  shows "(\<exists>out. eng_exec E t vs = Inr out) \<longleftrightarrow>
     (\<forall>k\<in>set (plain_keys (plain_nodes t)). smap_lookup vs k \<noteq> None)"
proof -
  have "list_all plain_node (plain_nodes t)"
    using assms by (auto simp: plain_nodes_def split: option.splits node.splits)
  then have "(plain_out (plain_nodes t) vs \<noteq> None) \<longleftrightarrow>
      (\<forall>k\<in>set (plain_keys (plain_nodes t)). smap_lookup vs k \<noteq> None)"
    by (rule plain_out_defined)
  moreover have "(\<exists>out. eng_exec E t vs = Inr out) \<longleftrightarrow> plain_out (plain_nodes t) vs \<noteq> None"
    using exec_plain [OF assms] exec_plain_missing [OF assms]
    by (metis not_None_eq sum.distinct(1))
  ultimately show ?thesis by simp
qed

end

section \<open>An engine for the plain templates\<close>

text \<open>
  Text runs up to the first \<open>{{\<close>; an action is blanks, a dot, an identifier, blanks and \<open>}}\<close>. Any
  other action is outside the fragment and reported as such.
\<close>

definition alphaNumeric :: "char \<Rightarrow> bool" where
  "alphaNumeric c =
     (let n = of_char c :: nat in
      c = CHR ''_'' \<or> 48 \<le> n \<and> n \<le> 57 \<or> 65 \<le> n \<and> n \<le> 90 \<or> 97 \<le> n \<and> n \<le> 122)"

definition is_digit :: "char \<Rightarrow> bool" where
  "is_digit c = (48 \<le> (of_char c :: nat) \<and> of_char c \<le> (57 :: nat))"

fun scan_text :: "string \<Rightarrow> string \<times> string option" where
  "scan_text [] = ([], None)"
| "scan_text (c # cs) =
     (if c = CHR ''{'' \<and> cs \<noteq> [] \<and> hd cs = CHR ''{'' then ([], Some (tl cs))
      else (case scan_text cs of (t, r) \<Rightarrow> (c # t, r)))"

definition scan_field :: "string \<Rightarrow> (string \<times> string) option" where
  "scan_field s =
     (case dropWhile action_space s of
        [] \<Rightarrow> None
      | d # r \<Rightarrow>
          if d \<noteq> CHR ''.'' then None
          else
            (let k = takeWhile alphaNumeric r; r' = dropWhile action_space (dropWhile alphaNumeric r) in
             if k = [] \<or> is_digit (hd k) \<or> take 2 r' \<noteq> ''}}'' then None else Some (k, drop 2 r')))"

definition text_nodes :: "string \<Rightarrow> node list" where
  "text_nodes t = (if t = [] then [] else [TextNode t])"

definition field_action :: "string \<Rightarrow> node" where
  "field_action k = ActionNode (PipeNode [] (Some [CommandNode [FieldNode [k]]]))"

lemma scan_text_shorter: "scan_text s = (t, Some r) \<Longrightarrow> length r < length s"
  by (induction s arbitrary: t) (fastforce split: if_splits prod.splits)+

lemma scan_field_shorter: "scan_field s = Some (k, r) \<Longrightarrow> length r \<le> length s"
proof -
  assume a: "scan_field s = Some (k, r)"
  then obtain d q where q: "dropWhile action_space s = d # q"
    and r: "r = drop 2 (dropWhile action_space (dropWhile alphaNumeric q))"
    by (auto simp: scan_field_def Let_def split: list.splits if_splits)
  have "length (d # q) \<le> length s" using length_dropWhile_le [of action_space s] q by simp
  moreover have "length r \<le> length q"
    using length_dropWhile_le [of action_space "dropWhile alphaNumeric q"]
      length_dropWhile_le [of alphaNumeric q] by (simp add: r)
  ultimately show ?thesis by simp
qed

function parse_fields :: "string \<Rightarrow> go_error + node list" where
  "parse_fields s =
     (case scan_text s of
        (t, None) \<Rightarrow> Inr (text_nodes t)
      | (t, Some r) \<Rightarrow>
          (case scan_field r of
             None \<Rightarrow> Inl ''action outside the plain fragment''
           | Some (k, rest) \<Rightarrow>
               (case parse_fields rest of
                  Inl e \<Rightarrow> Inl e
                | Inr ns \<Rightarrow> Inr (text_nodes t @ field_action k # ns))))"
  by pat_completeness auto
termination
  by (relation "measure length") (auto dest!: scan_text_shorter [OF sym] scan_field_shorter)

declare parse_fields.simps [simp del]

definition field_engine :: engine where
  "field_engine =
     \<lparr>eng_parse = (\<lambda>name s.
        case parse_fields s of Inl e \<Rightarrow> Inl e
        | Inr ns \<Rightarrow> Inr \<lparr>t_Root = Some (ListNode (Some ns)), t_Defined = []\<rparr>),
      eng_exec = (\<lambda>t vs.
        case plain_out (plain_nodes t) vs of Some out \<Rightarrow> Inr out
        | None \<Rightarrow> Inl ''map has no entry for key'')\<rparr>"

interpretation fe: template_engine field_engine
  by unfold_locales (auto simp: field_engine_def split: sum.splits option.splits)

lemma parse_fields_plain: "parse_fields s = Inr ns \<Longrightarrow> list_all plain_node ns"
proof (induction s arbitrary: ns rule: parse_fields.induct)
  case (1 s)
  then show ?case
    by (subst (asm) parse_fields.simps)
      (fastforce simp: text_nodes_def field_action_def split: prod.splits option.splits sum.splits)
qed

text \<open>What the engine parses defines no templates: an action that does is outside the fragment.\<close>

lemma defines_templates_append: "CHR ''{'' \<notin> set u \<Longrightarrow> defines_templates (u @ v) = defines_templates v"
  by (induction u) auto

lemma scan_text_None: "scan_text s = (t, None) \<Longrightarrow> \<not> defines_templates s"
  by (induction s arbitrary: t) (auto split: if_splits prod.splits)

lemma scan_text_Some:
  "scan_text s = (t, Some r) \<Longrightarrow> defines_templates s \<longleftrightarrow> opens_definition r \<or> defines_templates (CHR ''{'' # r)"
proof (induction s arbitrary: t)
  case (Cons c cs)
  then show ?case by (cases cs) (auto split: if_splits prod.splits)
qed simp

lemma scan_field_split:
  assumes "scan_field s = Some (k, rest)"
  obtains u where "s = u @ rest" "u \<noteq> []" "CHR ''{'' \<notin> set u" "\<not> opens_definition s"
proof -
  from assms obtain d q where q: "dropWhile action_space s = d # q" "d = CHR ''.''"
    and e: "take 2 (dropWhile action_space (dropWhile alphaNumeric q)) = ''}}''"
    and rest: "rest = drop 2 (dropWhile action_space (dropWhile alphaNumeric q))"
    by (auto simp: scan_field_def Let_def split: list.splits if_splits)
  let ?q1 = "dropWhile alphaNumeric q"
  let ?u = "takeWhile action_space s @ d # takeWhile alphaNumeric q @ takeWhile action_space ?q1 @ ''}}''"
  have "dropWhile action_space ?q1 = ''}}'' @ rest"
    using append_take_drop_id [of 2 "dropWhile action_space ?q1"] unfolding e rest by simp
  then have "q = takeWhile alphaNumeric q @ takeWhile action_space ?q1 @ ''}}'' @ rest"
    by (metis takeWhile_dropWhile_id)
  moreover have "s = takeWhile action_space s @ d # q"
    using takeWhile_dropWhile_id [of action_space s] q(1) by simp
  ultimately have "s = ?u @ rest" by simp
  moreover have "CHR ''{'' \<notin> set ?u"
    using q(2) by (auto simp: action_space_def alphaNumeric_def Let_def dest!: set_takeWhileD)
  moreover have "dropWhile (\<lambda>c. action_space c \<or> c = CHR ''-'') s = d # q"
  proof -
    have "dropWhile (\<lambda>c. action_space c \<or> c = CHR ''-'') (takeWhile action_space s @ d # q) =
        dropWhile (\<lambda>c. action_space c \<or> c = CHR ''-'') (d # q)"
      by (rule dropWhile_append2) (auto dest: set_takeWhileD)
    with \<open>s = takeWhile action_space s @ d # q\<close> q(2) show ?thesis by (simp add: action_space_def)
  qed
  then have "\<not> opens_definition s" using q(2) by (simp add: opens_definition_def HasPrefix_def)
  ultimately show thesis using that [of ?u] by blast
qed

lemma parse_fields_defines: "parse_fields s = Inr ns \<Longrightarrow> \<not> defines_templates s"
proof (induction s arbitrary: ns rule: parse_fields.induct)
  case (1 s)
  obtain t r where sc: "scan_text s = (t, r)" by fastforce
  show ?case
  proof (cases r)
    case None
    with sc scan_text_None show ?thesis by simp
  next
    case (Some r')
    with 1(2) sc obtain k rest ms where f: "scan_field r' = Some (k, rest)" "parse_fields rest = Inr ms"
      by (subst (asm) parse_fields.simps) (auto split: option.splits sum.splits)
    obtain u where u: "r' = u @ rest" "u \<noteq> []" "CHR ''{'' \<notin> set u" "\<not> opens_definition r'"
      by (rule scan_field_split [OF f(1)])
    have "\<not> defines_templates rest" using 1(1) [OF sc [symmetric] Some f(1) refl f(2)] by simp
    then have "\<not> defines_templates (CHR ''{'' # r')"
      using u(2,3) defines_templates_append [OF u(3)] by (cases u) (auto simp: u(1))
    with scan_text_Some [OF sc [unfolded Some]] u(4) show ?thesis by simp
  qed
qed

lemma field_engine_defines: "eng_parse field_engine n s = Inr t \<Longrightarrow> \<not> defines_templates s"
  by (auto simp: field_engine_def dest: parse_fields_defines split: sum.splits)

lemma field_engine_plain: "eng_parse field_engine n s = Inr t \<Longrightarrow> plain_template t"
  by (auto simp: field_engine_def dest: parse_fields_plain split: sum.splits)

end
