(* ===== verification/Params.thy ===== *)
theory Params
  imports PodModel TextTemplate
begin

text \<open>
  Package \<open>internal/params\<close>: rendering templates and finding the keys they reference (\<open>template.go\<close>),
  resolving a shim's ordered parameter list for a pod (\<open>resolve.go\<close>) and its static validation
  (\<open>validate.go\<close>). The \<open>text/template\<close> engine is the argument \<open>E\<close> (theory \<open>TextTemplate\<close>), ConfigMap
  access is the callback of the input, as in the source. Errors are values that carry what the Go
  error carries.
\<close>

section \<open>Templates\<close>

type_synonym Values = smap

definition parseTemplate :: "engine \<Rightarrow> string \<Rightarrow> string \<Rightarrow> go_error + template" where
  "parseTemplate E name tmpl = eng_parse E name tmpl"

definition Render_template :: "engine \<Rightarrow> string \<Rightarrow> string \<Rightarrow> Values \<Rightarrow> go_error + string" where
  "Render_template E name tmpl values =
     (case parseTemplate E name tmpl of
        Inl err \<Rightarrow> Inl err
      | Inr t \<Rightarrow> (case eng_exec E t values of Inl err \<Rightarrow> Inl err | Inr out \<Rightarrow> Inr out))"

text \<open>The closure \<open>ReferencedKeys\<close> passes to \<open>walkNode\<close>: record a field once, in order of appearance.\<close>

definition visit :: "string \<Rightarrow> string list \<Rightarrow> string list" where
  "visit field keys = (if field \<in> set keys then keys else keys @ [field])"

lemma node_size_in_list: "n \<in> set ns \<Longrightarrow> size (n :: node) \<le> size_list size ns"
  by (rule size_list_estimation') auto

function (sequential) walkNode :: "node \<Rightarrow> string list \<Rightarrow> string list"
  and walkBranch :: "node \<Rightarrow> node \<Rightarrow> node \<Rightarrow> string list \<Rightarrow> string list" where
  "walkNode NoNode keys = keys"
| "walkNode (ListNode ns) keys =
     (case ns of None \<Rightarrow> keys | Some children \<Rightarrow> fold walkNode children keys)"
| "walkNode (ActionNode p) keys = walkNode p keys"
| "walkNode (PipeNode decl cmds) keys =
     (case cmds of None \<Rightarrow> keys | Some cs \<Rightarrow> fold walkNode cs keys)"
| "walkNode (CommandNode args) keys = fold walkNode args keys"
| "walkNode (FieldNode ident) keys = (case ident of [] \<Rightarrow> keys | f # _ \<Rightarrow> visit f keys)"
| "walkNode (ChainNode n field) keys = walkNode n keys"
| "walkNode (IfNode p l e) keys = walkBranch p l e keys"
| "walkNode (RangeNode p l e) keys = walkBranch p l e keys"
| "walkNode (WithNode p l e) keys = walkBranch p l e keys"
| "walkNode (TemplateNode name p) keys = walkNode p keys"
| "walkNode _ keys = keys"
| "walkBranch p l e keys = walkNode e (walkNode l (walkNode p keys))"
  by pat_completeness auto
termination
  by (relation "measure (\<lambda>x. case x of Inl (n, _) \<Rightarrow> 2 * size n
        | Inr (p, l, e, _) \<Rightarrow> Suc (2 * (size p + size l + size e)))")
    (auto dest!: node_size_in_list)

definition ReferencedKeys :: "engine \<Rightarrow> string \<Rightarrow> go_error + string list" where
  "ReferencedKeys E tmpl =
     (case parseTemplate E ''template'' tmpl of
        Inl err \<Rightarrow> Inl err
      | Inr t \<Rightarrow> (case t_Root t of None \<Rightarrow> Inr [] | Some root \<Rightarrow> Inr (walkNode root [])))"

section \<open>Inputs\<close>

record Metadata =
  md_Annotations :: smap
  md_Labels :: smap

record Lookup =
  lk_Pod :: Metadata
  lk_ServiceAccount :: Metadata
  lk_Namespace :: Metadata

record Builtins =
  bi_PodNamespace :: string
  bi_ServiceAccountName :: string
  bi_ShimName :: string
  bi_TokenDir :: string
  bi_TokenPath :: string

definition KeyPodNamespace :: string where "KeyPodNamespace = ''podNamespace''"
definition KeyServiceAccountName :: string where "KeyServiceAccountName = ''serviceAccountName''"
definition KeyShimName :: string where "KeyShimName = ''shimName''"
definition KeyTokenDir :: string where "KeyTokenDir = ''tokenDir''"
definition KeyTokenPath :: string where "KeyTokenPath = ''tokenPath''"

lemmas builtin_key_defs = KeyPodNamespace_def KeyServiceAccountName_def KeyShimName_def
  KeyTokenDir_def KeyTokenPath_def

definition builtinKeys :: "string list" where
  "builtinKeys = [KeyPodNamespace, KeyServiceAccountName, KeyShimName, KeyTokenDir, KeyTokenPath]"

type_synonym ConfigMapGetter = "string \<Rightarrow> string \<Rightarrow> go_error + smap"

record Input =
  in_Parameters :: "Parameter list"
  in_Lookup :: Lookup
  in_Builtins :: Builtins
  in_ConfigMapNamespace :: string
  in_GetConfigMap :: "ConfigMapGetter option"

section \<open>Resolution\<close>

datatype source_description =
    StaticValue
  | AnnotationSource string
  | LabelSource string
  | ConfigMapSource string string
  | TemplateSource
  | NoSource

datatype resolve_error =
    MissingParameterError string source_description
  | NoConfigMapGetter string
  | ReadingConfigMap string string go_error
  | ParameterTemplate string go_error

definition sourceDescription :: "ParameterSource \<Rightarrow> source_description" where
  "sourceDescription src =
     (if src_Static src \<noteq> None then StaticValue
      else if src_Annotation src \<noteq> [] then AnnotationSource (src_Annotation src)
      else if src_Label src \<noteq> [] then LabelSource (src_Label src)
      else case src_ConfigMapKeyRef src of
        Some ref \<Rightarrow> ConfigMapSource (cmk_Key ref) (cmk_Name ref)
      | None \<Rightarrow> if src_Template src \<noteq> [] then TemplateSource else NoSource)"

fun lookup_first :: "smap list \<Rightarrow> string \<Rightarrow> string option" where
  "lookup_first [] key = None"
| "lookup_first (m # ms) key =
     (case smap_lookup m key of Some v \<Rightarrow> Some v | None \<Rightarrow> lookup_first ms key)"

definition lookupMetadata :: "Lookup \<Rightarrow> string \<Rightarrow> (Metadata \<Rightarrow> smap) \<Rightarrow> string option" where
  "lookupMetadata l key pick =
     lookup_first (map pick [lk_Pod l, lk_ServiceAccount l, lk_Namespace l]) key"

text \<open>\<open>resolveOne\<close>: an error, no value (\<open>found\<close> is false), or the value found.\<close>

definition resolveOne ::
  "engine \<Rightarrow> Input \<Rightarrow> Parameter \<Rightarrow> Values \<Rightarrow> resolve_error + string option" where
  "resolveOne E inp p sofar =
     (let src = par_ValueFrom p in
      case src_Static src of
        Some v \<Rightarrow> Inr (Some v)
      | None \<Rightarrow>
          if src_Annotation src \<noteq> [] then
            Inr (lookupMetadata (in_Lookup inp) (src_Annotation src) md_Annotations)
          else if src_Label src \<noteq> [] then
            Inr (lookupMetadata (in_Lookup inp) (src_Label src) md_Labels)
          else
            (case src_ConfigMapKeyRef src of
               Some ref \<Rightarrow>
                 (case in_GetConfigMap inp of
                    None \<Rightarrow> Inl (NoConfigMapGetter (par_Name p))
                  | Some get \<Rightarrow>
                      (case get (in_ConfigMapNamespace inp) (cmk_Name ref) of
                         Inl err \<Rightarrow> Inl (ReadingConfigMap (par_Name p) (cmk_Name ref) err)
                       | Inr data \<Rightarrow> Inr (smap_lookup data (cmk_Key ref))))
             | None \<Rightarrow>
                 if src_Template src \<noteq> [] then
                   (case Render_template E (par_Name p) (src_Template src) sofar of
                      Inl err \<Rightarrow> Inl (ParameterTemplate (par_Name p) err)
                    | Inr v \<Rightarrow> Inr (if v \<noteq> [] then Some v else None))
                 else Inr None))"

fun resolve_loop ::
  "engine \<Rightarrow> Input \<Rightarrow> Parameter list \<Rightarrow> Values \<Rightarrow> resolve_error + Values" where
  "resolve_loop E inp [] values = Inr values"
| "resolve_loop E inp (p # ps) values =
     (case resolveOne E inp p values of
        Inl err \<Rightarrow> Inl err
      | Inr (Some v) \<Rightarrow> resolve_loop E inp ps (smap_set values (par_Name p) v)
      | Inr None \<Rightarrow>
          (case par_Default p of
             Some d \<Rightarrow> resolve_loop E inp ps (smap_set values (par_Name p) d)
           | None \<Rightarrow>
               if par_Required p then
                 Inl (MissingParameterError (par_Name p) (sourceDescription (par_ValueFrom p)))
               else resolve_loop E inp ps (smap_set values (par_Name p) [])))"

definition builtin_values :: "Builtins \<Rightarrow> Values" where
  "builtin_values b =
     [(KeyPodNamespace, bi_PodNamespace b), (KeyServiceAccountName, bi_ServiceAccountName b),
      (KeyShimName, bi_ShimName b), (KeyTokenDir, bi_TokenDir b), (KeyTokenPath, bi_TokenPath b)]"

definition Resolve :: "engine \<Rightarrow> Input \<Rightarrow> resolve_error + Values" where
  "Resolve E inp = resolve_loop E inp (in_Parameters inp) (builtin_values (in_Builtins inp))"

section \<open>Validation\<close>

datatype param_problem =
    DuplicateName string
  | ReservedName string
  | SourceCount string nat
  | InvalidTemplate string go_error
  | UndefinedReference string string

fun isBuiltinKey_loop :: "string list \<Rightarrow> string \<Rightarrow> bool" where
  "isBuiltinKey_loop [] name = False"
| "isBuiltinKey_loop (k # ks) name = (if name = k then True else isBuiltinKey_loop ks name)"

definition isBuiltinKey :: "string \<Rightarrow> bool" where
  "isBuiltinKey name = isBuiltinKey_loop builtinKeys name"

definition countSources :: "ParameterSource \<Rightarrow> nat" where
  "countSources src =
     length (filter id
       [src_Static src \<noteq> None, src_Annotation src \<noteq> [], src_Label src \<noteq> [],
        src_ConfigMapKeyRef src \<noteq> None, src_Template src \<noteq> []])"

definition template_problems :: "engine \<Rightarrow> string list \<Rightarrow> Parameter \<Rightarrow> param_problem list" where
  "template_problems E known p =
     (if src_Template (par_ValueFrom p) \<noteq> [] then
        (case ReferencedKeys E (src_Template (par_ValueFrom p)) of
           Inl err \<Rightarrow> [InvalidTemplate (par_Name p) err]
         | Inr keys \<Rightarrow>
             map (UndefinedReference (par_Name p)) (filter (\<lambda>key. key \<notin> set known) keys))
      else [])"

fun validate_loop ::
  "engine \<Rightarrow> string list \<Rightarrow> string list \<Rightarrow> Parameter list \<Rightarrow> param_problem list" where
  "validate_loop E known seen [] = []"
| "validate_loop E known seen (p # ps) =
     (if par_Name p \<in> set seen then [DuplicateName (par_Name p)] else []) @
     (if isBuiltinKey (par_Name p) then [ReservedName (par_Name p)] else []) @
     (let n = countSources (par_ValueFrom p) in
      if n \<noteq> 1 then [SourceCount (par_Name p) n] else []) @
     template_problems E known p @
     validate_loop E (par_Name p # known) (par_Name p # seen) ps"

definition Validate_params :: "engine \<Rightarrow> Parameter list \<Rightarrow> param_problem list" where
  "Validate_params E parameters = validate_loop E builtinKeys [] parameters"

section \<open>Referenced keys\<close>

lemma set_visit: "set (visit f ks) = insert f (set ks)"
  by (auto simp: visit_def)

lemma distinct_visit: "distinct ks \<Longrightarrow> distinct (visit f ks)"
  by (auto simp: visit_def)

lemma fold_distinct:
  assumes "distinct ks" and "\<And>n ks. n \<in> set ns \<Longrightarrow> distinct ks \<Longrightarrow> distinct (f n ks)"
  shows "distinct (fold f ns ks)"
  by (rule fold_invariant [where Q = "\<lambda>n. n \<in> set ns"]) (use assms in auto)

lemma walk_distinct:
  "distinct ks \<Longrightarrow> distinct (walkNode n ks)"
  "distinct ks \<Longrightarrow> distinct (walkBranch p l e ks)"
  by (induction n ks and p l e ks rule: walkNode_walkBranch.induct)
    (auto intro!: fold_distinct distinct_visit split: list.splits option.splits)

lemma walk_plain:
  "list_all plain_node ns \<Longrightarrow> set (fold walkNode ns ks) = set ks \<union> set (plain_keys ns)"
proof (induction ns arbitrary: ks)
  case Nil
  then show ?case by simp
next
  case (Cons n ns)
  then have "plain_node n" by simp
  then show ?case
    by (cases n rule: plain_node_cases) (use Cons in \<open>auto simp: set_visit\<close>)
qed

section \<open>Rendering plain templates\<close>

text \<open>
  A template text is plain for an engine when, if it parses, it defines no templates and what it parses to is plain.
\<close>

definition plain_text :: "engine \<Rightarrow> string \<Rightarrow> bool" where
  "plain_text E s =
     (case eng_parse E ''template'' s of Inl _ \<Rightarrow> True | Inr t \<Rightarrow> \<not> defines_templates s \<and> plain_template t)"

lemma field_engine_plain_text: "plain_text field_engine s"
  by (auto simp: plain_text_def simp del: plain_template.simps intro: field_engine_plain dest: field_engine_defines
      split: sum.splits)

context template_engine
begin

lemma ReferencedKeys_plain:
  assumes "plain_text E s" and "ReferencedKeys E s = Inr ks"
  obtains t where "eng_parse E ''template'' s = Inr t" "plain_template t" "\<not> defines_templates s"
    "set ks = set (plain_keys (plain_nodes t))"
proof -
  from assms(2) obtain t where t: "eng_parse E ''template'' s = Inr t"
    by (auto simp: ReferencedKeys_def parseTemplate_def split: sum.splits)
  with assms(1) have "plain_template t" and d: "\<not> defines_templates s" by (simp_all add: plain_text_def)
  moreover from this(1) obtain ns where "t_Root t = Some (ListNode (Some ns))" "list_all plain_node ns"
    by (auto split: option.splits node.splits)
  moreover from this assms(2) t have "set ks = set (plain_keys ns)"
    by (auto simp: ReferencedKeys_def parseTemplate_def walk_plain)
  ultimately show ?thesis using t d that by (simp add: plain_nodes_def)
qed

lemma Render_plain_iff:
  assumes "plain_text E s" and "ReferencedKeys E s = Inr ks"
  shows "(\<exists>out. Render_template E n s vs = Inr out) \<longleftrightarrow> (\<forall>k\<in>set ks. smap_lookup vs k \<noteq> None)"
proof -
  obtain t where t: "eng_parse E ''template'' s = Inr t" "plain_template t"
    "set ks = set (plain_keys (plain_nodes t))" and d: "\<not> defines_templates s"
    using ReferencedKeys_plain [OF assms] by blast
  have "(\<exists>out. Render_template E n s vs = Inr out) \<longleftrightarrow> (\<exists>out. eng_exec E t vs = Inr out)"
    using parse_any_name [OF d t(1), of n]
    by (auto simp: Render_template_def parseTemplate_def split: sum.splits)
  then show ?thesis by (simp only: exec_succeeds_iff [OF t(2)] t(3))
qed

end

section \<open>One parameter at a time\<close>

definition param_value ::
  "engine \<Rightarrow> Input \<Rightarrow> Parameter \<Rightarrow> Values \<Rightarrow> resolve_error + string" where
  "param_value E inp p sofar =
     (case resolveOne E inp p sofar of
        Inl err \<Rightarrow> Inl err
      | Inr (Some v) \<Rightarrow> Inr v
      | Inr None \<Rightarrow>
          (case par_Default p of Some d \<Rightarrow> Inr d
           | None \<Rightarrow>
               if par_Required p then
                 Inl (MissingParameterError (par_Name p) (sourceDescription (par_ValueFrom p)))
               else Inr []))"

lemma resolve_loop_step:
  "resolve_loop E inp (p # ps) vs =
     (case param_value E inp p vs of Inl e \<Rightarrow> Inl e
      | Inr v \<Rightarrow> resolve_loop E inp ps (smap_set vs (par_Name p) v))"
  by (auto simp: param_value_def split: sum.splits option.splits)

declare resolve_loop.simps(2) [simp del]
declare resolve_loop_step [simp]

lemma resolve_loop_lookup_other:
  "resolve_loop E inp ps vs = Inr vs' \<Longrightarrow> k \<notin> par_Name ` set ps \<Longrightarrow>
     smap_lookup vs' k = smap_lookup vs k"
  by (induction ps arbitrary: vs) (auto simp: sm.lookup_store split: sum.splits)

lemma resolve_loop_keys:
  "resolve_loop E inp ps vs = Inr vs' \<Longrightarrow>
     (smap_lookup vs' k \<noteq> None) \<longleftrightarrow> (smap_lookup vs k \<noteq> None \<or> k \<in> par_Name ` set ps)"
proof (induction ps arbitrary: vs)
  case Nil
  then show ?case by simp
next
  case (Cons p ps)
  then obtain v where "resolve_loop E inp ps (smap_set vs (par_Name p) v) = Inr vs'"
    by (auto split: sum.splits)
  from Cons.IH [OF this] show ?case by (auto simp: sm.lookup_store)
qed

lemma resolve_loop_value:
  assumes "resolve_loop E inp ps vs = Inr vs'" and "distinct (map par_Name ps)" and "p \<in> set ps"
  shows "\<exists>sofar v. param_value E inp p sofar = Inr v \<and> smap_lookup vs' (par_Name p) = Some v"
  using assms
proof (induction ps arbitrary: vs)
  case Nil
  then show ?case by simp
next
  case (Cons q ps)
  then obtain v where v: "param_value E inp q vs = Inr v"
    and rest: "resolve_loop E inp ps (smap_set vs (par_Name q) v) = Inr vs'"
    by (auto split: sum.splits)
  show ?case
  proof (cases "p = q")
    case True
    have "smap_lookup vs' (par_Name q) = smap_lookup (smap_set vs (par_Name q) v) (par_Name q)"
      using Cons.prems by (intro resolve_loop_lookup_other [OF rest]) auto
    with v True show ?thesis by (auto simp: sm.lookup_store)
  next
    case False
    with Cons.prems Cons.IH [OF rest] show ?thesis by auto
  qed
qed

lemma resolve_loop_error:
  "resolve_loop E inp ps vs = Inl e \<Longrightarrow> \<exists>p\<in>set ps. \<exists>sofar. param_value E inp p sofar = Inl e"
  by (induction ps arbitrary: vs) (fastforce split: sum.splits)+

lemma lookup_builtin_values:
  "smap_lookup (builtin_values b) k \<noteq> None \<longleftrightarrow> k \<in> set builtinKeys"
  by (auto simp: builtin_values_def builtinKeys_def smap_lookup_def)

section \<open>What validation establishes\<close>

lemma isBuiltinKey_iff: "isBuiltinKey n \<longleftrightarrow> n \<in> set builtinKeys"
proof -
  have "isBuiltinKey_loop ks n \<longleftrightarrow> n \<in> set ks" for ks by (induction ks) auto
  then show ?thesis by (simp add: isBuiltinKey_def)
qed

lemma validate_loop_names:
  "validate_loop E known seen ps = [] \<Longrightarrow>
     distinct (map par_Name ps) \<and> par_Name ` set ps \<inter> set seen = {} \<and>
     par_Name ` set ps \<inter> set builtinKeys = {} \<and>
     (\<forall>p\<in>set ps. countSources (par_ValueFrom p) = 1)"
proof (induction ps arbitrary: known seen)
  case Nil
  then show ?case by simp
next
  case (Cons p ps)
  then have "validate_loop E (par_Name p # known) (par_Name p # seen) ps = []" by simp
  from Cons.IH [OF this] Cons.prems show ?case
    by (auto simp: isBuiltinKey_iff split: if_splits)
qed

lemmas Validate_params_names =
  validate_loop_names [of _ builtinKeys "[]", folded Validate_params_def]

lemma countSources_annotation:
  assumes "countSources src = 1" and "src_Annotation src \<noteq> []"
  shows "src_Static src = None" "src_Label src = []" "src_ConfigMapKeyRef src = None"
    "src_Template src = []"
  using assms by (auto simp: countSources_def split: if_splits)

lemma param_value_template_error:
  "param_value E inp p vs = Inl (ParameterTemplate n e) \<Longrightarrow>
     src_Template (par_ValueFrom p) \<noteq> [] \<and>
     Render_template E (par_Name p) (src_Template (par_ValueFrom p)) vs = Inl e"
  by (auto simp: param_value_def resolveOne_def Let_def split: sum.splits option.splits if_splits)

context template_engine
begin

lemma resolve_loop_no_template_error:
  assumes "validate_loop E known seen ps = []"
    and "\<And>k. k \<in> set known \<Longrightarrow> smap_lookup vs k \<noteq> None"
    and "\<And>p. p \<in> set ps \<Longrightarrow> plain_text E (src_Template (par_ValueFrom p))"
  shows "resolve_loop E inp ps vs \<noteq> Inl (ParameterTemplate n e)"
  using assms
proof (induction ps arbitrary: known seen vs)
  case Nil
  then show ?case by simp
next
  case (Cons p ps)
  let ?src = "par_ValueFrom p"
  have rest: "validate_loop E (par_Name p # known) (par_Name p # seen) ps = []"
    and tp: "template_problems E known p = []" using Cons.prems(1) by auto
  have here: "param_value E inp p vs \<noteq> Inl (ParameterTemplate n e)"
  proof
    assume "param_value E inp p vs = Inl (ParameterTemplate n e)"
    from param_value_template_error [OF this] have t: "src_Template ?src \<noteq> []"
      and r: "Render_template E (par_Name p) (src_Template ?src) vs = Inl e" by auto
    from tp t obtain ks where ks: "ReferencedKeys E (src_Template ?src) = Inr ks"
      and "\<forall>k\<in>set ks. k \<in> set known"
      by (auto simp: template_problems_def filter_empty_conv split: sum.splits)
    with Cons.prems(2) have "\<forall>k\<in>set ks. smap_lookup vs k \<noteq> None" by blast
    moreover have "plain_text E (src_Template ?src)" using Cons.prems(3) by simp
    ultimately show False using Render_plain_iff [OF _ ks, of "par_Name p" vs] r by auto
  qed
  have "resolve_loop E inp ps (smap_set vs (par_Name p) v) \<noteq> Inl (ParameterTemplate n e)" for v
    using Cons.prems by (intro Cons.IH [OF rest]) (auto simp: sm.lookup_store)
  with here show ?case by (auto split: sum.splits)
qed

end

section \<open>Properties\<close>

text \<open>
  (C33) The keys a plain template references are exactly what rendering it needs. They are reported without
  duplicates, and under every template name and for every set of values rendering succeeds if and
  only if each of them has a value.
\<close>

theorem ReferencedKeys_exact:
  assumes "template_engine E" "plain_text E s" "ReferencedKeys E s = Inr ks"
  shows "distinct ks \<and>
    ((\<exists>out. Render_template E n s vs = Inr out) \<longleftrightarrow> (\<forall>k\<in>set ks. smap_lookup vs k \<noteq> None))"
proof
  show "distinct ks"
    using assms(3) by (auto simp: ReferencedKeys_def parseTemplate_def intro: walk_distinct split: sum.splits option.splits)
  show "(\<exists>out. Render_template E n s vs = Inr out) \<longleftrightarrow> (\<forall>k\<in>set ks. smap_lookup vs k \<noteq> None)"
    by (rule template_engine.Render_plain_iff [OF assms])
qed

theorem ReferencedKeys_exact_witness:
  "\<not> (\<exists>out. Render_template field_engine ''audience'' ''{{ .pool }}/{{ .pool }}'' [(''location'', [])] = Inr out)"
proof -
  have "ReferencedKeys field_engine ''{{ .pool }}/{{ .pool }}'' = Inr [''pool'']" by code_simp
  from ReferencedKeys_exact [OF fe.template_engine_axioms field_engine_plain_text this, of "''audience''" "[(''location'', [])]"]
  show ?thesis by (simp add: smap_lookup_def)
qed

text \<open>
  Resolution returns exactly the builtin keys and the parameter names, and with a validated
  parameter list no parameter can change a builtin value.
\<close>

lemma Resolve_keys_and_builtins:
  assumes "Validate_params E (in_Parameters inp) = []" and "Resolve E inp = Inr vs"
  shows "((smap_lookup vs k \<noteq> None) = (k \<in> set builtinKeys \<or> k \<in> par_Name ` set (in_Parameters inp))) \<and>
    (k \<in> set builtinKeys \<longrightarrow> smap_lookup vs k = smap_lookup (builtin_values (in_Builtins inp)) k)"
proof -
  from assms(2) have r: "resolve_loop E inp (in_Parameters inp) (builtin_values (in_Builtins inp)) = Inr vs"
    by (simp add: Resolve_def)
  have "smap_lookup vs k = smap_lookup (builtin_values (in_Builtins inp)) k" if "k \<in> set builtinKeys"
    using Validate_params_names [OF assms(1)] that by (intro resolve_loop_lookup_other [OF r]) auto
  with resolve_loop_keys [OF r, of k] show ?thesis by (simp only: lookup_builtin_values) simp
qed

text \<open>
  A pod configured on three levels: the pool comes from the namespace, the location is masked by an
  empty annotation on the pod, and the audience is a template over both.
\<close>

definition sample_source :: ParameterSource where
  "sample_source =
     \<lparr>src_Static = None, src_Annotation = [], src_Label = [], src_ConfigMapKeyRef = None,
      src_Template = []\<rparr>"

definition sample_parameters :: "Parameter list" where
  "sample_parameters =
     [\<lparr>par_Name = ''pool'', par_ValueFrom = sample_source\<lparr>src_Annotation := ''wid-pool''\<rparr>,
       par_Default = None, par_Required = True\<rparr>,
      \<lparr>par_Name = ''location'', par_ValueFrom = sample_source\<lparr>src_Annotation := ''wid-location''\<rparr>,
       par_Default = Some ''global'', par_Required = False\<rparr>,
      \<lparr>par_Name = ''audience'',
       par_ValueFrom = sample_source\<lparr>src_Template := ''pools/{{ .pool }}/{{ .shimName }}{{.location}}''\<rparr>,
       par_Default = None, par_Required = False\<rparr>]"

definition sample_input :: Input where
  "sample_input =
     \<lparr>in_Parameters = sample_parameters,
      in_Lookup =
        \<lparr>lk_Pod = \<lparr>md_Annotations = [(''wid-location'', [])], md_Labels = []\<rparr>,
         lk_ServiceAccount = \<lparr>md_Annotations = [], md_Labels = []\<rparr>,
         lk_Namespace =
           \<lparr>md_Annotations = [(''wid-pool'', ''p1''), (''wid-location'', ''eu'')], md_Labels = []\<rparr>\<rparr>,
      in_Builtins =
        \<lparr>bi_PodNamespace = ''ns'', bi_ServiceAccountName = ''sa'', bi_ShimName = ''gcp'',
         bi_TokenDir = ''/t'', bi_TokenPath = ''/t/token''\<rparr>,
      in_ConfigMapNamespace = ''ns'', in_GetConfigMap = None\<rparr>"

lemma sample_valid: "Validate_params field_engine (in_Parameters sample_input) = []"
  by code_simp

lemma sample_resolves:
  "Resolve field_engine sample_input =
     Inr (builtin_values (in_Builtins sample_input) @
       [(''pool'', ''p1''), (''location'', []), (''audience'', ''pools/p1/gcp'')])"
  by code_simp

text \<open>
  (C32) An annotation parameter takes the value of the first object that carries the key, in the order
  pod, service account, namespace, even when that value is empty; only when no object carries the
  key does the default apply, and then the empty string. A required parameter without a default
  never resolves unless some object carries its key.
\<close>

theorem Resolve_annotation_precedence:
  assumes "Validate_params E (in_Parameters inp) = []" and "Resolve E inp = Inr vs"
    and "p \<in> set (in_Parameters inp)" and "src_Annotation (par_ValueFrom p) = a" and "a \<noteq> []"
    and "podA = smap_lookup (md_Annotations (lk_Pod (in_Lookup inp))) a"
    and "saA = smap_lookup (md_Annotations (lk_ServiceAccount (in_Lookup inp))) a"
    and "nsA = smap_lookup (md_Annotations (lk_Namespace (in_Lookup inp))) a"
  shows "smap_lookup vs (par_Name p) =
      Some (case podA of Some v \<Rightarrow> v | None \<Rightarrow>
            (case saA of Some v \<Rightarrow> v | None \<Rightarrow>
            (case nsA of Some v \<Rightarrow> v | None \<Rightarrow>
            (case par_Default p of Some d \<Rightarrow> d | None \<Rightarrow> [])))) \<and>
    (par_Required p \<and> par_Default p = None \<longrightarrow> \<not> (podA = None \<and> saA = None \<and> nsA = None))"
proof -
  note names = Validate_params_names [OF assms(1)]
  then have "distinct (map par_Name (in_Parameters inp))" by simp
  from resolve_loop_value [OF assms(2) [unfolded Resolve_def] this assms(3)]
  obtain sofar v where v: "param_value E inp p sofar = Inr v" "smap_lookup vs (par_Name p) = Some v"
    by auto
  have "src_Static (par_ValueFrom p) = None"
    using countSources_annotation(1) names assms(3-5) by blast
  with v(1) assms(4-8) show ?thesis
    unfolding v(2)
    by (auto simp: param_value_def resolveOne_def lookupMetadata_def Let_def
        split: option.splits if_splits)
qed

theorem Resolve_annotation_precedence_witness:
  "smap_lookup (projr (Resolve field_engine sample_input)) ''location'' = Some []"
  using Resolve_annotation_precedence
      [OF sample_valid sample_resolves, of "sample_parameters ! 1" "''wid-location''" "Some []" None "Some ''eu''"]
  by (simp add: sample_resolves)
    (simp add: sample_input_def sample_parameters_def smap_lookup_def)

text \<open>
  For a validated parameter list of plain templates, a pod's parameters never fail to resolve
  because of a template: every key a template names is available when it is rendered. What can still
  fail is a required parameter without a value or the ConfigMap read.
\<close>

lemma Resolve_no_template_error:
  assumes "template_engine E" and "Validate_params E (in_Parameters inp) = []"
    and "\<And>p. p \<in> set (in_Parameters inp) \<Longrightarrow> plain_text E (src_Template (par_ValueFrom p))"
  shows "Resolve E inp \<noteq> Inl (ParameterTemplate n e)"
  unfolding Resolve_def
proof (rule template_engine.resolve_loop_no_template_error [OF assms(1)])
  show "validate_loop E builtinKeys [] (in_Parameters inp) = []"
    using assms(2) by (simp add: Validate_params_def)
qed (use assms(3) lookup_builtin_values in blast)+

end
