(* ===== verification/GoQuote.thy ===== *)
theory GoQuote
  imports GoStrings
begin

text \<open>
  \<open>strconv.Quote\<close>: a string as a double-quoted literal. Valid UTF-8 sequences of printable runes are
  copied, the usual control characters get their one-letter escape, and everything else becomes an
  escape in hexadecimal, an invalid byte included. Which runes outside ASCII count as printable is a
  table of the Go release, hence the parameter \<open>isPrint\<close>; no result depends on it. \<open>unquote\<close> reads a
  literal back the way the language defines interpreted string literals and returns the text that
  follows the closing quote.
\<close>

section \<open>UTF-8\<close>

definition is_cont :: "nat \<Rightarrow> bool" where
  "is_cont b = (128 \<le> b \<and> b \<le> 191)"

text \<open>The second byte of a three or four byte sequence is restricted at the ends of the range.\<close>

definition second3 :: "nat \<Rightarrow> nat \<Rightarrow> bool" where
  "second3 b0 b1 =
     ((if b0 = 224 then 160 else 128) \<le> b1 \<and> b1 \<le> (if b0 = 237 then 159 else 191))"

definition second4 :: "nat \<Rightarrow> nat \<Rightarrow> bool" where
  "second4 b0 b1 =
     ((if b0 = 240 then 144 else 128) \<le> b1 \<and> b1 \<le> (if b0 = 244 then 143 else 191))"

definition rune2 :: "nat \<Rightarrow> nat \<Rightarrow> nat" where
  "rune2 b0 b1 = (b0 - 192) * 64 + (b1 - 128)"

definition rune3 :: "nat \<Rightarrow> nat \<Rightarrow> nat \<Rightarrow> nat" where
  "rune3 b0 b1 b2 = ((b0 - 224) * 64 + (b1 - 128)) * 64 + (b2 - 128)"

definition rune4 :: "nat \<Rightarrow> nat \<Rightarrow> nat \<Rightarrow> nat \<Rightarrow> nat" where
  "rune4 b0 b1 b2 b3 = (((b0 - 240) * 64 + (b1 - 128)) * 64 + (b2 - 128)) * 64 + (b3 - 128)"

fun decode2 :: "nat list \<Rightarrow> (nat \<times> nat) option" where
  "decode2 (b0 # b1 # _) = (if is_cont b1 then Some (rune2 b0 b1, 2) else None)"
| "decode2 _ = None"

fun decode3 :: "nat list \<Rightarrow> (nat \<times> nat) option" where
  "decode3 (b0 # b1 # b2 # _) =
     (if second3 b0 b1 \<and> is_cont b2 then Some (rune3 b0 b1 b2, 3) else None)"
| "decode3 _ = None"

fun decode4 :: "nat list \<Rightarrow> (nat \<times> nat) option" where
  "decode4 (b0 # b1 # b2 # b3 # _) =
     (if second4 b0 b1 \<and> is_cont b2 \<and> is_cont b3 then Some (rune4 b0 b1 b2 b3, 4) else None)"
| "decode4 _ = None"

definition decode_bytes :: "nat list \<Rightarrow> (nat \<times> nat) option" where
  "decode_bytes bs =
     (case bs of [] \<Rightarrow> None
      | b0 # _ \<Rightarrow>
          if b0 < 128 then Some (b0, 1)
          else if 194 \<le> b0 \<and> b0 \<le> 223 then decode2 bs
          else if 224 \<le> b0 \<and> b0 \<le> 239 then decode3 bs
          else if 240 \<le> b0 \<and> b0 \<le> 244 then decode4 bs
          else None)"

definition decode_rune :: "string \<Rightarrow> (nat \<times> nat) option" where
  "decode_rune s = decode_bytes (map of_char (take 4 s))"

definition encode_bytes :: "nat \<Rightarrow> nat list" where
  "encode_bytes r =
     (if r < 128 then [r]
      else if r < 2048 then [192 + r div 64, 128 + r mod 64]
      else if r < 65536 then [224 + r div 4096, 128 + r div 64 mod 64, 128 + r mod 64]
      else [240 + r div 262144, 128 + r div 4096 mod 64, 128 + r div 64 mod 64, 128 + r mod 64])"

definition encode_rune :: "nat \<Rightarrow> string" where
  "encode_rune r = map char_of (encode_bytes r)"

lemma digit64: "(y :: nat) < 64 \<Longrightarrow> (a * 64 + y) div 64 = a" "(y :: nat) < 64 \<Longrightarrow> (a * 64 + y) mod 64 = y"
  by auto

lemma div_64s: "(r :: nat) div 4096 = r div 64 div 64" "(r :: nat) div 262144 = r div 64 div 64 div 64"
  by (simp_all add: div_mult2_eq [symmetric])

lemma encode_decode_1: "r < 128 \<Longrightarrow> encode_bytes r = [r]"
  by (simp add: encode_bytes_def)

lemma encode_decode_2:
  assumes "194 \<le> b0" "b0 \<le> 223" "is_cont b1"
  shows "encode_bytes (rune2 b0 b1) = [b0, b1]"
proof -
  obtain x y where xy: "b0 = 192 + x" "b1 = 128 + y" and b: "2 \<le> x" "x < 32" "y < 64"
    using assms that [of "b0 - 192" "b1 - 128"] by (auto simp: is_cont_def)
  define r where "r = x * 64 + y"
  have "128 \<le> r" "r < 2048" using b by (auto simp: r_def)
  moreover have "r div 64 = x" "r mod 64 = y" unfolding r_def digit64 [OF b(3)] by (rule refl)+
  ultimately have "encode_bytes r = [192 + x, 128 + y]" by (simp add: encode_bytes_def)
  then show ?thesis by (simp add: r_def xy rune2_def)
qed

lemma encode_decode_3:
  assumes "224 \<le> b0" "b0 \<le> 239" "second3 b0 b1" "is_cont b2"
  shows "encode_bytes (rune3 b0 b1 b2) = [b0, b1, b2]"
proof -
  obtain x y z where xyz: "b0 = 224 + x" "b1 = 128 + y" "b2 = 128 + z"
    and b: "x < 16" "y < 64" "z < 64" "x = 0 \<longrightarrow> 32 \<le> y"
    using assms that [of "b0 - 224" "b1 - 128" "b2 - 128"]
    by (auto simp: is_cont_def second3_def split: if_splits)
  define r where "r = (x * 64 + y) * 64 + z"
  have "2048 \<le> r" using b unfolding r_def by (cases "x = 0") auto
  moreover have "r < 65536" using b unfolding r_def by auto
  moreover have "r div 4096 = x" "r div 64 mod 64 = y" "r mod 64 = z"
    unfolding r_def div_64s digit64 [OF b(3)] digit64 [OF b(2)] by (rule refl)+
  ultimately have "encode_bytes r = [224 + x, 128 + y, 128 + z]" by (simp add: encode_bytes_def)
  then show ?thesis by (simp add: r_def xyz rune3_def)
qed

lemma encode_decode_4:
  assumes "240 \<le> b0" "b0 \<le> 244" "second4 b0 b1" "is_cont b2" "is_cont b3"
  shows "encode_bytes (rune4 b0 b1 b2 b3) = [b0, b1, b2, b3]"
proof -
  obtain x y z u where xyz: "b0 = 240 + x" "b1 = 128 + y" "b2 = 128 + z" "b3 = 128 + u"
    and b: "x < 8" "y < 64" "z < 64" "u < 64" "x = 0 \<longrightarrow> 16 \<le> y"
    using assms that [of "b0 - 240" "b1 - 128" "b2 - 128" "b3 - 128"]
    by (auto simp: is_cont_def second4_def split: if_splits)
  define r where "r = ((x * 64 + y) * 64 + z) * 64 + u"
  have "65536 \<le> r" using b unfolding r_def by (cases "x = 0") auto
  moreover have "r div 262144 = x" "r div 4096 mod 64 = y" "r div 64 mod 64 = z" "r mod 64 = u"
    unfolding r_def div_64s digit64 [OF b(4)] digit64 [OF b(3)] digit64 [OF b(2)] by (rule refl)+
  ultimately have "encode_bytes r = [240 + x, 128 + y, 128 + z, 128 + u]"
    by (simp add: encode_bytes_def)
  then show ?thesis by (simp add: r_def xyz rune4_def)
qed

lemma decode_bytes_cases:
  assumes "decode_bytes bs = Some (r, w)"
  obtains (one) b0 t where "bs = b0 # t" "b0 < 128" "r = b0" "w = 1"
  | (two) b0 b1 t where "bs = b0 # b1 # t" "194 \<le> b0" "b0 \<le> 223" "is_cont b1"
      "r = rune2 b0 b1" "w = 2"
  | (three) b0 b1 b2 t where "bs = b0 # b1 # b2 # t" "224 \<le> b0" "b0 \<le> 239"
      "second3 b0 b1" "is_cont b2" "r = rune3 b0 b1 b2" "w = 3"
  | (four) b0 b1 b2 b3 t where "bs = b0 # b1 # b2 # b3 # t" "240 \<le> b0" "b0 \<le> 244"
      "second4 b0 b1" "is_cont b2" "is_cont b3" "r = rune4 b0 b1 b2 b3" "w = 4"
proof -
  from assms obtain b0 t where bs: "bs = b0 # t" by (cases bs) (auto simp: decode_bytes_def)
  consider "b0 < 128" "r = b0" "w = 1" | "194 \<le> b0" "b0 \<le> 223" "decode2 bs = Some (r, w)"
    | "224 \<le> b0" "b0 \<le> 239" "decode3 bs = Some (r, w)"
    | "240 \<le> b0" "b0 \<le> 244" "decode4 bs = Some (r, w)"
    using assms unfolding decode_bytes_def bs
    by (simp split: if_split_asm)
  then show thesis
  proof cases
    case 1
    with bs one show thesis by blast
  next
    case 2
    with bs two show thesis by (cases bs rule: decode2.cases) (auto split: if_split_asm)
  next
    case 3
    with bs three show thesis by (cases bs rule: decode3.cases) (auto split: if_split_asm)
  next
    case 4
    with bs four show thesis by (cases bs rule: decode4.cases) (auto split: if_split_asm)
  qed
qed

lemma encode_decode_bytes: "decode_bytes bs = Some (r, w) \<Longrightarrow> encode_bytes r = take w bs"
  by (erule decode_bytes_cases)
    (simp_all add: encode_decode_1 encode_decode_2 encode_decode_3 encode_decode_4)

lemma decode_bytes_width: "decode_bytes bs = Some (r, w) \<Longrightarrow> 0 < w \<and> w \<le> length bs"
  by (erule decode_bytes_cases) simp_all

lemma decode_bytes_bound: "decode_bytes bs = Some (r, w) \<Longrightarrow> r < 2097152"
  by (erule decode_bytes_cases)
    (auto simp: is_cont_def second3_def second4_def rune2_def rune3_def rune4_def split: if_splits)

lemma encode_decode: "decode_rune s = Some (r, w) \<Longrightarrow> encode_rune r = take w s"
proof -
  assume a: "decode_rune s = Some (r, w)"
  then have "encode_rune r = map char_of (take w (map of_char (take 4 s)) :: nat list)"
    by (simp add: decode_rune_def encode_rune_def encode_decode_bytes)
  also have "\<dots> = take w (take 4 s)" by (simp add: take_map comp_def)
  finally show ?thesis using decode_bytes_width [OF a [unfolded decode_rune_def]] by simp
qed

lemma decode_rune_width: "decode_rune s = Some (r, w) \<Longrightarrow> 0 < w \<and> w \<le> length s"
  unfolding decode_rune_def by (drule decode_bytes_width) auto

section \<open>Quote\<close>

definition hex_char :: "nat \<Rightarrow> char" where
  "hex_char n = (if n < 10 then char_of (48 + n) else char_of (87 + n))"

fun hex_digits :: "nat \<Rightarrow> nat \<Rightarrow> string" where
  "hex_digits 0 v = []"
| "hex_digits (Suc n) v = hex_digits n (v div 16) @ [hex_char (v mod 16)]"

definition escape_rune :: "(nat \<Rightarrow> bool) \<Rightarrow> nat \<Rightarrow> string \<Rightarrow> string" where
  "escape_rune isPrint r bytes =
     (if r = 34 \<or> r = 92 then [CHR 0x5C, char_of r]
      else if (if r < 128 then 32 \<le> r \<and> r \<le> 126 else isPrint r) then bytes
      else if r = 7 then [CHR 0x5C, CHR ''a'']
      else if r = 8 then [CHR 0x5C, CHR ''b'']
      else if r = 12 then [CHR 0x5C, CHR ''f'']
      else if r = 10 then [CHR 0x5C, CHR ''n'']
      else if r = 13 then [CHR 0x5C, CHR ''r'']
      else if r = 9 then [CHR 0x5C, CHR ''t'']
      else if r = 11 then [CHR 0x5C, CHR ''v'']
      else if r < 32 \<or> r = 127 then [CHR 0x5C, CHR ''x''] @ hex_digits 2 r
      else if r < 65536 then [CHR 0x5C, CHR ''u''] @ hex_digits 4 r
      else [CHR 0x5C, CHR ''U''] @ hex_digits 8 r)"

function quote_body :: "(nat \<Rightarrow> bool) \<Rightarrow> string \<Rightarrow> string" where
  "quote_body isPrint [] = []"
| "quote_body isPrint (c # cs) =
     (case decode_rune (c # cs) of
        None \<Rightarrow> [CHR 0x5C, CHR ''x''] @ hex_digits 2 (of_char c) @ quote_body isPrint cs
      | Some (r, w) \<Rightarrow>
          escape_rune isPrint r (take w (c # cs)) @ quote_body isPrint (drop w (c # cs)))"
  by pat_completeness auto
termination
  by (relation "measure (\<lambda>(_, s). length s)") (auto dest: decode_rune_width)

declare quote_body.simps(2) [simp del]

definition Quote :: "(nat \<Rightarrow> bool) \<Rightarrow> string \<Rightarrow> string" where
  "Quote isPrint s = [CHR 0x22] @ quote_body isPrint s @ [CHR 0x22]"

section \<open>Reading a literal back\<close>

definition hex_val :: "char \<Rightarrow> nat option" where
  "hex_val c =
     (let n = of_char c :: nat in
      if 48 \<le> n \<and> n \<le> 57 then Some (n - 48)
      else if 97 \<le> n \<and> n \<le> 102 then Some (n - 87)
      else if 65 \<le> n \<and> n \<le> 70 then Some (n - 55) else None)"

fun hex_number :: "nat \<Rightarrow> string \<Rightarrow> nat option" where
  "hex_number a [] = Some a"
| "hex_number a (c # cs) = (case hex_val c of None \<Rightarrow> None | Some d \<Rightarrow> hex_number (a * 16 + d) cs)"

definition simple_escape :: "char \<Rightarrow> char option" where
  "simple_escape c =
     map_of [(CHR ''a'', CHR 0x07), (CHR ''b'', CHR 0x08), (CHR ''f'', CHR 0x0C),
       (CHR ''n'', CHR 0x0A), (CHR ''r'', CHR 0x0D), (CHR ''t'', CHR 0x09),
       (CHR ''v'', CHR 0x0B), (CHR 0x5C, CHR 0x5C), (CHR 0x22, CHR 0x22)] c"

definition hex_width :: "char \<Rightarrow> nat option" where
  "hex_width c = map_of [(CHR ''x'', 2), (CHR ''u'', 4), (CHR ''U'', 8)] c"

text \<open>
  One step of reading: the bytes the next piece of the literal denotes and the rest, or the closing
  quote. A raw line feed and a truncated or unknown escape make the literal malformed.
\<close>

datatype literal_step = Malformed | Closed string | Piece string string

definition literal_step :: "string \<Rightarrow> literal_step" where
  "literal_step s =
     (case s of
        [] \<Rightarrow> Malformed
      | c # r \<Rightarrow>
          if c = CHR 0x22 then Closed r
          else if c = CHR 0x0A then Malformed
          else if c \<noteq> CHR 0x5C then Piece [c] r
          else
            (case r of
               [] \<Rightarrow> Malformed
             | e # q \<Rightarrow>
                 (case simple_escape e of
                    Some v \<Rightarrow> Piece [v] q
                  | None \<Rightarrow>
                      (case hex_width e of
                         None \<Rightarrow> Malformed
                       | Some n \<Rightarrow>
                           (case hex_number 0 (take n q) of
                              None \<Rightarrow> Malformed
                            | Some v \<Rightarrow>
                                if length q < n then Malformed
                                else if n = 2 then Piece [char_of v] (drop n q)
                                else Piece (encode_rune v) (drop n q))))))"

lemma literal_step_shorter: "literal_step s = Piece b r \<Longrightarrow> length r < length s"
  by (auto simp: literal_step_def split: list.splits if_splits option.splits)

definition prepend :: "string \<Rightarrow> (string \<times> string) option \<Rightarrow> (string \<times> string) option" where
  "prepend b x = map_option (\<lambda>(v, rest). (b @ v, rest)) x"

lemma prepend_Nil [simp]: "prepend [] x = x"
  by (cases x) (auto simp: prepend_def)

lemma prepend_prepend [simp]: "prepend a (prepend b x) = prepend (a @ b) x"
  by (cases x) (auto simp: prepend_def)

lemma prepend_Some [simp]: "prepend b (Some (v, rest)) = Some (b @ v, rest)"
  by (simp add: prepend_def)

function unquote_body :: "string \<Rightarrow> (string \<times> string) option" where
  "unquote_body s =
     (case literal_step s of
        Malformed \<Rightarrow> None
      | Closed r \<Rightarrow> Some ([], r)
      | Piece b r \<Rightarrow> prepend b (unquote_body r))"
  by pat_completeness auto
termination
  by (relation "measure length") (auto dest: literal_step_shorter)

declare unquote_body.simps [simp del]

definition unquote :: "string \<Rightarrow> (string \<times> string) option" where
  "unquote s = (case s of c # r \<Rightarrow> if c = CHR 0x22 then unquote_body r else None | [] \<Rightarrow> None)"

section \<open>Quoting is undone by reading\<close>

lemma unquote_piece: "literal_step s = Piece b r \<Longrightarrow> unquote_body s = prepend b (unquote_body r)"
  by (subst unquote_body.simps) simp

lemma unquote_closed: "unquote_body (CHR 0x22 # r) = Some ([], r)"
  by (subst unquote_body.simps) (simp add: literal_step_def)

lemma unquote_copy:
  "(\<And>c. c \<in> set b \<Longrightarrow> c \<noteq> CHR 0x22 \<and> c \<noteq> CHR 0x5C \<and> c \<noteq> CHR 0x0A) \<Longrightarrow>
     unquote_body (b @ s) = prepend b (unquote_body s)"
proof (induction b)
  case Nil
  then show ?case by simp
next
  case (Cons c b)
  then have "literal_step (c # b @ s) = Piece [c] (b @ s)" by (simp add: literal_step_def)
  then show ?case using Cons by (simp add: unquote_piece)
qed

lemma hex_val_hex_char: "n < 16 \<Longrightarrow> hex_val (hex_char n) = Some n"
  by (auto simp: hex_val_def hex_char_def Let_def)

lemma hex_number_append:
  "hex_number a (xs @ ys) = (case hex_number a xs of None \<Rightarrow> None | Some v \<Rightarrow> hex_number v ys)"
  by (induction xs arbitrary: a) (auto split: option.splits)

lemma length_hex_digits [simp]: "length (hex_digits n v) = n"
  by (induction n arbitrary: v) auto

lemma hex_number_hex_digits: "v < 16 ^ n \<Longrightarrow> hex_number 0 (hex_digits n v) = Some v"
proof (induction n arbitrary: v)
  case 0
  then show ?case by simp
next
  case (Suc n)
  then have "v div 16 < 16 ^ n" by (simp add: less_mult_imp_div_less mult.commute)
  with Suc.IH show ?case by (simp add: hex_number_append hex_val_hex_char)
qed

lemma unquote_hex:
  assumes "hex_width e = Some n" and "simple_escape e = None" and "v < 16 ^ n"
  shows "unquote_body ([CHR 0x5C, e] @ hex_digits n v @ s) =
    prepend (if n = 2 then [char_of v] else encode_rune v) (unquote_body s)"
  using assms by (intro unquote_piece) (simp add: literal_step_def hex_number_hex_digits)

lemma unquote_simple:
  "simple_escape e = Some v \<Longrightarrow> unquote_body ([CHR 0x5C, e] @ s) = prepend [v] (unquote_body s)"
  by (intro unquote_piece) (simp add: literal_step_def)

lemma encode_bytes_high:
  assumes "128 \<le> r" and "r < 2097152" and "b \<in> set (encode_bytes r)"
  shows "128 \<le> b \<and> b < 256"
proof -
  have "b \<in> {192 + r div 64, 128 + r mod 64} \<and> r < 2048 \<or>
      b \<in> {224 + r div 4096, 128 + r div 64 mod 64, 128 + r mod 64} \<and> r < 65536 \<or>
      b \<in> {240 + r div 262144, 128 + r div 4096 mod 64, 128 + r div 64 mod 64, 128 + r mod 64}"
    using assms(1,3) by (simp add: encode_bytes_def split: if_split_asm)
  moreover have "r div 64 < 32" if "r < 2048" using that by auto
  moreover have "r div 4096 < 16" if "r < 65536" using that by auto
  moreover have "r div 262144 < 8" using assms(2) by auto
  moreover have "r mod 64 < 64" "r div 64 mod 64 < 64" "r div 4096 mod 64 < 64" by simp_all
  ultimately show ?thesis by auto
qed

lemma encode_rune_high:
  assumes "128 \<le> r" and "r < 2097152" and "c \<in> set (encode_rune r)"
  shows "128 \<le> (of_char c :: nat)"
  using encode_bytes_high [OF assms(1,2)] assms(3) by (fastforce simp: encode_rune_def)

lemma encode_rune_low: "r < 128 \<Longrightarrow> encode_rune r = [char_of r]"
  by (simp add: encode_rune_def encode_decode_1)

lemma copy_chars:
  assumes "r < 2097152" and "r \<noteq> 34" "r \<noteq> 92" "r \<noteq> 10" and "c \<in> set (encode_rune r)"
  shows "c \<noteq> CHR 0x22 \<and> c \<noteq> CHR 0x5C \<and> c \<noteq> CHR 0x0A"
proof (cases "r < 128")
  case True
  with assms(5) have "of_char c = r" by (simp add: encode_rune_low)
  with assms(2-4) show ?thesis by auto
next
  case False
  with encode_rune_high [of r c] assms(1,5) show ?thesis by auto
qed

lemma char_of_escaped:
  "char_of (34 :: nat) = CHR 0x22" "char_of (92 :: nat) = CHR 0x5C" "char_of (7 :: nat) = CHR 0x07"
  "char_of (8 :: nat) = CHR 0x08" "char_of (12 :: nat) = CHR 0x0C" "char_of (10 :: nat) = CHR 0x0A"
  "char_of (13 :: nat) = CHR 0x0D" "char_of (9 :: nat) = CHR 0x09" "char_of (11 :: nat) = CHR 0x0B"
  by code_simp+

lemma unquote_escape:
  assumes "r < 2097152"
  shows "unquote_body (escape_rune isPrint r (encode_rune r) @ t) = prepend (encode_rune r) (unquote_body t)"
proof -
  have copy: "unquote_body (encode_rune r @ t) = prepend (encode_rune r) (unquote_body t)"
    if "r \<noteq> 34" "r \<noteq> 92" "r \<noteq> 10"
    using copy_chars [OF assms that] by (rule unquote_copy)
  have simple: "unquote_body (CHR 0x5C # e # t) = prepend [v] (unquote_body t)"
    if "simple_escape e = Some v" for e v
    using unquote_simple [OF that, of t] by simp
  have hex: "unquote_body (CHR 0x5C # e # hex_digits n r @ t) =
      prepend (if n = 2 then [char_of r] else encode_rune r) (unquote_body t)"
    if "hex_width e = Some n" "simple_escape e = None" "r < 16 ^ n" for e n
    using unquote_hex [OF that, of t] by simp
  consider "r = 34" | "r = 92" | "r = 7" | "r = 8" | "r = 12" | "r = 10" | "r = 13" | "r = 9" | "r = 11"
    | "r \<notin> {34, 92, 7, 8, 12, 10, 13, 9, 11}" by blast
  then show ?thesis
  proof cases
    case 10
    then show ?thesis using assms copy hex [of "CHR ''x''" 2] hex [of "CHR ''u''" 4] hex [of "CHR ''U''" 8]
      by (simp add: escape_rune_def hex_width_def simple_escape_def encode_rune_low)
  qed (simp_all add: escape_rune_def encode_rune_low simple simple_escape_def char_of_escaped)
qed

lemma unquote_quote_body: "unquote_body (quote_body isPrint s @ CHR 0x22 # rest) = Some (s, rest)"
proof (induction isPrint s rule: quote_body.induct)
  case (1 isPrint)
  then show ?case by (simp add: unquote_closed)
next
  case (2 isPrint c cs)
  show ?case
  proof (cases "decode_rune (c # cs)")
    case None
    have "(of_char c :: nat) < 16 ^ 2" by simp
    then have "unquote_body ([CHR 0x5C, CHR ''x''] @ hex_digits 2 (of_char c) @ t) =
        prepend [c] (unquote_body t)" for t
      by (subst unquote_hex) (simp_all add: hex_width_def simple_escape_def)
    with 2(1) [OF None] None show ?thesis by (simp add: quote_body.simps(2))
  next
    case (Some p)
    obtain r w where p: "p = (r, w)" by (cases p)
    have e: "encode_rune r = take w (c # cs)" using Some p by (simp add: encode_decode)
    have "r < 2097152" using decode_bytes_bound Some p unfolding decode_rune_def by blast
    from unquote_escape [OF this, unfolded e] 2(2) [OF Some p [symmetric]] Some p show ?thesis
      by (simp add: quote_body.simps(2))
  qed
qed

lemma unquote_Quote: "unquote (Quote isPrint s @ rest) = Some (s, rest)"
  by (simp add: unquote_def Quote_def unquote_quote_body)

text \<open>Printable ASCII without quotes and backslashes is quoted as it is.\<close>

definition verbatim_char :: "char \<Rightarrow> bool" where
  "verbatim_char c =
     (let n = of_char c :: nat in 32 \<le> n \<and> n \<le> 126 \<and> n \<noteq> 34 \<and> n \<noteq> 92)"

lemma quote_body_verbatim: "list_all verbatim_char s \<Longrightarrow> quote_body isPrint s = s"
proof (induction s)
  case Nil
  then show ?case by simp
next
  case (Cons c s)
  let ?n = "of_char c :: nat"
  have n: "32 \<le> ?n" "?n \<le> 126" "?n \<noteq> 34" "?n \<noteq> 92"
    using Cons.prems by (auto simp: verbatim_char_def Let_def)
  then have "decode_rune (c # s) = Some (?n, 1)"
    by (simp add: decode_rune_def decode_bytes_def take_Cons')
  with n Cons show ?case by (simp add: quote_body.simps(2) escape_rune_def)
qed

lemma Quote_verbatim: "list_all verbatim_char s \<Longrightarrow> Quote isPrint s = [CHR 0x22] @ s @ [CHR 0x22]"
  by (simp add: Quote_def quote_body_verbatim)

end
