(* ===== verification/SpiffeHelper.thy ===== *)
theory SpiffeHelper
  imports GoQuote "HOL-Library.Monad_Syntax"
begin

text \<open>
  Package \<open>internal/spiffehelper\<close> (\<open>render.go\<close>): the JWT-only spiffe-helper configuration. The template
  of the source is a constant, so \<open>config_text\<close> is its expansion, with the white space its trim
  markers remove; \<open>isPrint\<close> is the printable-rune table of \<open>strconv.Quote\<close>. \<open>read_config\<close> reads such a
  file back; the properties say that a rendered file always reads back to the values it was
  rendered from, whatever bytes these hold.
\<close>

section \<open>Rendering\<close>

record HelperConfig =
  hc_AgentAddress :: string
  hc_CertDir :: string
  hc_JWTAudience :: string
  hc_JWTExtraAudiences :: "string list"
  hc_JWTSVIDFileName :: string
  hc_JWTSVIDFileMode :: string

datatype helper_error =
    AgentAddressEmpty
  | CertDirEmpty
  | JWTAudienceEmpty
  | JWTSVIDFileNameEmpty
  | InvalidFileMode string

text \<open>\<open>ModePattern\<close>: the regular expression \<open>^0?[0-7]{3}$\<close>.\<close>

definition ModePattern :: "string \<Rightarrow> bool" where
  "ModePattern s =
     (list_all is_octal s \<and> (length s = 3 \<or> length s = 4 \<and> HasPrefix s ''0''))"

definition normalise_mode :: "string \<Rightarrow> string" where
  "normalise_mode m = (if m \<noteq> [] \<and> \<not> HasPrefix m ''0'' then ''0'' @ m else m)"

definition newline :: string where "newline = [CHR 0x0A]"

definition config_text :: "(nat \<Rightarrow> bool) \<Rightarrow> HelperConfig \<Rightarrow> string \<Rightarrow> string" where
  "config_text isPrint c extraAudiences =
     ''agent_address = '' @ Quote isPrint (hc_AgentAddress c) @ newline @
     ''cert_dir = '' @ Quote isPrint (hc_CertDir c) @ newline @
     ''jwt_svids = [{jwt_audience = '' @ Quote isPrint (hc_JWTAudience c) @
     '', jwt_extra_audiences = ['' @ extraAudiences @
     ''], jwt_svid_file_name = '' @ Quote isPrint (hc_JWTSVIDFileName c) @ ''}]'' @
     (if hc_JWTSVIDFileMode c \<noteq> []
      then newline @ ''jwt_svid_file_mode = '' @ hc_JWTSVIDFileMode c else []) @
     newline"

definition Render_helper :: "(nat \<Rightarrow> bool) \<Rightarrow> HelperConfig \<Rightarrow> helper_error + string" where
  "Render_helper isPrint c =
     (if hc_AgentAddress c = [] then Inl AgentAddressEmpty
      else if hc_CertDir c = [] then Inl CertDirEmpty
      else if hc_JWTAudience c = [] then Inl JWTAudienceEmpty
      else if hc_JWTSVIDFileName c = [] then Inl JWTSVIDFileNameEmpty
      else if hc_JWTSVIDFileMode c \<noteq> [] \<and> \<not> ModePattern (hc_JWTSVIDFileMode c)
      then Inl (InvalidFileMode (hc_JWTSVIDFileMode c))
      else
        (let quotedExtras = map (Quote isPrint) (hc_JWTExtraAudiences c);
             c' = c\<lparr>hc_JWTSVIDFileMode := normalise_mode (hc_JWTSVIDFileMode c)\<rparr> in
         Inr (config_text isPrint c' (join '', '' quotedExtras))))"

section \<open>Reading a configuration\<close>

definition expect :: "string \<Rightarrow> string \<Rightarrow> string option" where
  "expect p s = (if HasPrefix s p then Some (drop (length p) s) else None)"

lemma expect_append [simp]: "expect p (p @ s) = Some s"
  by (simp add: expect_def HasPrefix_def)

lemma expect_shorter: "expect p s = Some r \<Longrightarrow> length r \<le> length s"
  by (auto simp: expect_def split: if_splits)

lemma unquote_body_shorter: "unquote_body s = Some (v, r) \<Longrightarrow> length r < length s"
proof (induction s arbitrary: v rule: unquote_body.induct)
  case (1 s)
  show ?case
  proof (cases "literal_step s")
    case (Piece b q)
    with "1.prems" obtain v' where "unquote_body q = Some (v', r)"
      by (subst (asm) unquote_body.simps) (auto simp: prepend_def)
    with "1.IH" [OF Piece] literal_step_shorter [OF Piece] show ?thesis by fastforce
  qed (use "1.prems" in \<open>subst (asm) unquote_body.simps,
      auto simp: literal_step_def split: list.splits if_splits option.splits\<close>)+
qed

lemma unquote_shorter: "unquote s = Some (v, r) \<Longrightarrow> length r < length s"
  by (auto simp: unquote_def dest: unquote_body_shorter split: list.splits if_splits)

text \<open>The elements of a non-empty list of literals, up to and including the closing bracket.\<close>

function read_literals :: "string \<Rightarrow> (string list \<times> string) option" where
  "read_literals s =
     (case unquote s of
        None \<Rightarrow> None
      | Some (v, r) \<Rightarrow>
          (case expect '']'' r of
             Some r' \<Rightarrow> Some ([v], r')
           | None \<Rightarrow>
               (case expect '', '' r of
                  None \<Rightarrow> None
                | Some r' \<Rightarrow> map_option (\<lambda>(vs, q). (v # vs, q)) (read_literals r'))))"
  by pat_completeness auto
termination
  by (relation "measure length") (auto dest!: unquote_shorter expect_shorter)

declare read_literals.simps [simp del]

definition read_list :: "string \<Rightarrow> (string list \<times> string) option" where
  "read_list s = (case expect '']'' s of Some r \<Rightarrow> Some ([], r) | None \<Rightarrow> read_literals s)"

definition read_mode :: "string \<Rightarrow> string option" where
  "read_mode s =
     (case expect (newline @ ''jwt_svid_file_mode = '') s of
        None \<Rightarrow> if s = newline then Some [] else None
      | Some r \<Rightarrow>
          if dropWhile is_octal r = newline \<and> takeWhile is_octal r \<noteq> [] then Some (takeWhile is_octal r)
          else None)"

definition read_config :: "string \<Rightarrow> HelperConfig option" where
  "read_config s0 = do {
     s1 \<leftarrow> expect ''agent_address = '' s0;
     (agent, s2) \<leftarrow> unquote s1;
     s3 \<leftarrow> expect (newline @ ''cert_dir = '') s2;
     (dir, s4) \<leftarrow> unquote s3;
     s5 \<leftarrow> expect (newline @ ''jwt_svids = [{jwt_audience = '') s4;
     (aud, s6) \<leftarrow> unquote s5;
     s7 \<leftarrow> expect '', jwt_extra_audiences = ['' s6;
     (extras, s8) \<leftarrow> read_list s7;
     s9 \<leftarrow> expect '', jwt_svid_file_name = '' s8;
     (file, s10) \<leftarrow> unquote s9;
     s11 \<leftarrow> expect ''}]'' s10;
     mode \<leftarrow> read_mode s11;
     Some \<lparr>hc_AgentAddress = agent, hc_CertDir = dir, hc_JWTAudience = aud,
           hc_JWTExtraAudiences = extras, hc_JWTSVIDFileName = file, hc_JWTSVIDFileMode = mode\<rparr>
   }"

lemma expect_no: "s \<noteq> [] \<Longrightarrow> p \<noteq> [] \<Longrightarrow> hd s \<noteq> hd p \<Longrightarrow> expect p s = None"
  by (cases s; cases p) (auto simp: expect_def HasPrefix_def)

lemma read_literals_join:
  "vs \<noteq> [] \<Longrightarrow> read_literals (join '', '' (map (Quote isPrint) vs) @ '']'' @ rest) = Some (vs, rest)"
proof (induction vs rule: induct_list012)
  case 1
  then show ?case by simp
next
  case (2 v)
  have "expect '']'' (CHR '']'' # rest) = Some rest" using expect_append [of "'']''" rest] by simp
  then show ?case
    using unquote_Quote [of isPrint v "CHR '']'' # rest"] by (simp add: read_literals.simps)
next
  case (3 v w vs)
  let ?more = "join '', '' (map (Quote isPrint) (w # vs)) @ '']'' @ rest"
  have "unquote (Quote isPrint v @ '', '' @ ?more) = Some (v, '', '' @ ?more)" by (rule unquote_Quote)
  moreover have "expect '']'' ('', '' @ ?more) = None" by (rule expect_no) simp_all
  moreover have "expect '', '' ('', '' @ ?more) = Some ?more" by (rule expect_append)
  moreover have "join '', '' (map (Quote isPrint) (v # w # vs)) @ '']'' @ rest =
      Quote isPrint v @ '', '' @ ?more" by simp
  ultimately show ?case using 3 by (simp add: read_literals.simps [of "_ @ _"])
qed

lemma join_Quote_hd: "vs \<noteq> [] \<Longrightarrow> hd (join '', '' (map (Quote isPrint) vs) @ r) = CHR 0x22"
  by (cases vs rule: remdups_adj.cases) (simp_all add: Quote_def)

lemma read_list_join: "read_list (join '', '' (map (Quote isPrint) vs) @ '']'' @ rest) = Some (vs, rest)"
proof (cases "vs = []")
  case True
  then show ?thesis using expect_append [of "'']''" rest] by (simp add: read_list_def)
next
  case False
  let ?s = "join '', '' (map (Quote isPrint) vs) @ '']'' @ rest"
  have "expect '']'' ?s = None"
    using join_Quote_hd [OF False, of isPrint "'']'' @ rest"] by (intro expect_no) simp_all
  with False show ?thesis by (simp add: read_list_def read_literals_join del: append.simps append_assoc)
qed

lemma read_mode_none: "read_mode newline = Some []"
  by (simp add: read_mode_def newline_def expect_def HasPrefix_def)

lemma newline_not_octal: "\<not> is_octal (CHR 0x0A)"
  by (simp add: is_octal_def)

lemma read_mode_some:
  assumes "list_all is_octal m" and "m \<noteq> []"
  shows "read_mode (newline @ ''jwt_svid_file_mode = '' @ m @ newline) = Some m"
proof -
  have "takeWhile is_octal (m @ newline) = m" "dropWhile is_octal (m @ newline) = newline"
    using assms(1) newline_not_octal
    by (auto simp: newline_def takeWhile_append dropWhile_append list_all_iff)
  with assms(2) expect_append [of "newline @ ''jwt_svid_file_mode = ''" "m @ newline"] show ?thesis
    by (simp add: read_mode_def)
qed

lemma ModePattern_normalise:
  assumes "ModePattern m"
  shows "list_all is_octal (normalise_mode m)" "normalise_mode m \<noteq> []"
  using assms by (auto simp: ModePattern_def normalise_mode_def is_octal_def)

lemma normalise_mode_Nil [simp]: "normalise_mode [] = []"
  by (simp add: normalise_mode_def)

lemma read_config_text:
  assumes "hc_JWTSVIDFileMode c = [] \<or> list_all is_octal (hc_JWTSVIDFileMode c)"
  shows "read_config (config_text isPrint c (join '', '' (map (Quote isPrint) (hc_JWTExtraAudiences c)))) =
    Some c"
proof -
  define tail where "tail = (if hc_JWTSVIDFileMode c \<noteq> []
      then newline @ ''jwt_svid_file_mode = '' @ hc_JWTSVIDFileMode c else []) @ newline"
  have tail: "read_mode tail = Some (hc_JWTSVIDFileMode c)"
    using assms read_mode_some [of "hc_JWTSVIDFileMode c"]
    by (auto simp: tail_def read_mode_none)
  define extras where "extras = join '', '' (map (Quote isPrint) (hc_JWTExtraAudiences c))"
  have list: "read_list (extras @ '']'' @ r) = Some (hc_JWTExtraAudiences c, r)" for r
    unfolding extras_def by (rule read_list_join)
  have shape: "config_text isPrint c extras =
      ''agent_address = '' @ Quote isPrint (hc_AgentAddress c) @
      (newline @ ''cert_dir = '') @ Quote isPrint (hc_CertDir c) @
      (newline @ ''jwt_svids = [{jwt_audience = '') @ Quote isPrint (hc_JWTAudience c) @
      '', jwt_extra_audiences = ['' @ extras @ '']'' @
      '', jwt_svid_file_name = '' @ Quote isPrint (hc_JWTSVIDFileName c) @ ''}]'' @ tail"
    by (simp add: config_text_def tail_def)
  show ?thesis
    unfolding extras_def [symmetric] shape read_config_def
    by (simp only: expect_append unquote_Quote list tail Option.bind.bind_lunit prod.case) simp
qed

lemma config_readback:
  "Render_helper isPrint c = Inr out \<Longrightarrow>
     read_config out = Some (c\<lparr>hc_JWTSVIDFileMode := normalise_mode (hc_JWTSVIDFileMode c)\<rparr>)"
proof -
  assume r: "Render_helper isPrint c = Inr out"
  let ?c = "c\<lparr>hc_JWTSVIDFileMode := normalise_mode (hc_JWTSVIDFileMode c)\<rparr>"
  from r have "out = config_text isPrint ?c (join '', '' (map (Quote isPrint) (hc_JWTExtraAudiences ?c)))"
    by (auto simp: Render_helper_def Let_def split: if_splits)
  moreover from r have "hc_JWTSVIDFileMode c = [] \<or> ModePattern (hc_JWTSVIDFileMode c)"
    by (auto simp: Render_helper_def split: if_splits)
  then have "hc_JWTSVIDFileMode ?c = [] \<or> list_all is_octal (hc_JWTSVIDFileMode ?c)"
    using ModePattern_normalise(1) normalise_mode_Nil by auto
  ultimately show ?thesis using read_config_text [of ?c] by simp
qed

section \<open>Properties\<close>

text \<open>
  (C15) A rendered configuration reads back to exactly the values it was rendered from, with the mode
  normalised: no byte of an audience, a path or a file name can end its literal, add a key or
  change another value.
\<close>

theorem Render_helper_readback:
  "Render_helper isPrint c = Inr out \<Longrightarrow>
     read_config out = Some (c\<lparr>hc_JWTSVIDFileMode := normalise_mode (hc_JWTSVIDFileMode c)\<rparr>)"
  by (rule config_readback)

definition sample_config :: HelperConfig where
  "sample_config =
     \<lparr>hc_AgentAddress = ''/spiffe-workload-api/spire-agent.sock'', hc_CertDir = ''/t'',
      hc_JWTAudience = [CHR 0x22, CHR 0x0A, CHR ''x''], hc_JWTExtraAudiences = [''a'', ''b''],
      hc_JWTSVIDFileName = ''token'', hc_JWTSVIDFileMode = ''644''\<rparr>"

lemma sample_config_renders: "\<exists>out. Render_helper isPrint sample_config = Inr out"
  by (simp add: Render_helper_def sample_config_def ModePattern_def is_octal_def Let_def)

theorem Render_helper_readback_witness:
  "map_option hc_JWTAudience (read_config (projr (Render_helper (\<lambda>_. True) sample_config))) =
     Some [CHR 0x22, CHR 0x0A, CHR ''x'']"
proof -
  obtain out where out: "Render_helper (\<lambda>_. True) sample_config = Inr out"
    using sample_config_renders by blast
  have "read_config (projr (Render_helper (\<lambda>_. True) sample_config)) =
      Some (sample_config\<lparr>hc_JWTSVIDFileMode := normalise_mode (hc_JWTSVIDFileMode sample_config)\<rparr>)"
    using Render_helper_readback [OF out] by (simp add: out)
  then show ?thesis by (simp add: sample_config_def)
qed

text \<open>
  Rendering fails exactly when one of the four mandatory values is empty or a mode is set that is
  not an octal mode, and the error names the first such value in the order of the checks.
\<close>

lemma Render_helper_errors:
  "((\<exists>out. Render_helper isPrint c = Inr out) \<longleftrightarrow>
      hc_AgentAddress c \<noteq> [] \<and> hc_CertDir c \<noteq> [] \<and> hc_JWTAudience c \<noteq> [] \<and>
      hc_JWTSVIDFileName c \<noteq> [] \<and> (hc_JWTSVIDFileMode c = [] \<or> ModePattern (hc_JWTSVIDFileMode c))) \<and>
   (Render_helper isPrint c = Inl (InvalidFileMode m) \<longleftrightarrow>
      hc_AgentAddress c \<noteq> [] \<and> hc_CertDir c \<noteq> [] \<and> hc_JWTAudience c \<noteq> [] \<and>
      hc_JWTSVIDFileName c \<noteq> [] \<and> m = hc_JWTSVIDFileMode c \<and> m \<noteq> [] \<and> \<not> ModePattern m)"
  by (auto simp: Render_helper_def Let_def)

text \<open>
  Normalising a valid mode keeps its octal value, makes it start with a zero, so that the
  configuration language reads it as octal, keeps it valid, and the value fits nine permission bits.
\<close>

lemma normalise_mode_octal:
  "ModePattern m \<Longrightarrow>
     HasPrefix (normalise_mode m) ''0'' \<and> ModePattern (normalise_mode m) \<and>
     octal_val (normalise_mode m) = octal_val m \<and> octal_val m < 8 ^ 3"
proof -
  assume m: "ModePattern m"
  then have o: "list_all is_octal m" by (simp add: ModePattern_def)
  have z: "is_octal (CHR ''0'')" by (simp add: is_octal_def)
  have "octal_val m < 8 ^ 3"
  proof (cases "length m = 3")
    case True
    with octal_val_less [OF o] show ?thesis by simp
  next
    case False
    with m obtain t where t: "m = CHR ''0'' # t" "length t = 3"
      by (auto simp: ModePattern_def HasPrefix_iff)
    with o octal_val_less [of t] show ?thesis by (simp add: octal_val_leading_zero)
  qed
  with m z show ?thesis
    by (auto simp: normalise_mode_def ModePattern_def HasPrefix_iff octal_val_leading_zero)
qed

end
