(* ===== verification/InjectionPlan.thy ===== *)
theory InjectionPlan
  imports Params SpiffeHelper
begin

text \<open>
  The first half of package \<open>internal/injection\<close> (\<open>plan.go\<close>): the token location, the template builtins
  and \<open>BuildPlan\<close>, which renders everything a shim injects into one pod and refuses a shim that would
  produce an invalid container. \<open>E\<close> is the template engine and \<open>isPrint\<close> the table of \<open>strconv.Quote\<close>.
  Every error carries the index, path or mode its message prints; the shim name all messages start
  with is the name of the shim at hand. Deep copies are the identity on values.
\<close>

section \<open>Tokens and builtins\<close>

record Defaults =
  d_HelperImage :: string
  d_HelperImagePullPolicy :: string
  d_CSIDriver :: string
  d_SocketMountPath :: string
  d_SocketFile :: string
  d_MaxRenderedBytes :: int

record Token =
  tok_VolumeName :: string
  tok_MountPath :: string
  tok_FileName :: string
  tok_FileMode :: string

definition defaultTokenVolumePrefix :: string where [simp]: "defaultTokenVolumePrefix = ''oidcshim-token-''"
definition defaultTokenMountRoot :: string where [simp]: "defaultTokenMountRoot = ''/var/run/secrets/oidcshim''"
definition defaultTokenFileName :: string where [simp]: "defaultTokenFileName = ''token''"
definition defaultTokenFileMode :: string where [simp]: "defaultTokenFileMode = ''0644''"
definition defaultServiceAccount :: string where [simp]: "defaultServiceAccount = ''default''"

definition ResolveToken :: "string \<Rightarrow> TokenSpec \<Rightarrow> Token" where
  "ResolveToken shimName spec =
     \<lparr>tok_VolumeName =
        (if tk_VolumeName spec = [] then defaultTokenVolumePrefix @ shimName else tk_VolumeName spec),
      tok_MountPath =
        (if tk_MountPath spec = [] then path_Join [defaultTokenMountRoot, shimName]
         else tk_MountPath spec),
      tok_FileName = (if tk_FileName spec = [] then defaultTokenFileName else tk_FileName spec),
      tok_FileMode = (if tk_FileMode spec = [] then defaultTokenFileMode else tk_FileMode spec)\<rparr>"

definition Token_Path :: "Token \<Rightarrow> string" where
  "Token_Path t = path_Join [tok_MountPath t, tok_FileName t]"

definition Builtins_for :: "Shim \<Rightarrow> Pod option \<Rightarrow> string \<Rightarrow> Token \<Rightarrow> Builtins" where
  "Builtins_for shim pod podNamespace tok =
     \<lparr>bi_PodNamespace = podNamespace,
      bi_ServiceAccountName =
        (case pod of
           Some p \<Rightarrow> if pod_ServiceAccountName p \<noteq> [] then pod_ServiceAccountName p else defaultServiceAccount
         | None \<Rightarrow> defaultServiceAccount),
      bi_ShimName = GetName shim,
      bi_TokenDir = tok_MountPath tok,
      bi_TokenPath = Token_Path tok\<rparr>"

section \<open>Plans\<close>

record RenderedFile =
  rf_Path :: string
  rf_Content :: string
  rf_Mode :: string

definition MaxPodAnnotationBytes :: nat where
  "MaxPodAnnotationBytes = 192 * 1024"

record Plan =
  p_ShimName :: string
  p_ShimKey :: string
  p_ClusterScoped :: bool
  p_Token :: Token
  p_HelperConf :: string
  p_Files :: "RenderedFile list"
  p_Env :: "EnvVar list"
  p_Containers :: "string list"
  p_CSIDriver :: string
  p_SocketMountPath :: string
  p_SocketFile :: string
  p_HelperImage :: string
  p_HelperImagePullPolicy :: string
  p_HelperResources :: "ResourceRequirements option"
  p_HelperSecurityContext :: "SecurityContext option"

fun sum_contents :: "RenderedFile list \<Rightarrow> nat \<Rightarrow> nat" where
  "sum_contents [] n = n"
| "sum_contents (f # fs) n = sum_contents fs (n + length (rf_Content f))"

definition renderedBytes :: "Plan \<Rightarrow> nat" where
  "renderedBytes p = sum_contents (p_Files p) (length (p_HelperConf p))"

definition parseFileMode :: "string \<Rightarrow> 32 word option" where
  "parseFileMode mode = map_option word_of_nat (ParseUint8_32 mode)"

datatype plan_error =
    RenderAudience go_error
  | RenderExtraAudience nat go_error
  | RenderEnv nat string go_error
  | RenderFile nat string go_error
  | PathIsTokenMount nat string
  | PathAlreadyUsed nat string
  | PathUnderTokenMount nat string string
  | BadFileMode nat string string
  | RenderHelperConf helper_error
  | TooManyRenderedBytes nat int

definition override :: "string \<Rightarrow> string \<Rightarrow> string" where
  "override v w = (if v \<noteq> [] then v else w)"

definition base_plan :: "Shim \<Rightarrow> Token \<Rightarrow> Defaults \<Rightarrow> Plan" where
  "base_plan shim tok d =
     (let spec = ShimSpec shim; s = spec_SPIFFE spec; h = spec_Helper spec in
      \<lparr>p_ShimName = GetName shim,
       p_ShimKey = ShimKey shim,
       p_ClusterScoped = IsClusterScoped shim,
       p_Token = tok,
       p_HelperConf = [],
       p_Files = [],
       p_Env = [],
       p_Containers = inj_Containers (spec_Inject spec),
       p_CSIDriver = (case s of None \<Rightarrow> d_CSIDriver d | Some s \<Rightarrow> override (sp_CSIDriver s) (d_CSIDriver d)),
       p_SocketMountPath =
         (case s of None \<Rightarrow> d_SocketMountPath d
          | Some s \<Rightarrow> override (sp_SocketMountPath s) (d_SocketMountPath d)),
       p_SocketFile =
         (case s of None \<Rightarrow> d_SocketFile d | Some s \<Rightarrow> override (sp_SocketFile s) (d_SocketFile d)),
       p_HelperImage =
         (case h of None \<Rightarrow> d_HelperImage d | Some h \<Rightarrow> override (h_Image h) (d_HelperImage d)),
       p_HelperImagePullPolicy =
         (case h of None \<Rightarrow> d_HelperImagePullPolicy d
          | Some h \<Rightarrow> override (h_ImagePullPolicy h) (d_HelperImagePullPolicy d)),
       p_HelperResources = Option.bind h h_Resources,
       p_HelperSecurityContext = Option.bind h h_SecurityContext\<rparr>)"

fun render_extras :: "engine \<Rightarrow> Values \<Rightarrow> nat \<Rightarrow> string list \<Rightarrow> plan_error + string list" where
  "render_extras E values i [] = Inr []"
| "render_extras E values i (a # as) =
     (case Render_template E ''extraAudience'' a values of
        Inl err \<Rightarrow> Inl (RenderExtraAudience i err)
      | Inr r \<Rightarrow>
          (case render_extras E values (Suc i) as of Inl e \<Rightarrow> Inl e | Inr rs \<Rightarrow> Inr (r # rs)))"

fun render_env :: "engine \<Rightarrow> Values \<Rightarrow> nat \<Rightarrow> EnvVarSpec list \<Rightarrow> plan_error + EnvVar list" where
  "render_env E values i [] = Inr []"
| "render_env E values i (e # es) =
     (case Render_template E ''env'' (es_Value e) values of
        Inl err \<Rightarrow> Inl (RenderEnv i (es_Name e) err)
      | Inr v \<Rightarrow>
          (case render_env E values (Suc i) es of
             Inl err \<Rightarrow> Inl err
           | Inr rs \<Rightarrow> Inr (\<lparr>ev_Name = es_Name e, ev_Value = v, ev_Rest = []\<rparr> # rs)))"

definition file_mode :: "FileSpec \<Rightarrow> string" where
  "file_mode f = (if fs_Mode f = [] then ''0644'' else fs_Mode f)"

fun render_files ::
  "engine \<Rightarrow> Values \<Rightarrow> string \<Rightarrow> nat \<Rightarrow> string list \<Rightarrow> FileSpec list \<Rightarrow> plan_error + RenderedFile list" where
  "render_files E values mount i seenPaths [] = Inr []"
| "render_files E values mount i seenPaths (f # fs) =
     (case Render_template E ''file'' (fs_Content f) values of
        Inl err \<Rightarrow> Inl (RenderFile i (fs_Path f) err)
      | Inr content \<Rightarrow>
          if fs_Path f \<in> set seenPaths then
            (if fs_Path f = mount then Inl (PathIsTokenMount i (fs_Path f))
             else Inl (PathAlreadyUsed i (fs_Path f)))
          else if HasPrefix (fs_Path f) (mount @ ''/'') then
            Inl (PathUnderTokenMount i (fs_Path f) mount)
          else if parseFileMode (file_mode f) = None then
            Inl (BadFileMode i (fs_Path f) (file_mode f))
          else
            (case render_files E values mount (Suc i) (fs_Path f # seenPaths) fs of
               Inl e \<Rightarrow> Inl e
             | Inr rs \<Rightarrow>
                 Inr (\<lparr>rf_Path = fs_Path f, rf_Content = content, rf_Mode = file_mode f\<rparr> # rs)))"

definition helper_config :: "Plan \<Rightarrow> string \<Rightarrow> string list \<Rightarrow> HelperConfig" where
  "helper_config plan audience extraAudiences =
     \<lparr>hc_AgentAddress = path_Join [p_SocketMountPath plan, p_SocketFile plan],
      hc_CertDir = tok_MountPath (p_Token plan),
      hc_JWTAudience = audience,
      hc_JWTExtraAudiences = extraAudiences,
      hc_JWTSVIDFileName = tok_FileName (p_Token plan),
      hc_JWTSVIDFileMode = tok_FileMode (p_Token plan)\<rparr>"

definition spiffeHelperConf ::
  "(nat \<Rightarrow> bool) \<Rightarrow> Plan \<Rightarrow> string \<Rightarrow> string list \<Rightarrow> helper_error + string" where
  "spiffeHelperConf isPrint plan audience extraAudiences =
     Render_helper isPrint (helper_config plan audience extraAudiences)"

definition BuildPlan ::
  "engine \<Rightarrow> (nat \<Rightarrow> bool) \<Rightarrow> Shim \<Rightarrow> Values \<Rightarrow> Token \<Rightarrow> Defaults \<Rightarrow> plan_error + Plan" where
  "BuildPlan E isPrint shim values tok d =
     (let spec = ShimSpec shim; plan = base_plan shim tok d in
      case Render_template E ''audience'' (spec_Audience spec) values of
        Inl err \<Rightarrow> Inl (RenderAudience err)
      | Inr audience \<Rightarrow>
      (case render_extras E values 0 (spec_ExtraAudiences spec) of
        Inl err \<Rightarrow> Inl err
      | Inr extras \<Rightarrow>
      (case render_env E values 0 (inj_Env (spec_Inject spec)) of
        Inl err \<Rightarrow> Inl err
      | Inr env \<Rightarrow>
      (case render_files E values (tok_MountPath tok) 0 [tok_MountPath tok]
              (inj_Files (spec_Inject spec)) of
        Inl err \<Rightarrow> Inl err
      | Inr files \<Rightarrow>
      (case spiffeHelperConf isPrint plan audience extras of
        Inl err \<Rightarrow> Inl (RenderHelperConf err)
      | Inr helperConf \<Rightarrow>
          (let bytes = sum_list (map (length \<circ> rf_Content) files) + length helperConf in
           if d_MaxRenderedBytes d > 0 \<and> int bytes > d_MaxRenderedBytes d
           then Inl (TooManyRenderedBytes bytes (d_MaxRenderedBytes d))
           else Inr (plan\<lparr>p_Env := env, p_Files := files, p_HelperConf := helperConf\<rparr>)))))))"

section \<open>What a plan guarantees\<close>

definition paths_ok :: "string \<Rightarrow> string list \<Rightarrow> bool" where
  "paths_ok mount paths =
     (distinct (mount # paths) \<and> list_all (\<lambda>p. \<not> HasPrefix p (mount @ ''/'')) paths)"

definition plan_wf :: "Plan \<Rightarrow> bool" where
  "plan_wf p =
     (paths_ok (tok_MountPath (p_Token p)) (map rf_Path (p_Files p)) \<and>
      list_all (\<lambda>f. parseFileMode (rf_Mode f) \<noteq> None) (p_Files p))"

lemma sum_contents_eq: "sum_contents fs t = t + sum_list (map (length \<circ> rf_Content) fs)"
  by (induction fs arbitrary: t) auto

lemma renderedBytes_eq:
  "renderedBytes p = length (p_HelperConf p) + sum_list (map (length \<circ> rf_Content) (p_Files p))"
  by (simp add: renderedBytes_def sum_contents_eq)

lemma render_files_ok:
  assumes "render_files E values mount i seen fs = Inr rs"
  shows "map rf_Path rs = map fs_Path fs \<and> map rf_Mode rs = map file_mode fs \<and>
    distinct (map fs_Path fs) \<and> fs_Path ` set fs \<inter> set seen = {} \<and>
    (\<forall>f\<in>set fs. \<not> HasPrefix (fs_Path f) (mount @ ''/'') \<and> parseFileMode (file_mode f) \<noteq> None)"
  using assms
proof (induction fs arbitrary: i seen rs)
  case Nil
  then show ?case by simp
next
  case (Cons f fs)
  from Cons.prems obtain c rs' where
    rec: "render_files E values mount (Suc i) (fs_Path f # seen) fs = Inr rs'"
    and rs: "rs = \<lparr>rf_Path = fs_Path f, rf_Content = c, rf_Mode = file_mode f\<rparr> # rs'"
    and f: "fs_Path f \<notin> set seen" "\<not> HasPrefix (fs_Path f) (mount @ ''/'')"
      "parseFileMode (file_mode f) \<noteq> None"
    by (auto split: sum.splits if_splits)
  from Cons.IH [OF rec] f show ?case by (auto simp: rs)
qed

lemma BuildPlan_cases:
  assumes "BuildPlan E isPrint shim values tok d = Inr plan"
  obtains audience extras env files conf where
    "Render_template E ''audience'' (spec_Audience (ShimSpec shim)) values = Inr audience"
    "render_extras E values 0 (spec_ExtraAudiences (ShimSpec shim)) = Inr extras"
    "render_env E values 0 (inj_Env (spec_Inject (ShimSpec shim))) = Inr env"
    "render_files E values (tok_MountPath tok) 0 [tok_MountPath tok]
       (inj_Files (spec_Inject (ShimSpec shim))) = Inr files"
    "spiffeHelperConf isPrint (base_plan shim tok d) audience extras = Inr conf"
    "plan = (base_plan shim tok d)\<lparr>p_Env := env, p_Files := files, p_HelperConf := conf\<rparr>"
    "d_MaxRenderedBytes d > 0 \<Longrightarrow> int (renderedBytes plan) \<le> d_MaxRenderedBytes d"
  using assms
  by (simp add: BuildPlan_def Let_def renderedBytes_eq add.commute split: sum.split_asm if_split_asm)
    fastforce+

lemma base_plan_simps [simp]:
  "p_ShimName (base_plan shim tok d) = GetName shim"
  "p_ShimKey (base_plan shim tok d) = ShimKey shim"
  "p_ClusterScoped (base_plan shim tok d) = IsClusterScoped shim"
  "p_Token (base_plan shim tok d) = tok"
  "p_Containers (base_plan shim tok d) = inj_Containers (spec_Inject (ShimSpec shim))"
  by (simp_all add: base_plan_def Let_def)

lemma BuildPlan_wf:
  assumes "BuildPlan E isPrint shim values tok d = Inr plan"
  shows "plan_wf plan" "p_ShimName plan = GetName shim" "p_ShimKey plan = ShimKey shim"
    "p_ClusterScoped plan = IsClusterScoped shim" "p_Token plan = tok"
proof -
  obtain audience extras env files conf where
    files: "render_files E values (tok_MountPath tok) 0 [tok_MountPath tok]
       (inj_Files (spec_Inject (ShimSpec shim))) = Inr files"
    and plan: "plan = (base_plan shim tok d)\<lparr>p_Env := env, p_Files := files, p_HelperConf := conf\<rparr>"
    using BuildPlan_cases [OF assms] by metis
  let ?fs = "inj_Files (spec_Inject (ShimSpec shim))"
  note f = render_files_ok [OF files]
  then have paths: "map rf_Path files = map fs_Path ?fs" and modes: "map rf_Mode files = map file_mode ?fs"
    by simp_all
  have "paths_ok (tok_MountPath tok) (map rf_Path files)"
    unfolding paths paths_ok_def using f by (auto simp: list_all_iff)
  moreover have "list_all (\<lambda>m. parseFileMode m \<noteq> None) (map rf_Mode files)"
    unfolding modes using f by (auto simp: list_all_iff)
  ultimately show "plan_wf plan" by (simp add: plan plan_wf_def list.pred_map comp_def)
qed (use BuildPlan_cases [OF assms] in fastforce)+

lemma helper_config_update [simp]:
  "helper_config (plan\<lparr>p_Env := env, p_Files := files, p_HelperConf := conf\<rparr>) a es = helper_config plan a es"
  by (simp add: helper_config_def)

lemma ModePattern_parse:
  assumes "ModePattern m"
  shows "parseFileMode m = Some (word_of_nat (octal_val m))" "octal_val m < 512"
proof -
  have o: "list_all is_octal m" "m \<noteq> []" "length m \<le> 4" using assms by (auto simp: ModePattern_def)
  show "octal_val m < 512"
  proof (cases "length m = 3")
    case True
    with octal_val_less [OF o(1)] show ?thesis by simp
  next
    case False
    with assms obtain t where "m = CHR ''0'' # t" "length t = 3"
      by (auto simp: ModePattern_def HasPrefix_iff)
    with o octal_val_less [of t] show ?thesis by (simp add: octal_val_leading_zero)
  qed
  with o show "parseFileMode m = Some (word_of_nat (octal_val m))"
    by (simp add: parseFileMode_def ParseUint8_32_def)
qed

section \<open>Properties\<close>

text \<open>A shim with a templated audience, one environment variable and one file, and its inputs.\<close>

definition sample_spec :: OIDCShimSpec where
  "sample_spec =
     \<lparr>spec_Provider = ''google'',
      spec_Selection =
        \<lparr>sel_Enrollment = None, sel_NamespaceSelector = None, sel_ServiceAccountSelector = None,
         sel_PodSelector = None\<rparr>,
      spec_Parameters = sample_parameters,
      spec_Audience = ''{{ .audience }}'',
      spec_ExtraAudiences = [''{{ .podNamespace }}''],
      spec_Token = \<lparr>tk_VolumeName = [], tk_MountPath = [], tk_FileName = [], tk_FileMode = []\<rparr>,
      spec_Inject =
        \<lparr>inj_Env = [\<lparr>es_Name = ''CRED'', es_Value = ''/etc/key''\<rparr>],
         inj_Files = [\<lparr>fs_Path = ''/etc/key'', fs_Content = ''{{ .tokenPath }}'', fs_Mode = ''0444''\<rparr>],
         inj_Containers = []\<rparr>,
      spec_SPIFFE = None,
      spec_Helper = None\<rparr>"

definition sample_shim :: Shim where
  "sample_shim =
     Namespaced
       \<lparr>os_Namespace = ''ns'', os_Name = ''gcp'', os_Generation = 1, os_Spec = sample_spec,
        os_Status = \<lparr>st_Conditions = [], st_ObservedGeneration = 0, st_MatchedPods = None\<rparr>\<rparr>"

definition sample_token :: Token where
  "sample_token = ResolveToken ''gcp'' (spec_Token sample_spec)"

definition sample_defaults :: Defaults where
  "sample_defaults =
     \<lparr>d_HelperImage = ''helper:1'', d_HelperImagePullPolicy = ''IfNotPresent'', d_CSIDriver = ''csi.spiffe.io'',
      d_SocketMountPath = ''/spiffe-workload-api'', d_SocketFile = ''spire-agent.sock'',
      d_MaxRenderedBytes = 65536\<rparr>"

definition sample_values :: Values where
  "sample_values =
     [(KeyPodNamespace, ''ns''), (KeyServiceAccountName, ''sa''), (KeyShimName, ''gcp''),
      (KeyTokenDir, ''/var/run/secrets/oidcshim/gcp''), (KeyTokenPath, ''/var/run/secrets/oidcshim/gcp/token''),
      (''pool'', ''p1''), (''location'', []), (''audience'', ''pools/p1/gcp'')]"

lemma sample_renders:
  "Render_template field_engine ''audience'' ''{{ .audience }}'' sample_values = Inr ''pools/p1/gcp''"
  "Render_template field_engine ''extraAudience'' ''{{ .podNamespace }}'' sample_values = Inr ''ns''"
  "Render_template field_engine ''env'' ''/etc/key'' sample_values = Inr ''/etc/key''"
  "Render_template field_engine ''file'' ''{{ .tokenPath }}'' sample_values = Inr ''/var/run/secrets/oidcshim/gcp/token''"
  by code_simp+

lemma sample_token_eq:
  "sample_token =
     \<lparr>tok_VolumeName = ''oidcshim-token-gcp'', tok_MountPath = ''/var/run/secrets/oidcshim/gcp'',
      tok_FileName = ''token'', tok_FileMode = ''0644''\<rparr>"
  by code_simp

lemma sample_socket: "path_Join [''/spiffe-workload-api'', ''spire-agent.sock''] = ''/spiffe-workload-api/spire-agent.sock''"
  by code_simp

definition sample_plan :: Plan where
  "sample_plan =
     (base_plan sample_shim sample_token sample_defaults)
       \<lparr>p_Env := [\<lparr>ev_Name = ''CRED'', ev_Value = ''/etc/key'', ev_Rest = []\<rparr>],
        p_Files := [\<lparr>rf_Path = ''/etc/key'', rf_Content = ''/var/run/secrets/oidcshim/gcp/token'', rf_Mode = ''0444''\<rparr>],
        p_HelperConf :=
          ''agent_address = '' @ [CHR 0x22] @ ''/spiffe-workload-api/spire-agent.sock'' @ [CHR 0x22, CHR 0x0A] @
          ''cert_dir = '' @ [CHR 0x22] @ ''/var/run/secrets/oidcshim/gcp'' @ [CHR 0x22, CHR 0x0A] @
          ''jwt_svids = [{jwt_audience = '' @ [CHR 0x22] @ ''pools/p1/gcp'' @ [CHR 0x22] @
          '', jwt_extra_audiences = ['' @ [CHR 0x22] @ ''ns'' @ [CHR 0x22] @
          ''], jwt_svid_file_name = '' @ [CHR 0x22] @ ''token'' @ [CHR 0x22] @ ''}]'' @ [CHR 0x0A] @
          ''jwt_svid_file_mode = 0644'' @ [CHR 0x0A]\<rparr>"

lemma sample_plan_built:
  "BuildPlan field_engine isPrint sample_shim sample_values sample_token sample_defaults = Inr sample_plan"
  by (simp add: BuildPlan_def sample_shim_def sample_spec_def sample_renders Let_def sample_token_eq
      sample_plan_def base_plan_def sample_defaults_def spiffeHelperConf_def helper_config_def
      sample_socket Render_helper_def config_text_def Quote_verbatim verbatim_char_def
      ModePattern_def is_octal_def HasPrefix_def normalise_mode_def file_mode_def parseFileMode_def
      ParseUint8_32_def octal_val_def digit_val_def newline_def)

text \<open>
  (C12) A plan that is built never gives a container two mounts at one path: its file paths are pairwise
  distinct, differ from the token mount path and do not lie under it; every file mode parses; the
  rendered content respects the configured limit; and the helper configuration reads back to the
  rendered, non-empty audience, the socket path and the token location of the plan.
\<close>

theorem BuildPlan_sound:
  assumes "BuildPlan E isPrint shim values tok d = Inr plan"
  shows "plan_wf plan \<and>
    (d_MaxRenderedBytes d > 0 \<longrightarrow> int (renderedBytes plan) \<le> d_MaxRenderedBytes d) \<and>
    (\<exists>audience extras.
       Render_template E ''audience'' (spec_Audience (ShimSpec shim)) values = Inr audience \<and>
       audience \<noteq> [] \<and>
       read_config (p_HelperConf plan) =
         Some ((helper_config plan audience extras)
           \<lparr>hc_JWTSVIDFileMode := normalise_mode (tok_FileMode tok)\<rparr>))"
proof (rule BuildPlan_cases [OF assms])
  fix audience extras env files conf
  assume a: "Render_template E ''audience'' (spec_Audience (ShimSpec shim)) values = Inr audience"
    and c: "spiffeHelperConf isPrint (base_plan shim tok d) audience extras = Inr conf"
    and p: "plan = (base_plan shim tok d)\<lparr>p_Env := env, p_Files := files, p_HelperConf := conf\<rparr>"
    and m: "d_MaxRenderedBytes d > 0 \<Longrightarrow> int (renderedBytes plan) \<le> d_MaxRenderedBytes d"
  have "audience \<noteq> []"
    using c by (auto simp: spiffeHelperConf_def Render_helper_def helper_config_def split: if_splits)
  moreover have "read_config (p_HelperConf plan) =
      Some ((helper_config plan audience extras)\<lparr>hc_JWTSVIDFileMode := normalise_mode (tok_FileMode tok)\<rparr>)"
    using config_readback [OF c [unfolded spiffeHelperConf_def]] by (simp add: p) (simp add: helper_config_def)
  ultimately show ?thesis using a m BuildPlan_wf(1) [OF assms] by blast
qed

theorem BuildPlan_sound_witness:
  "plan_wf sample_plan \<and> int (renderedBytes sample_plan) \<le> 65536"
  using BuildPlan_sound [OF sample_plan_built] by (simp add: sample_defaults_def)

text \<open>
  The file mode of a rendered file is the 32-bit value of its octal digits: for a mode the
  controller accepts it is below 512 and non-negative as the signed integer Kubernetes reads, and
  nothing but one to eleven octal digits parses at all.
\<close>

lemma parseFileMode_value:
  "(ModePattern m \<longrightarrow> parseFileMode m = Some (word_of_nat (octal_val m)) \<and>
      sint (word_of_nat (octal_val m) :: 32 word) = int (octal_val m) \<and> octal_val m < 512) \<and>
   (parseFileMode m = Some w \<longrightarrow> list_all is_octal m \<and> m \<noteq> [] \<and> unat w = octal_val m)"
proof (intro conjI impI)
  assume m: "ModePattern m"
  show "sint (word_of_nat (octal_val m) :: 32 word) = int (octal_val m)"
    using ModePattern_parse(2) [OF m] by (simp add: signed_of_nat signed_take_bit_int_eq_self)
  show "parseFileMode m = Some (word_of_nat (octal_val m))" "octal_val m < 512"
    using ModePattern_parse [OF m] by auto
qed (auto simp: parseFileMode_def ParseUint8_32_def unat_of_nat split: if_splits)

end
