(* ===== verification/InjectionApply.thy ===== *)
theory InjectionApply
  imports InjectionPlan
begin

text \<open>
  The second half of package \<open>internal/injection\<close>: the collision checks (\<open>collisions.go\<close>) and \<open>Apply\<close>
  (\<open>mutate.go\<close>), which mutates a pod for a list of plans. The pod is passed and returned explicitly,
  the variables of the loop of \<open>Apply\<close> are the record \<open>apply_state\<close>, a returned pointer into a slice
  is an update of the first element of that name, and warnings are values with the data their
  messages print. This theory holds the operations; \<open>InjectionCorrect\<close> proves what they guarantee.
\<close>

section \<open>Names and paths\<close>

definition socketVolumeName :: string where "socketVolumeName = ''spiffe-workload-api''"
definition configMountPath :: string where "configMountPath = ''/etc/oidcshim''"
definition helperConfFile :: string where "helperConfFile = ''helper.conf''"
definition helperConfPath :: string where "helperConfPath = configMountPath @ ''/'' @ helperConfFile"
definition filesSubPathDir :: string where "filesSubPathDir = ''files''"

definition configVolumeName :: "string \<Rightarrow> string" where
  "configVolumeName shim = ''oidcshim-config-'' @ shim"

definition initContainerName :: "string \<Rightarrow> string" where
  "initContainerName shim = ''oidcshim-init-'' @ shim"

definition refreshContainerName :: "string \<Rightarrow> string" where
  "refreshContainerName shim = ''oidcshim-refresh-'' @ shim"

definition fileAnnotation :: "string \<Rightarrow> nat \<Rightarrow> string" where
  "fileAnnotation shim i = FileAnnotationPrefix @ shim @ ''-'' @ itoa i"

definition filesSubPath :: "nat \<Rightarrow> string" where
  "filesSubPath i = filesSubPathDir @ ''/'' @ itoa i"

definition annotationFieldRef :: "string \<Rightarrow> string" where
  "annotationFieldRef key = ''metadata.annotations['' @ [CHR 0x27] @ key @ [CHR 0x27] @ '']''"

section \<open>Searching a pod\<close>

definition findVolume :: "Pod \<Rightarrow> string \<Rightarrow> VolumeSource option" where
  "findVolume pod name = map_option v_Source (find (\<lambda>v. v_Name v = name) (pod_Volumes pod))"

definition findContainer :: "Container list \<Rightarrow> string \<Rightarrow> Container option" where
  "findContainer containers name = find (\<lambda>c. c_Name c = name) containers"

definition hasContainerNamed :: "Container list \<Rightarrow> string \<Rightarrow> bool" where
  "hasContainerNamed containers name = (findContainer containers name \<noteq> None)"

definition hasMountPath :: "Container \<Rightarrow> string \<Rightarrow> bool" where
  "hasMountPath c mountPath = list_ex (\<lambda>m. vm_MountPath m = mountPath) (c_VolumeMounts c)"

definition hasEnvNamed :: "Container \<Rightarrow> string \<Rightarrow> bool" where
  "hasEnvNamed c name = list_ex (\<lambda>e. ev_Name e = name) (c_Env c)"

section \<open>Collisions\<close>

datatype collision =
    SocketVolumeNotCSI
  | SocketVolumeDriver string string
  | VolumeExists string
  | InitContainerExists string
  | MountExists string string

definition checkSocketVolume :: "Pod \<Rightarrow> Plan \<Rightarrow> collision option" where
  "checkSocketVolume pod plan =
     (case findVolume pod socketVolumeName of
        None \<Rightarrow> None
      | Some v \<Rightarrow>
          (case vs_CSI v of
             None \<Rightarrow> Some SocketVolumeNotCSI
           | Some csi \<Rightarrow>
               if csi_Driver csi \<noteq> p_CSIDriver plan
               then Some (SocketVolumeDriver (csi_Driver csi) (p_CSIDriver plan)) else None))"

definition mountPaths :: "Plan \<Rightarrow> string list" where
  "mountPaths plan = tok_MountPath (p_Token plan) # map rf_Path (p_Files plan)"

fun check_volumes :: "Pod \<Rightarrow> string list \<Rightarrow> collision option" where
  "check_volumes pod [] = None"
| "check_volumes pod (name # names) =
     (if findVolume pod name \<noteq> None then Some (VolumeExists name) else check_volumes pod names)"

fun check_inits :: "Pod \<Rightarrow> Container list \<Rightarrow> string list \<Rightarrow> collision option" where
  "check_inits pod pendingInits [] = None"
| "check_inits pod pendingInits (name # names) =
     (if hasContainerNamed (pod_InitContainers pod) name \<or> hasContainerNamed pendingInits name
      then Some (InitContainerExists name) else check_inits pod pendingInits names)"

fun check_paths :: "Container \<Rightarrow> string list \<Rightarrow> collision option" where
  "check_paths c [] = None"
| "check_paths c (p # ps) =
     (if hasMountPath c p then Some (MountExists (c_Name c) p) else check_paths c ps)"

fun check_mounts :: "Pod \<Rightarrow> string list \<Rightarrow> string list \<Rightarrow> collision option" where
  "check_mounts pod paths [] = None"
| "check_mounts pod paths (target # targets) =
     (case findContainer (pod_Containers pod) target of
        None \<Rightarrow> check_mounts pod paths targets
      | Some c \<Rightarrow>
          (case check_paths c paths of
             Some r \<Rightarrow> Some r
           | None \<Rightarrow> check_mounts pod paths targets))"

definition checkCollisions ::
  "Pod \<Rightarrow> Plan \<Rightarrow> Container list \<Rightarrow> string list \<Rightarrow> collision option" where
  "checkCollisions pod plan pendingInits targets =
     (case checkSocketVolume pod plan of
        Some r \<Rightarrow> Some r
      | None \<Rightarrow>
      (case check_volumes pod [tok_VolumeName (p_Token plan), configVolumeName (p_ShimName plan)] of
        Some r \<Rightarrow> Some r
      | None \<Rightarrow>
      (case check_inits pod pendingInits
              [initContainerName (p_ShimName plan), refreshContainerName (p_ShimName plan)] of
        Some r \<Rightarrow> Some r
      | None \<Rightarrow> check_mounts pod (mountPaths plan) targets)))"

section \<open>Targets\<close>

datatype apply_warning =
    PodAlreadyInjected
  | BudgetExceeded string nat
  | ContainerNotFound string string
  | NoRequestedContainer string "string list"
  | CollisionFound string collision
  | EnvAlreadyDefined string string string

definition containersFromAnnotation :: "Pod \<Rightarrow> string list" where
  "containersFromAnnotation pod =
     (case smap_lookup (pod_Annotations pod) ContainersAnnotation of
        None \<Rightarrow> [] | Some raw \<Rightarrow> trimmed_fields raw)"

definition requested_containers :: "Pod \<Rightarrow> Plan \<Rightarrow> string list" where
  "requested_containers pod plan =
     (if containersFromAnnotation pod \<noteq> [] then containersFromAnnotation pod else p_Containers plan)"

fun select_targets ::
  "Container list \<Rightarrow> string \<Rightarrow> string list \<Rightarrow> string list \<times> apply_warning list" where
  "select_targets cs shim [] = ([], [])"
| "select_targets cs shim (name # names) =
     (case select_targets cs shim names of (ts, ws) \<Rightarrow>
        if findContainer cs name = None then (ts, ContainerNotFound shim name # ws)
        else (name # ts, ws))"

definition resolveTargets ::
  "Pod \<Rightarrow> Plan \<Rightarrow> string list \<times> string list \<times> apply_warning list" where
  "resolveTargets pod plan =
     (let requested = requested_containers pod plan in
      if requested = [] then (map c_Name (pod_Containers pod), [], [])
      else (case select_targets (pod_Containers pod) (p_ShimName plan) requested of
              (targets, warnings) \<Rightarrow> (targets, requested, warnings)))"

section \<open>Mutation\<close>

definition empty_source :: VolumeSource where
  "empty_source = \<lparr>vs_CSI = None, vs_EmptyDir = None, vs_DownwardAPI = None, vs_Rest = []\<rparr>"

definition socket_volume :: "Plan \<Rightarrow> Volume" where
  "socket_volume plan =
     \<lparr>v_Name = socketVolumeName,
      v_Source = empty_source\<lparr>vs_CSI :=
        Some \<lparr>csi_Driver = p_CSIDriver plan, csi_ReadOnly = Some True, csi_Rest = []\<rparr>\<rparr>\<rparr>"

definition token_volume :: "Plan \<Rightarrow> Volume" where
  "token_volume plan =
     \<lparr>v_Name = tok_VolumeName (p_Token plan),
      v_Source = empty_source\<lparr>vs_EmptyDir := Some \<lparr>ed_Medium = ''Memory'', ed_Rest = []\<rparr>\<rparr>\<rparr>"

fun file_items :: "string \<Rightarrow> nat \<Rightarrow> RenderedFile list \<Rightarrow> DownwardAPIVolumeFile list" where
  "file_items shim i [] = []"
| "file_items shim i (f # fs) =
     \<lparr>da_Path = filesSubPath i, da_FieldPath = annotationFieldRef (fileAnnotation shim i),
      da_Mode = Some (case parseFileMode (rf_Mode f) of Some m \<Rightarrow> m | None \<Rightarrow> 0)\<rparr> #
     file_items shim (Suc i) fs"

definition config_volume :: "Plan \<Rightarrow> Volume" where
  "config_volume plan =
     \<lparr>v_Name = configVolumeName (p_ShimName plan),
      v_Source = empty_source\<lparr>vs_DownwardAPI :=
        Some (\<lparr>da_Path = helperConfFile,
               da_FieldPath = annotationFieldRef (HelperConfAnnotation (p_ShimName plan)),
               da_Mode = None\<rparr> # file_items (p_ShimName plan) 0 (p_Files plan))\<rparr>\<rparr>"

definition addVolumes :: "Pod \<Rightarrow> Plan \<Rightarrow> Pod" where
  "addVolumes pod plan =
     (let pod1 = (if findVolume pod socketVolumeName = None
                  then pod\<lparr>pod_Volumes := pod_Volumes pod @ [socket_volume plan]\<rparr> else pod) in
      pod1\<lparr>pod_Volumes := pod_Volumes pod1 @ [token_volume plan, config_volume plan]\<rparr>)"

definition helperSecurityContext :: "Plan \<Rightarrow> SecurityContext" where
  "helperSecurityContext plan =
     (case p_HelperSecurityContext plan of
        Some sc \<Rightarrow> sc
      | None \<Rightarrow>
          \<lparr>sc_RunAsNonRoot = Some True, sc_AllowPrivilegeEscalation = Some False,
           sc_ReadOnlyRootFilesystem = Some True, sc_CapabilitiesAdd = [],
           sc_CapabilitiesDrop = [''ALL''], sc_SeccompProfileType = Some ''RuntimeDefault'',
           sc_Rest = []\<rparr>)"

definition plain_mount :: "string \<Rightarrow> string \<Rightarrow> bool \<Rightarrow> VolumeMount" where
  "plain_mount name path ro =
     \<lparr>vm_Name = name, vm_MountPath = path, vm_SubPath = [], vm_ReadOnly = ro, vm_Rest = []\<rparr>"

definition no_resources :: ResourceRequirements where
  "no_resources = \<lparr>rr_Limits = [], rr_Requests = [], rr_Claims = []\<rparr>"

definition helperContainer :: "Plan \<Rightarrow> bool \<Rightarrow> Container" where
  "helperContainer plan sidecar =
     \<lparr>c_Name =
        (if sidecar then refreshContainerName (p_ShimName plan) else initContainerName (p_ShimName plan)),
      c_Image = p_HelperImage plan,
      c_ImagePullPolicy = p_HelperImagePullPolicy plan,
      c_Args =
        (if sidecar then [''-config'', helperConfPath] else [''-config'', helperConfPath, ''-daemon-mode=false'']),
      c_Env = [],
      c_VolumeMounts =
        [plain_mount socketVolumeName (p_SocketMountPath plan) True,
         plain_mount (tok_VolumeName (p_Token plan)) (tok_MountPath (p_Token plan)) False,
         plain_mount (configVolumeName (p_ShimName plan)) configMountPath True],
      c_RestartPolicy = (if sidecar then Some ''Always'' else None),
      c_SecurityContext = Some (helperSecurityContext plan),
      c_Resources = (case p_HelperResources plan of Some r \<Rightarrow> r | None \<Rightarrow> no_resources),
      c_Rest = []\<rparr>"

fun file_mounts :: "string \<Rightarrow> nat \<Rightarrow> RenderedFile list \<Rightarrow> VolumeMount list" where
  "file_mounts shim i [] = []"
| "file_mounts shim i (f # fs) =
     \<lparr>vm_Name = configVolumeName shim, vm_MountPath = rf_Path f, vm_SubPath = filesSubPath i,
      vm_ReadOnly = True, vm_Rest = []\<rparr> # file_mounts shim (Suc i) fs"

definition plan_mounts :: "Plan \<Rightarrow> VolumeMount list" where
  "plan_mounts plan =
     plain_mount (tok_VolumeName (p_Token plan)) (tok_MountPath (p_Token plan)) True #
     file_mounts (p_ShimName plan) 0 (p_Files plan)"

fun add_env :: "string \<Rightarrow> EnvVar list \<Rightarrow> Container \<Rightarrow> Container \<times> apply_warning list" where
  "add_env shim [] c = (c, [])"
| "add_env shim (e # es) c =
     (if hasEnvNamed c (ev_Name e) then
        (case add_env shim es c of (c', ws) \<Rightarrow>
           (c', EnvAlreadyDefined shim (c_Name c) (ev_Name e) # ws))
      else add_env shim es (c\<lparr>c_Env := c_Env c @ [e]\<rparr>))"

definition inject_container :: "Plan \<Rightarrow> Container \<Rightarrow> Container \<times> apply_warning list" where
  "inject_container plan c =
     add_env (p_ShimName plan) (p_Env plan)
       (c\<lparr>c_VolumeMounts := c_VolumeMounts c @ plan_mounts plan\<rparr>)"

fun replace_first :: "string \<Rightarrow> Container \<Rightarrow> Container list \<Rightarrow> Container list" where
  "replace_first name c' [] = []"
| "replace_first name c' (c # cs) = (if c_Name c = name then c' # cs else c # replace_first name c' cs)"

fun injectIntoContainers ::
  "Container list \<Rightarrow> Plan \<Rightarrow> string list \<Rightarrow> Container list \<times> apply_warning list" where
  "injectIntoContainers cs plan [] = (cs, [])"
| "injectIntoContainers cs plan (name # names) =
     (case findContainer cs name of
        None \<Rightarrow> injectIntoContainers cs plan names
      | Some c \<Rightarrow>
          (case inject_container plan c of (c', ws) \<Rightarrow>
             (case injectIntoContainers (replace_first name c' cs) plan names of (cs', ws') \<Rightarrow>
                (cs', ws @ ws'))))"

definition setAnnotation :: "Pod \<Rightarrow> string \<Rightarrow> string \<Rightarrow> Pod" where
  "setAnnotation pod key value =
     pod\<lparr>pod_Annotations := smap_set (pod_Annotations pod) key value\<rparr>"

fun write_files :: "string \<Rightarrow> nat \<Rightarrow> RenderedFile list \<Rightarrow> Pod \<Rightarrow> Pod" where
  "write_files shim i [] pod = pod"
| "write_files shim i (f # fs) pod =
     write_files shim (Suc i) fs (setAnnotation pod (fileAnnotation shim i) (rf_Content f))"

definition writePlanMetadata :: "Pod \<Rightarrow> Plan \<Rightarrow> Pod" where
  "writePlanMetadata pod plan =
     (let pod1 = setAnnotation pod (HelperConfAnnotation (p_ShimName plan)) (p_HelperConf plan);
          pod2 = write_files (p_ShimName plan) 0 (p_Files plan) pod1;
          value = (if p_ClusterScoped plan then ShimLabelValueCluster else ShimLabelValueNamespaced) in
      pod2\<lparr>pod_Labels := smap_set (pod_Labels pod2) (ShimLabelKey (p_ShimName plan)) value\<rparr>)"

section \<open>Apply\<close>

definition annotationBytes :: "Pod \<Rightarrow> nat" where
  "annotationBytes pod = smap_bytes (pod_Annotations pod)"

record apply_state =
  a_pod :: Pod
  a_newInits :: "Container list"
  a_addedBytes :: nat
  a_applied :: "Plan list"
  a_warnings :: "apply_warning list"

definition apply_plan :: "nat \<Rightarrow> Plan \<Rightarrow> apply_state \<Rightarrow> apply_state" where
  "apply_plan existingBytes plan st =
     (let planBytes = renderedBytes plan; sum = existingBytes + a_addedBytes st + planBytes in
      if sum > MaxPodAnnotationBytes then
        st\<lparr>a_warnings := a_warnings st @ [BudgetExceeded (p_ShimKey plan) sum]\<rparr>
      else
        (case resolveTargets (a_pod st) plan of (targets, requested, targetWarnings) \<Rightarrow>
           (let st1 = st\<lparr>a_warnings := a_warnings st @ targetWarnings\<rparr> in
            if requested \<noteq> [] \<and> targets = [] then
              st1\<lparr>a_warnings := a_warnings st1 @ [NoRequestedContainer (p_ShimName plan) requested]\<rparr>
            else
              (case checkCollisions (a_pod st1) plan (a_newInits st1) targets of
                 Some reason \<Rightarrow>
                   st1\<lparr>a_warnings := a_warnings st1 @ [CollisionFound (p_ShimName plan) reason]\<rparr>
               | None \<Rightarrow>
                   (let pod1 = addVolumes (a_pod st1) plan in
                    case injectIntoContainers (pod_Containers pod1) plan targets of (cs, ws) \<Rightarrow>
                      \<lparr>a_pod = writePlanMetadata (pod1\<lparr>pod_Containers := cs\<rparr>) plan,
                       a_newInits = a_newInits st1 @ [helperContainer plan False, helperContainer plan True],
                       a_addedBytes = a_addedBytes st1 + planBytes,
                       a_applied = a_applied st1 @ [plan],
                       a_warnings = a_warnings st1 @ ws\<rparr>)))))"

definition apply_start :: "Pod \<Rightarrow> apply_state" where
  "apply_start pod =
     \<lparr>a_pod = pod, a_newInits = [], a_addedBytes = 0, a_applied = [], a_warnings = []\<rparr>"

definition apply_finish :: "apply_state \<Rightarrow> Pod" where
  "apply_finish st =
     (let pod1 = (a_pod st)\<lparr>pod_InitContainers := a_newInits st @ pod_InitContainers (a_pod st)\<rparr>;
          keys = map p_ShimKey (a_applied st);
          pod2 = setAnnotation pod1 StatusAnnotation StatusInjected in
      setAnnotation pod2 ShimsAnnotation (join '','' keys))"

definition Apply_pod :: "Pod \<Rightarrow> Plan list \<Rightarrow> Pod \<times> Plan list \<times> apply_warning list" where
  "Apply_pod pod plans =
     (if smap_get (pod_Annotations pod) StatusAnnotation = StatusInjected then
        (pod, [], [PodAlreadyInjected])
      else
        (let st = fold (apply_plan (annotationBytes pod)) plans (apply_start pod) in
         if a_applied st = [] then (a_pod st, [], a_warnings st)
         else (apply_finish st, a_applied st, a_warnings st)))"

definition Apply :: "Pod option \<Rightarrow> Plan list \<Rightarrow> Pod option \<times> Plan list \<times> apply_warning list" where
  "Apply pod plans =
     (case pod of
        None \<Rightarrow> (None, [], [])
      | Some p \<Rightarrow> (case Apply_pod p plans of (p', applied, ws) \<Rightarrow> (Some p', applied, ws)))"

end
