(* ===== verification/InjectionCorrect.thy ===== *)
theory InjectionCorrect
  imports InjectionApply "HOL-Library.Sublist"
begin

text \<open>
  What \<open>Apply\<close> guarantees about the pod it returns. One turn of its loop is the step relation
  \<open>plan_step\<close>: a plan is either skipped, which changes nothing but the warnings, or injected. The
  reachable states of the loop are \<open>apply_reach\<close>; the locale \<open>apply_invariant\<close> is the contract of
  a loop invariant (it holds at the start, the skip and the injection keep it) and is interpreted
  once for each invariant the properties rest on.
\<close>

section \<open>The loop as a step relation\<close>

definition inject_pod :: "Pod \<Rightarrow> Plan \<Rightarrow> string list \<Rightarrow> Pod" where
  "inject_pod pod plan targets =
     writePlanMetadata
       ((addVolumes pod plan)\<lparr>pod_Containers := fst (injectIntoContainers (pod_Containers pod) plan targets)\<rparr>)
       plan"

inductive plan_step :: "nat \<Rightarrow> Plan \<Rightarrow> apply_state \<Rightarrow> apply_state \<Rightarrow> bool" for existing plan where
  skip: "ws \<noteq> [] \<Longrightarrow> plan_step existing plan st (st\<lparr>a_warnings := a_warnings st @ ws\<rparr>)"
| inject:
    "\<lbrakk>existing + a_addedBytes st + renderedBytes plan \<le> MaxPodAnnotationBytes;
      resolveTargets (a_pod st) plan = (targets, requested, tws);
      requested = [] \<or> targets \<noteq> [];
      checkCollisions (a_pod st) plan (a_newInits st) targets = None\<rbrakk> \<Longrightarrow>
     plan_step existing plan st
       \<lparr>a_pod = inject_pod (a_pod st) plan targets,
        a_newInits = a_newInits st @ [helperContainer plan False, helperContainer plan True],
        a_addedBytes = a_addedBytes st + renderedBytes plan,
        a_applied = a_applied st @ [plan],
        a_warnings = a_warnings st @ ws\<rparr>"

inductive_cases plan_stepE: "plan_step existing plan st st'"

lemma addVolumes_frame [frame_simps]:
  "pod_Containers (addVolumes pod plan) = pod_Containers pod"
  "pod_InitContainers (addVolumes pod plan) = pod_InitContainers pod"
  "pod_Annotations (addVolumes pod plan) = pod_Annotations pod"
  "pod_Labels (addVolumes pod plan) = pod_Labels pod"
  "pod_Name (addVolumes pod plan) = pod_Name pod"
  "pod_GenerateName (addVolumes pod plan) = pod_GenerateName pod"
  "pod_Namespace (addVolumes pod plan) = pod_Namespace pod"
  "pod_ServiceAccountName (addVolumes pod plan) = pod_ServiceAccountName pod"
  "pod_Rest (addVolumes pod plan) = pod_Rest pod"
  by (simp_all add: addVolumes_def Let_def)

lemma apply_plan_step: "plan_step N plan st (apply_plan N plan st)"
proof -
  obtain targets requested tws where r: "resolveTargets (a_pod st) plan = (targets, requested, tws)"
    by (cases "resolveTargets (a_pod st) plan") auto
  show ?thesis
  proof (cases "N + a_addedBytes st + renderedBytes plan > MaxPodAnnotationBytes")
    case True
    then show ?thesis using plan_step.skip by (simp add: apply_plan_def Let_def)
  next
    case False
    note budget = this
    show ?thesis
    proof (cases "requested \<noteq> [] \<and> targets = []")
      case True
      with budget show ?thesis
        using plan_step.skip [of "tws @ [NoRequestedContainer (p_ShimName plan) requested]" N plan st]
        by (simp add: apply_plan_def Let_def r)
    next
      case False
      show ?thesis
      proof (cases "checkCollisions (a_pod st) plan (a_newInits st) targets")
        case None
        with budget False r show ?thesis
          using plan_step.inject [of N st plan targets requested tws]
          by (auto simp: apply_plan_def Let_def inject_pod_def frame_simps split: prod.split)
      next
        case (Some reason)
        with budget False show ?thesis
          using plan_step.skip [of "tws @ [CollisionFound (p_ShimName plan) reason]" N plan st]
          by (auto simp: apply_plan_def Let_def r)
      qed
    qed
  qed
qed

inductive apply_reach :: "Pod \<Rightarrow> Plan list \<Rightarrow> apply_state \<Rightarrow> bool" for pod where
  start: "apply_reach pod [] (apply_start pod)"
| step: "apply_reach pod plans st \<Longrightarrow> plan_step (annotationBytes pod) plan st st' \<Longrightarrow>
    apply_reach pod (plans @ [plan]) st'"

lemma apply_reach_fold:
  "apply_reach pod plans (fold (apply_plan (annotationBytes pod)) plans (apply_start pod))"
  by (induction plans rule: rev_induct) (auto intro: apply_reach.intros apply_plan_step)

locale apply_invariant =
  fixes Inv :: "Pod \<Rightarrow> apply_state \<Rightarrow> bool" and ok :: "Pod \<Rightarrow> Plan \<Rightarrow> bool"
  assumes at_start: "Inv pod (apply_start pod)"
    and keep_skip: "Inv pod st \<Longrightarrow> Inv pod (st\<lparr>a_warnings := ws\<rparr>)"
    and keep_inject:
      "\<lbrakk>apply_reach pod plans st; Inv pod st; ok pod plan;
        annotationBytes pod + a_addedBytes st + renderedBytes plan \<le> MaxPodAnnotationBytes;
        resolveTargets (a_pod st) plan = (targets, requested, tws);
        requested = [] \<or> targets \<noteq> [];
        checkCollisions (a_pod st) plan (a_newInits st) targets = None\<rbrakk> \<Longrightarrow>
       Inv pod
         \<lparr>a_pod = inject_pod (a_pod st) plan targets,
          a_newInits = a_newInits st @ [helperContainer plan False, helperContainer plan True],
          a_addedBytes = a_addedBytes st + renderedBytes plan,
          a_applied = a_applied st @ [plan],
          a_warnings = ws\<rparr>"
begin

lemma keep_step:
  "\<lbrakk>apply_reach pod plans st; Inv pod st; ok pod plan; plan_step (annotationBytes pod) plan st st'\<rbrakk> \<Longrightarrow>
   Inv pod st'"
  by (erule plan_stepE) (auto intro: keep_skip keep_inject)

lemma holds: "apply_reach pod plans st \<Longrightarrow> list_all (ok pod) plans \<Longrightarrow> Inv pod st"
  by (induction rule: apply_reach.induct) (auto intro: at_start keep_step)

lemma holds_at_end:
  "list_all (ok pod) plans \<Longrightarrow>
   Inv pod (fold (apply_plan (annotationBytes pod)) plans (apply_start pod))"
  by (rule holds [OF apply_reach_fold])

end

lemma Apply_pod_injected:
  assumes "Apply_pod pod plans = (pod', applied, ws)" "applied \<noteq> []"
  obtains st where "st = fold (apply_plan (annotationBytes pod)) plans (apply_start pod)"
    "apply_reach pod plans st" "pod' = apply_finish st" "applied = a_applied st" "ws = a_warnings st"
    "smap_get (pod_Annotations pod) StatusAnnotation \<noteq> StatusInjected"
  using assms apply_reach_fold [of pod plans] by (auto simp: Apply_pod_def Let_def split: if_splits)

section \<open>What one injection changes\<close>

text \<open>The keys and values one plan writes to the annotations.\<close>

fun file_annotations :: "string \<Rightarrow> nat \<Rightarrow> RenderedFile list \<Rightarrow> smap" where
  "file_annotations shim i [] = []"
| "file_annotations shim i (f # fs) =
     (fileAnnotation shim i, rf_Content f) # file_annotations shim (Suc i) fs"

definition plan_annotations :: "Plan \<Rightarrow> smap" where
  "plan_annotations p =
     (HelperConfAnnotation (p_ShimName p), p_HelperConf p) # file_annotations (p_ShimName p) 0 (p_Files p)"

definition plan_label :: "Plan \<Rightarrow> string \<times> string" where
  "plan_label p =
     (ShimLabelKey (p_ShimName p),
      if p_ClusterScoped p then ShimLabelValueCluster else ShimLabelValueNamespaced)"

definition store_all :: "smap \<Rightarrow> smap \<Rightarrow> smap" where
  "store_all kvs m = fold (\<lambda>(k, v) m. smap_set m k v) kvs m"

lemma store_all_simps [simp]:
  "store_all [] m = m"
  "store_all ((k, v) # kvs) m = store_all kvs (smap_set m k v)"
  "store_all (kvs @ kvs') m = store_all kvs' (store_all kvs m)"
  by (simp_all add: store_all_def)

lemma setAnnotation_frame [frame_simps]:
  "pod_Annotations (setAnnotation pod k v) = smap_set (pod_Annotations pod) k v"
  "pod_Labels (setAnnotation pod k v) = pod_Labels pod"
  "pod_Containers (setAnnotation pod k v) = pod_Containers pod"
  "pod_InitContainers (setAnnotation pod k v) = pod_InitContainers pod"
  "pod_Volumes (setAnnotation pod k v) = pod_Volumes pod"
  "pod_Name (setAnnotation pod k v) = pod_Name pod"
  "pod_GenerateName (setAnnotation pod k v) = pod_GenerateName pod"
  "pod_Namespace (setAnnotation pod k v) = pod_Namespace pod"
  "pod_ServiceAccountName (setAnnotation pod k v) = pod_ServiceAccountName pod"
  "pod_Rest (setAnnotation pod k v) = pod_Rest pod"
  by (simp_all add: setAnnotation_def)

lemma write_files_eq:
  "write_files shim i fs pod =
     pod\<lparr>pod_Annotations := store_all (file_annotations shim i fs) (pod_Annotations pod)\<rparr>"
  by (induction fs arbitrary: i pod) (simp_all add: setAnnotation_def)

lemma inject_pod_frame [frame_simps]:
  "pod_Containers (inject_pod pod plan ts) = fst (injectIntoContainers (pod_Containers pod) plan ts)"
  "pod_Annotations (inject_pod pod plan ts) = store_all (plan_annotations plan) (pod_Annotations pod)"
  "pod_Labels (inject_pod pod plan ts) = store_all [plan_label plan] (pod_Labels pod)"
  "pod_Volumes (inject_pod pod plan ts) = pod_Volumes (addVolumes pod plan)"
  "pod_InitContainers (inject_pod pod plan ts) = pod_InitContainers pod"
  "pod_Name (inject_pod pod plan ts) = pod_Name pod"
  "pod_GenerateName (inject_pod pod plan ts) = pod_GenerateName pod"
  "pod_Namespace (inject_pod pod plan ts) = pod_Namespace pod"
  "pod_ServiceAccountName (inject_pod pod plan ts) = pod_ServiceAccountName pod"
  "pod_Rest (inject_pod pod plan ts) = pod_Rest pod"
  by (simp_all add: inject_pod_def writePlanMetadata_def Let_def write_files_eq frame_simps
      plan_annotations_def plan_label_def)

lemma apply_finish_frame [frame_simps]:
  "pod_Containers (apply_finish st) = pod_Containers (a_pod st)"
  "pod_Annotations (apply_finish st) =
     store_all [(StatusAnnotation, StatusInjected), (ShimsAnnotation, join '','' (map p_ShimKey (a_applied st)))]
       (pod_Annotations (a_pod st))"
  "pod_Labels (apply_finish st) = pod_Labels (a_pod st)"
  "pod_Volumes (apply_finish st) = pod_Volumes (a_pod st)"
  "pod_InitContainers (apply_finish st) = a_newInits st @ pod_InitContainers (a_pod st)"
  "pod_Name (apply_finish st) = pod_Name (a_pod st)"
  "pod_GenerateName (apply_finish st) = pod_GenerateName (a_pod st)"
  "pod_Namespace (apply_finish st) = pod_Namespace (a_pod st)"
  "pod_ServiceAccountName (apply_finish st) = pod_ServiceAccountName (a_pod st)"
  "pod_Rest (apply_finish st) = pod_Rest (a_pod st)"
  by (simp_all add: apply_finish_def Let_def frame_simps)

subsection \<open>Volumes\<close>

lemma pod_Volumes_addVolumes:
  "pod_Volumes (addVolumes pod plan) =
     pod_Volumes pod @ (if findVolume pod socketVolumeName = None then [socket_volume plan] else [])
       @ [token_volume plan, config_volume plan]"
  by (simp add: addVolumes_def Let_def)

lemma findVolume_None_iff: "findVolume pod name = None \<longleftrightarrow> name \<notin> v_Name ` set (pod_Volumes pod)"
  by (auto simp: findVolume_def find_None_all)

lemma findVolume_Some:
  "findVolume pod name = Some src \<Longrightarrow> \<exists>v\<in>set (pod_Volumes pod). v_Name v = name \<and> v_Source v = src"
  by (auto simp: findVolume_def dest: find_Some_in)

lemma v_Name_simps [simp]:
  "v_Name (socket_volume plan) = socketVolumeName"
  "v_Name (token_volume plan) = tok_VolumeName (p_Token plan)"
  "v_Name (config_volume plan) = configVolumeName (p_ShimName plan)"
  by (simp_all add: socket_volume_def token_volume_def config_volume_def)

lemma findVolume_append:
  "pod_Volumes pod' = pod_Volumes pod @ vs \<Longrightarrow> findVolume pod name = Some src \<Longrightarrow>
   findVolume pod' name = Some src"
  by (auto simp: findVolume_def find_append)

subsection \<open>Collisions\<close>

lemma check_volumes_None: "check_volumes pod names = None \<longleftrightarrow> (\<forall>n\<in>set names. findVolume pod n = None)"
  by (induction names) auto

lemma hasContainerNamed_iff: "hasContainerNamed cs name \<longleftrightarrow> name \<in> c_Name ` set cs"
  by (auto simp: hasContainerNamed_def findContainer_def find_None_all)

lemma check_inits_None:
  "check_inits pod pending names = None \<longleftrightarrow>
     set names \<inter> c_Name ` (set (pod_InitContainers pod) \<union> set pending) = {}"
  by (induction names) (auto simp: hasContainerNamed_iff)

lemma check_paths_None: "check_paths c ps = None \<longleftrightarrow> set ps \<inter> vm_MountPath ` set (c_VolumeMounts c) = {}"
  by (induction ps) (auto simp: hasMountPath_def list_ex_iff)

lemma check_mounts_None:
  "check_mounts pod paths targets = None \<longleftrightarrow>
     (\<forall>t\<in>set targets. \<forall>c. findContainer (pod_Containers pod) t = Some c \<longrightarrow>
        set paths \<inter> vm_MountPath ` set (c_VolumeMounts c) = {})"
  by (induction targets) (auto simp: check_chain_None check_paths_None split: option.split)

lemma checkSocketVolume_None:
  "checkSocketVolume pod plan = None \<longleftrightarrow>
     (\<forall>v. findVolume pod socketVolumeName = Some v \<longrightarrow>
        (\<exists>csi. vs_CSI v = Some csi \<and> csi_Driver csi = p_CSIDriver plan))"
  by (auto simp: checkSocketVolume_def split: option.splits)

lemma checkCollisions_None:
  "checkCollisions pod plan pending targets = None \<longleftrightarrow>
     checkSocketVolume pod plan = None \<and>
     findVolume pod (tok_VolumeName (p_Token plan)) = None \<and>
     findVolume pod (configVolumeName (p_ShimName plan)) = None \<and>
     check_inits pod pending [initContainerName (p_ShimName plan), refreshContainerName (p_ShimName plan)] = None \<and>
     check_mounts pod (mountPaths plan) targets = None"
  by (simp add: checkCollisions_def check_chain_None check_volumes_None
      del: check_inits.simps check_volumes.simps)

subsection \<open>Containers\<close>

text \<open>
  A container only grows: environment variables of new names and mounts are appended, everything it
  had stays in place and in order.
\<close>

definition container_extends :: "Container \<Rightarrow> Container \<Rightarrow> bool" where
  "container_extends c c' \<longleftrightarrow>
     (\<exists>es ms. c' = c\<lparr>c_Env := c_Env c @ es, c_VolumeMounts := c_VolumeMounts c @ ms\<rparr> \<and>
       distinct (map ev_Name es) \<and> ev_Name ` set es \<inter> ev_Name ` set (c_Env c) = {})"

lemma container_extends_refl [intro, simp]: "container_extends c c"
  unfolding container_extends_def by (intro exI [of _ "[]"]) simp

lemma container_extends_trans:
  assumes "container_extends c c'" "container_extends c' c''"
  shows "container_extends c c''"
proof -
  from assms(1) obtain es ms where
    1: "c' = c\<lparr>c_Env := c_Env c @ es, c_VolumeMounts := c_VolumeMounts c @ ms\<rparr>"
      "distinct (map ev_Name es)" "ev_Name ` set es \<inter> ev_Name ` set (c_Env c) = {}"
    unfolding container_extends_def by blast
  from assms(2) obtain es' ms' where
    2: "c'' = c'\<lparr>c_Env := c_Env c' @ es', c_VolumeMounts := c_VolumeMounts c' @ ms'\<rparr>"
      "distinct (map ev_Name es')" "ev_Name ` set es' \<inter> ev_Name ` set (c_Env c') = {}"
    unfolding container_extends_def by blast
  have "distinct (map ev_Name (es @ es'))"
    using 1 2 by (simp add: distinct_map_append_iff) auto
  moreover have "ev_Name ` set (es @ es') \<inter> ev_Name ` set (c_Env c) = {}" using 1 2 by auto
  moreover have "c'' = c\<lparr>c_Env := c_Env c @ es @ es', c_VolumeMounts := c_VolumeMounts c @ ms @ ms'\<rparr>"
    using 1(1) 2(1) by simp
  ultimately show ?thesis unfolding container_extends_def by blast
qed

lemma container_extends_name: "container_extends c c' \<Longrightarrow> c_Name c' = c_Name c"
  by (auto simp: container_extends_def)

lemma container_extends_subsets:
  assumes "container_extends c c'"
  shows "set (c_VolumeMounts c) \<subseteq> set (c_VolumeMounts c')" "set (c_Env c) \<subseteq> set (c_Env c')"
  using assms by (auto simp: container_extends_def)

text \<open>The variables a plan adds to a container, in order: those whose name is still free.\<close>

fun new_env :: "string set \<Rightarrow> EnvVar list \<Rightarrow> EnvVar list" where
  "new_env names [] = []"
| "new_env names (e # es) =
     (if ev_Name e \<in> names then new_env names es else e # new_env (insert (ev_Name e) names) es)"

lemma new_env_names:
  "distinct (map ev_Name (new_env names es))"
  "ev_Name ` set (new_env names es) = ev_Name ` set es - names"
  "subseq (new_env names es) es"
  by (induction es arbitrary: names) (auto simp: image_iff)

lemma hasEnvNamed_iff: "hasEnvNamed c name \<longleftrightarrow> name \<in> ev_Name ` set (c_Env c)"
  by (auto simp: hasEnvNamed_def list_ex_iff)

lemma add_env_eq:
  "fst (add_env shim es c) = c\<lparr>c_Env := c_Env c @ new_env (ev_Name ` set (c_Env c)) es\<rparr>"
proof (induction es arbitrary: c)
  case (Cons e es)
  show ?case using Cons.IH [of c] Cons.IH [of "c\<lparr>c_Env := c_Env c @ [e]\<rparr>"]
    by (cases "add_env shim es c") (simp add: hasEnvNamed_iff)
qed simp

lemma inject_container_eq:
  "fst (inject_container plan c) =
     c\<lparr>c_Env := c_Env c @ new_env (ev_Name ` set (c_Env c)) (p_Env plan),
       c_VolumeMounts := c_VolumeMounts c @ plan_mounts plan\<rparr>"
  by (simp add: inject_container_def add_env_eq)

lemma inject_container_extends: "container_extends c (fst (inject_container plan c))"
  unfolding container_extends_def inject_container_eq
  using new_env_names [of "ev_Name ` set (c_Env c)" "p_Env plan"] by blast

lemma c_Name_inject_container [simp]: "c_Name (fst (inject_container plan c)) = c_Name c"
  by (simp add: inject_container_eq)

lemma fst_injectIntoContainers_Cons:
  "fst (injectIntoContainers cs plan (name # names)) =
     (case findContainer cs name of
        None \<Rightarrow> fst (injectIntoContainers cs plan names)
      | Some c \<Rightarrow>
          fst (injectIntoContainers (replace_first name (fst (inject_container plan c)) cs) plan names))"
  by (auto split: option.split prod.split)

lemma replace_first_extends:
  assumes "findContainer cs name = Some c" "container_extends c c'"
  shows "list_all2 container_extends cs (replace_first name c' cs)"
  using assms by (induction cs) (auto simp: findContainer_def list.rel_refl_strong split: if_splits)

lemma injectIntoContainers_extends:
  "list_all2 container_extends cs (fst (injectIntoContainers cs plan targets))"
proof (induction targets arbitrary: cs)
  case Nil
  then show ?case by (simp add: list.rel_refl)
next
  case (Cons name names)
  show ?case
  proof (cases "findContainer cs name")
    case None
    with Cons.IH [of cs] show ?thesis unfolding fst_injectIntoContainers_Cons by simp
  next
    case (Some c)
    let ?cs = "replace_first name (fst (inject_container plan c)) cs"
    have "list_all2 container_extends cs (fst (injectIntoContainers ?cs plan names))"
      by (rule list_all2_trans [OF container_extends_trans
            replace_first_extends [OF Some inject_container_extends] Cons.IH])
    then show ?thesis unfolding fst_injectIntoContainers_Cons by (simp add: Some)
  qed
qed

lemma extends_names: "list_all2 container_extends cs cs' \<Longrightarrow> map c_Name cs' = map c_Name cs"
  by (induction rule: list_all2_induct) (auto simp: container_extends_name)

lemma names_injectIntoContainers [simp]:
  "map c_Name (fst (injectIntoContainers cs plan targets)) = map c_Name cs"
  by (rule extends_names [OF injectIntoContainers_extends])

text \<open>With distinct container names and distinct targets, each target is injected exactly once.\<close>

lemma replace_first_distinct:
  assumes "distinct (map c_Name cs)" "findContainer cs name = Some c"
  shows "replace_first name c' cs = map (\<lambda>x. if c_Name x = name then c' else x) cs"
  using assms
  by (induction cs) (auto simp: findContainer_def image_iff intro!: map_idI [symmetric] split: if_splits)

lemma findContainer_distinct:
  assumes "distinct (map c_Name cs)"
  shows "findContainer cs name = Some c \<longleftrightarrow> c \<in> set cs \<and> c_Name c = name"
  using assms by (induction cs) (auto simp: findContainer_def)

lemma injectIntoContainers_distinct:
  assumes "distinct (map c_Name cs)" "distinct targets"
  shows "fst (injectIntoContainers cs plan targets) =
    map (\<lambda>c. if c_Name c \<in> set targets then fst (inject_container plan c) else c) cs"
  using assms
proof (induction targets arbitrary: cs)
  case Nil
  then show ?case by simp
next
  case (Cons name names)
  show ?case
  proof (cases "findContainer cs name")
    case None
    then have "name \<notin> c_Name ` set cs" by (auto simp: findContainer_def find_None_all)
    with Cons None show ?thesis unfolding fst_injectIntoContainers_Cons by (auto simp: image_iff)
  next
    case (Some c)
    let ?cs = "map (\<lambda>x. if c_Name x = name then fst (inject_container plan c) else x) cs"
    have c: "c_Name c = name" and same: "\<And>x. x \<in> set cs \<Longrightarrow> c_Name x = name \<Longrightarrow> x = c"
      using Some Cons.prems(1) findContainer_distinct [OF Cons.prems(1)]
      by (auto simp: distinct_map inj_on_def)
    have names: "map c_Name ?cs = map c_Name cs" using c by auto
    have "fst (injectIntoContainers cs plan (name # names)) = fst (injectIntoContainers ?cs plan names)"
      unfolding fst_injectIntoContainers_Cons by (simp add: Some replace_first_distinct [OF Cons.prems(1) Some])
    also have "\<dots> = map (\<lambda>c. if c_Name c \<in> set names then fst (inject_container plan c) else c) ?cs"
      using Cons.prems by (intro Cons.IH) (simp_all only: names distinct.simps)
    also have "\<dots> = map (\<lambda>c. if c_Name c \<in> set (name # names) then fst (inject_container plan c) else c) cs"
      using Cons.prems(2) c same by auto
    finally show ?thesis .
  qed
qed

subsection \<open>Derived names\<close>

lemma container_name_simps [name_simps]:
  "initContainerName a = initContainerName b \<longleftrightarrow> a = b"
  "refreshContainerName a = refreshContainerName b \<longleftrightarrow> a = b"
  "initContainerName a \<noteq> refreshContainerName b"
  "refreshContainerName a \<noteq> initContainerName b"
  "configVolumeName a = configVolumeName b \<longleftrightarrow> a = b"
  "configVolumeName a \<noteq> socketVolumeName"
  "socketVolumeName \<noteq> configVolumeName a"
  by (simp_all add: initContainerName_def refreshContainerName_def configVolumeName_def socketVolumeName_def)

lemma last_dash_unique:
  assumes "a @ CHR ''-'' # x = b @ CHR ''-'' # y" "CHR ''-'' \<notin> set x" "CHR ''-'' \<notin> set y"
  shows "a = b \<and> x = y"
  using assms
proof (induction a arbitrary: b)
  case Nil
  then show ?case by (cases b) auto
next
  case (Cons c a)
  then show ?case by (cases b) auto
qed

lemma fileAnnotation_inj [name_simps]: "fileAnnotation a i = fileAnnotation b j \<longleftrightarrow> a = b \<and> i = j"
  using last_dash_unique [of a "itoa i" b "itoa j"] itoa_no_dash
  by (auto simp: fileAnnotation_def inj_itoa)

lemma annotation_key_simps [name_simps]:
  "fileAnnotation a i \<noteq> HelperConfAnnotation b" "HelperConfAnnotation b \<noteq> fileAnnotation a i"
  "fileAnnotation a i \<noteq> StatusAnnotation" "HelperConfAnnotation b \<noteq> StatusAnnotation"
  "fileAnnotation a i \<noteq> ShimsAnnotation" "HelperConfAnnotation b \<noteq> ShimsAnnotation"
  "fileAnnotation a i \<noteq> ContainersAnnotation" "HelperConfAnnotation b \<noteq> ContainersAnnotation"
  "StatusAnnotation \<noteq> ShimsAnnotation" "ShimsAnnotation \<noteq> StatusAnnotation"
  "StatusAnnotation \<noteq> ContainersAnnotation" "ShimsAnnotation \<noteq> ContainersAnnotation"
  "ContainersAnnotation \<noteq> StatusAnnotation" "ContainersAnnotation \<noteq> ShimsAnnotation"
  "StatusAnnotation \<noteq> fileAnnotation a i" "StatusAnnotation \<noteq> HelperConfAnnotation b"
  "ShimsAnnotation \<noteq> fileAnnotation a i" "ShimsAnnotation \<noteq> HelperConfAnnotation b"
  "ContainersAnnotation \<noteq> fileAnnotation a i" "ContainersAnnotation \<noteq> HelperConfAnnotation b"
  by (simp_all add: fileAnnotation_def HelperConfAnnotation_def key_defs)

lemma file_annotations_nth:
  "j < length fs \<Longrightarrow> (fileAnnotation shim (i + j), rf_Content (fs ! j)) \<in> set (file_annotations shim i fs)"
proof (induction fs arbitrary: i j)
  case (Cons f fs)
  show ?case
  proof (cases j)
    case (Suc k)
    with Cons.IH [of k "Suc i"] Cons.prems show ?thesis by simp
  qed simp
qed simp

lemma file_annotations_keys:
  "k \<in> fst ` set (file_annotations shim i fs) \<Longrightarrow> \<exists>j\<ge>i. k = fileAnnotation shim j"
proof (induction fs arbitrary: i)
  case (Cons f fs)
  from Cons.prems consider "k = fileAnnotation shim i" | "k \<in> fst ` set (file_annotations shim (Suc i) fs)"
    by auto
  then show ?case using Cons.IH [of "Suc i"] Suc_leD by cases blast+
qed simp

lemma file_annotations_distinct: "distinct (map fst (file_annotations shim i fs))"
  by (induction fs arbitrary: i)
    (auto simp flip: image_set simp: name_simps dest!: file_annotations_keys)

lemma plan_annotations_keys:
  "k \<in> fst ` set (plan_annotations p) \<Longrightarrow>
   k = HelperConfAnnotation (p_ShimName p) \<or> (\<exists>j. k = fileAnnotation (p_ShimName p) j)"
  by (auto simp: plan_annotations_def dest: file_annotations_keys [OF imageI, simplified])

lemma plan_annotations_distinct: "distinct (map fst (plan_annotations p))"
  using file_annotations_keys [of "HelperConfAnnotation (p_ShimName p)" "p_ShimName p" 0 "p_Files p"]
  by (auto simp: plan_annotations_def file_annotations_distinct image_set name_simps simp del: set_map)

lemma plans_annotations_distinct:
  assumes "distinct (map p_ShimName ps)"
  shows "distinct (map fst (concat (map plan_annotations ps)))"
  using assms
proof (induction ps)
  case (Cons p ps)
  have "fst ` set (plan_annotations p) \<inter> fst ` set (concat (map plan_annotations ps)) = {}"
    using Cons.prems by (fastforce simp: name_simps dest: plan_annotations_keys [OF imageI])
  with Cons show ?case by (auto simp: plan_annotations_distinct)
qed simp

subsection \<open>Targets\<close>

lemma findContainer_None: "findContainer cs name = None \<longleftrightarrow> name \<notin> set (map c_Name cs)"
  by (auto simp: findContainer_def find_None_all)

lemma select_targets_eq:
  "fst (select_targets cs shim names) = filter (\<lambda>n. n \<in> set (map c_Name cs)) names"
  by (induction names) (auto simp: findContainer_None split: prod.split)

definition plan_targets :: "Pod \<Rightarrow> Plan \<Rightarrow> string list" where
  "plan_targets pod plan = fst (resolveTargets pod plan)"

lemma plan_targets_eq:
  "plan_targets pod plan =
     (if requested_containers pod plan = [] then map c_Name (pod_Containers pod)
      else filter (\<lambda>n. n \<in> set (map c_Name (pod_Containers pod))) (requested_containers pod plan))"
  using select_targets_eq [of "pod_Containers pod" "p_ShimName plan" "requested_containers pod plan"]
  by (auto simp: plan_targets_def resolveTargets_def Let_def split: prod.split)

lemma plan_targets_cong:
  assumes "map c_Name (pod_Containers pod') = map c_Name (pod_Containers pod)"
    and "smap_lookup (pod_Annotations pod') ContainersAnnotation = smap_lookup (pod_Annotations pod) ContainersAnnotation"
  shows "plan_targets pod' plan = plan_targets pod plan"
proof -
  have "requested_containers pod' plan = requested_containers pod plan"
    by (simp add: requested_containers_def containersFromAnnotation_def assms(2))
  then show ?thesis unfolding plan_targets_eq assms(1) by simp
qed

section \<open>Invariants of the loop\<close>

subsection \<open>The exact effect of the applied plans\<close>

definition helpers :: "Plan \<Rightarrow> Container list" where
  "helpers p = [helperContainer p False, helperContainer p True]"

definition plan_volumes :: "Plan \<Rightarrow> Volume list" where
  "plan_volumes p = [token_volume p, config_volume p]"

definition injected_volumes :: "Pod \<Rightarrow> Plan list \<Rightarrow> Volume list" where
  "injected_volumes pod ps =
     (if ps \<noteq> [] \<and> findVolume pod socketVolumeName = None then [socket_volume (hd ps)] else [])
       @ concat (map plan_volumes ps)"

definition effect_inv :: "Pod \<Rightarrow> apply_state \<Rightarrow> bool" where
  "effect_inv pod st \<longleftrightarrow>
     a_newInits st = concat (map helpers (a_applied st)) \<and>
     a_addedBytes st = sum_list (map renderedBytes (a_applied st)) \<and>
     (a_applied st \<noteq> [] \<longrightarrow> annotationBytes pod + a_addedBytes st \<le> MaxPodAnnotationBytes) \<and>
     (\<exists>cs. list_all2 container_extends (pod_Containers pod) cs \<and>
       a_pod st = pod\<lparr>
         pod_Annotations := store_all (concat (map plan_annotations (a_applied st))) (pod_Annotations pod),
         pod_Labels := store_all (map plan_label (a_applied st)) (pod_Labels pod),
         pod_Volumes := pod_Volumes pod @ injected_volumes pod (a_applied st),
         pod_Containers := cs\<rparr>)"

lemma effect_inv_fields:
  assumes "effect_inv pod st"
  shows "pod_Annotations (a_pod st) = store_all (concat (map plan_annotations (a_applied st))) (pod_Annotations pod)"
    "pod_Labels (a_pod st) = store_all (map plan_label (a_applied st)) (pod_Labels pod)"
    "pod_Volumes (a_pod st) = pod_Volumes pod @ injected_volumes pod (a_applied st)"
    "pod_InitContainers (a_pod st) = pod_InitContainers pod"
    "list_all2 container_extends (pod_Containers pod) (pod_Containers (a_pod st))"
  using assms by (clarsimp simp: effect_inv_def)+

lemma findVolume_socket_snoc:
  assumes "pod_Volumes pod' = pod_Volumes pod @ injected_volumes pod ps"
  shows "injected_volumes pod ps @ (if findVolume pod' socketVolumeName = None then [socket_volume p] else [])
      @ plan_volumes p = injected_volumes pod (ps @ [p])"
  using assms by (cases ps) (auto simp: injected_volumes_def findVolume_None_iff)

lemma inject_pod_record:
  "inject_pod pod plan ts = pod\<lparr>
     pod_Annotations := store_all (plan_annotations plan) (pod_Annotations pod),
     pod_Labels := store_all [plan_label plan] (pod_Labels pod),
     pod_Volumes := pod_Volumes (addVolumes pod plan),
     pod_Containers := fst (injectIntoContainers (pod_Containers pod) plan ts)\<rparr>"
  by (rule Pod.equality) (simp_all add: frame_simps)

interpretation eff: apply_invariant effect_inv "\<lambda>_ _. True"
proof unfold_locales
  show "effect_inv pod (apply_start pod)" for pod
    unfolding effect_inv_def
    by (intro conjI exI [of _ "pod_Containers pod"])
      (simp_all add: apply_start_def injected_volumes_def list.rel_refl)
  show "effect_inv pod st \<Longrightarrow> effect_inv pod (st\<lparr>a_warnings := ws\<rparr>)" for pod st ws
    by (clarsimp simp: effect_inv_def)
next
  fix pod :: Pod and plans st plan targets requested tws ws
  assume inv: "effect_inv pod st"
    and budget: "annotationBytes pod + a_addedBytes st + renderedBytes plan \<le> MaxPodAnnotationBytes"
  let ?cs = "fst (injectIntoContainers (pod_Containers (a_pod st)) plan targets)"
  have cs: "list_all2 container_extends (pod_Containers pod) ?cs"
    by (rule list_all2_trans [OF container_extends_trans effect_inv_fields(5) [OF inv]
          injectIntoContainers_extends])
  have vols: "pod_Volumes (addVolumes (a_pod st) plan) = pod_Volumes pod @ injected_volumes pod (a_applied st @ [plan])"
    using findVolume_socket_snoc [OF effect_inv_fields(3) [OF inv], of plan]
    by (simp add: pod_Volumes_addVolumes effect_inv_fields(3) [OF inv] plan_volumes_def)
  show "effect_inv pod
      \<lparr>a_pod = inject_pod (a_pod st) plan targets,
       a_newInits = a_newInits st @ [helperContainer plan False, helperContainer plan True],
       a_addedBytes = a_addedBytes st + renderedBytes plan, a_applied = a_applied st @ [plan], a_warnings = ws\<rparr>"
    using inv budget cs vols unfolding effect_inv_def inject_pod_record
    by (auto simp: helpers_def)
qed

lemma reach_effect: "apply_reach pod plans st \<Longrightarrow> effect_inv pod st"
  by (rule eff.holds) (simp_all add: list.pred_True)

lemma apply_reach_unchanged: "apply_reach pod plans st \<Longrightarrow> a_applied st = [] \<Longrightarrow> a_pod st = pod"
  by (induction rule: apply_reach.induct) (auto simp: apply_start_def elim: plan_stepE)

lemma apply_reach_warned: "apply_reach pod plans st \<Longrightarrow> length plans \<le> length (a_applied st) + length (a_warnings st)"
  by (induction rule: apply_reach.induct) (auto elim!: plan_stepE simp: Suc_le_eq length_greater_0_conv [symmetric] simp del: length_greater_0_conv)

lemma apply_reach_subseq: "apply_reach pod plans st \<Longrightarrow> subseq (a_applied st) plans"
  by (induction rule: apply_reach.induct)
    (auto simp: apply_start_def list_emb_append_mono subseq_append elim!: plan_stepE intro: subseq_rev_drop_many)

subsection \<open>Names\<close>

definition names_inv :: "Pod \<Rightarrow> apply_state \<Rightarrow> bool" where
  "names_inv pod st \<longleftrightarrow>
     distinct (map p_ShimName (a_applied st)) \<and> distinct (map c_Name (a_newInits st)) \<and>
     c_Name ` set (a_newInits st) \<inter> c_Name ` set (pod_InitContainers pod) = {} \<and>
     initContainerName ` p_ShimName ` set (a_applied st) \<subseteq> c_Name ` set (a_newInits st)"

lemma c_Name_helperContainer [simp]:
  "c_Name (helperContainer p False) = initContainerName (p_ShimName p)"
  "c_Name (helperContainer p True) = refreshContainerName (p_ShimName p)"
  by (simp_all add: helperContainer_def)

interpretation nam: apply_invariant names_inv "\<lambda>_ _. True"
proof unfold_locales
  show "names_inv pod (apply_start pod)" for pod
    by (simp add: names_inv_def apply_start_def)
  show "names_inv pod st \<Longrightarrow> names_inv pod (st\<lparr>a_warnings := ws\<rparr>)" for pod st ws
    by (simp add: names_inv_def)
next
  fix pod :: Pod and plans st plan targets requested tws ws
  assume r: "apply_reach pod plans st" and inv: "names_inv pod st"
    and c: "checkCollisions (a_pod st) plan (a_newInits st) targets = None"
  from c have "check_inits (a_pod st) (a_newInits st)
      [initContainerName (p_ShimName plan), refreshContainerName (p_ShimName plan)] = None"
    by (simp add: checkCollisions_None)
  then have fresh: "initContainerName (p_ShimName plan) \<notin> c_Name ` (set (pod_InitContainers pod) \<union> set (a_newInits st))"
      "refreshContainerName (p_ShimName plan) \<notin> c_Name ` (set (pod_InitContainers pod) \<union> set (a_newInits st))"
    unfolding check_inits_None effect_inv_fields(4) [OF reach_effect [OF r]] by auto
  then have "p_ShimName plan \<notin> p_ShimName ` set (a_applied st)" using inv by (auto simp: names_inv_def image_subset_iff)
  with fresh show "names_inv pod
      \<lparr>a_pod = inject_pod (a_pod st) plan targets,
       a_newInits = a_newInits st @ [helperContainer plan False, helperContainer plan True],
       a_addedBytes = a_addedBytes st + renderedBytes plan, a_applied = a_applied st @ [plan], a_warnings = ws\<rparr>"
    using inv by (auto simp: names_inv_def name_simps image_subset_iff)
qed

lemma reach_names: "apply_reach pod plans st \<Longrightarrow> names_inv pod st"
  by (rule nam.holds) (simp_all add: list.pred_True)

subsection \<open>Volumes\<close>

definition socket_inv :: "Pod \<Rightarrow> apply_state \<Rightarrow> bool" where
  "socket_inv pod st \<longleftrightarrow>
     (\<forall>p\<in>set (a_applied st). \<exists>v csi. findVolume (a_pod st) socketVolumeName = Some v \<and>
        vs_CSI v = Some csi \<and> csi_Driver csi = p_CSIDriver p)"

lemma findVolume_inject:
  "findVolume pod name = Some v \<Longrightarrow> findVolume (inject_pod pod plan ts) name = Some v"
  by (auto simp: findVolume_def find_append frame_simps pod_Volumes_addVolumes)

lemma socket_after_inject:
  assumes "checkSocketVolume pod plan = None"
  shows "\<exists>v csi. findVolume (inject_pod pod plan ts) socketVolumeName = Some v \<and>
    vs_CSI v = Some csi \<and> csi_Driver csi = p_CSIDriver plan"
proof (cases "findVolume pod socketVolumeName")
  case None
  then have "findVolume (inject_pod pod plan ts) socketVolumeName = Some (v_Source (socket_volume plan))"
    by (auto simp: findVolume_def find_append frame_simps pod_Volumes_addVolumes)
  then show ?thesis by (simp add: socket_volume_def empty_source_def)
next
  case (Some v)
  with assms findVolume_inject [OF Some] show ?thesis by (auto simp: checkSocketVolume_None)
qed

interpretation soc: apply_invariant socket_inv "\<lambda>_ _. True"
proof unfold_locales
  fix pod :: Pod and plans st plan targets requested tws ws
  assume inv: "socket_inv pod st"
    and c: "checkCollisions (a_pod st) plan (a_newInits st) targets = None"
  from c have "checkSocketVolume (a_pod st) plan = None" by (simp add: checkCollisions_None)
  from socket_after_inject [OF this, of targets] inv
  show "socket_inv pod
      \<lparr>a_pod = inject_pod (a_pod st) plan targets,
       a_newInits = a_newInits st @ [helperContainer plan False, helperContainer plan True],
       a_addedBytes = a_addedBytes st + renderedBytes plan, a_applied = a_applied st @ [plan], a_warnings = ws\<rparr>"
    unfolding socket_inv_def by (auto dest!: bspec findVolume_inject [of "a_pod st" _ _ plan targets])
qed (auto simp: socket_inv_def apply_start_def)

lemma reach_socket: "apply_reach pod plans st \<Longrightarrow> socket_inv pod st"
  by (rule soc.holds) (simp_all add: list.pred_True)

definition token_name_free :: "Plan \<Rightarrow> bool" where
  "token_name_free p \<longleftrightarrow>
     tok_VolumeName (p_Token p) \<notin> {socketVolumeName, configVolumeName (p_ShimName p)}"

definition volumes_inv :: "Pod \<Rightarrow> apply_state \<Rightarrow> bool" where
  "volumes_inv pod st \<longleftrightarrow>
     (distinct (map v_Name (pod_Volumes pod)) \<and> list_all token_name_free (a_applied st) \<longrightarrow>
      distinct (map v_Name (pod_Volumes (a_pod st))))"

interpretation vol: apply_invariant volumes_inv "\<lambda>_ _. True"
proof unfold_locales
  fix pod :: Pod and plans st plan targets requested tws ws
  assume inv: "volumes_inv pod st"
    and c: "checkCollisions (a_pod st) plan (a_newInits st) targets = None"
  then show "volumes_inv pod
      \<lparr>a_pod = inject_pod (a_pod st) plan targets,
       a_newInits = a_newInits st @ [helperContainer plan False, helperContainer plan True],
       a_addedBytes = a_addedBytes st + renderedBytes plan, a_applied = a_applied st @ [plan], a_warnings = ws\<rparr>"
    by (auto simp: volumes_inv_def frame_simps pod_Volumes_addVolumes checkCollisions_None findVolume_None_iff
        token_name_free_def name_simps)
qed (auto simp: volumes_inv_def apply_start_def)

subsection \<open>Targets\<close>

definition carries :: "Plan \<Rightarrow> Container \<Rightarrow> bool" where
  "carries p c \<longleftrightarrow>
     set (plan_mounts p) \<subseteq> set (c_VolumeMounts c) \<and> ev_Name ` set (p_Env p) \<subseteq> ev_Name ` set (c_Env c)"

definition targets_inv :: "Pod \<Rightarrow> apply_state \<Rightarrow> bool" where
  "targets_inv pod st \<longleftrightarrow>
     (\<forall>p\<in>set (a_applied st). \<forall>t\<in>set (plan_targets pod p).
        \<exists>c\<in>set (pod_Containers (a_pod st)). c_Name c = t \<and> carries p c)"

lemma carries_inject_container: "carries p (fst (inject_container p c))"
  using new_env_names(2) [of "ev_Name ` set (c_Env c)" "p_Env p"]
  by (auto simp: carries_def inject_container_eq)

lemma carries_extends: "carries p c \<Longrightarrow> container_extends c c' \<Longrightarrow> carries p c'"
  unfolding carries_def using container_extends_subsets [of c c'] by blast

lemma extends_member:
  "list_all2 container_extends cs cs' \<Longrightarrow> c \<in> set cs \<Longrightarrow> \<exists>c'\<in>set cs'. container_extends c c'"
  by (induction rule: list_all2_induct) auto

lemma carries_list_extends:
  assumes "list_all2 container_extends cs cs'" "\<exists>c\<in>set cs. c_Name c = t \<and> carries p c"
  shows "\<exists>c\<in>set cs'. c_Name c = t \<and> carries p c"
  using assms extends_member carries_extends container_extends_name by metis

lemma replace_first_member: "findContainer cs name = Some c \<Longrightarrow> c' \<in> set (replace_first name c' cs)"
  by (induction cs) (auto simp: findContainer_def split: if_splits)

lemma injectIntoContainers_carries:
  assumes "t \<in> set targets" "t \<in> set (map c_Name cs)"
  shows "\<exists>c\<in>set (fst (injectIntoContainers cs p targets)). c_Name c = t \<and> carries p c"
  using assms
proof (induction targets arbitrary: cs)
  case (Cons name names)
  show ?case
  proof (cases "findContainer cs name")
    case None
    then have "t \<in> set names" using Cons.prems by (auto simp: findContainer_None)
    with Cons.IH [OF _ Cons.prems(2)] None show ?thesis by (simp add: fst_injectIntoContainers_Cons)
  next
    case (Some c)
    let ?c = "fst (inject_container p c)"
    let ?cs = "replace_first name ?c cs"
    have "map c_Name ?cs = map c_Name cs"
      by (rule extends_names [OF replace_first_extends [OF Some inject_container_extends]])
    moreover have "c_Name c = name" using Some by (auto simp: findContainer_def dest: find_Some_in)
    moreover have "\<exists>x\<in>set ?cs. c_Name x = c_Name c \<and> carries p x"
      by (rule bexI [OF _ replace_first_member [OF Some]]) (simp add: carries_inject_container)
    ultimately have "\<exists>x\<in>set (fst (injectIntoContainers ?cs p names)). c_Name x = t \<and> carries p x"
      using Cons carries_list_extends [OF injectIntoContainers_extends]
      by (metis set_ConsD)
    then show ?thesis unfolding fst_injectIntoContainers_Cons by (simp add: Some)
  qed
qed simp

lemma reach_targets_same:
  assumes "apply_reach pod plans st"
  shows "plan_targets (a_pod st) p = plan_targets pod p"
    "requested_containers (a_pod st) p = requested_containers pod p"
proof -
  note e = effect_inv_fields [OF reach_effect [OF assms]]
  have "ContainersAnnotation \<notin> fst ` set (concat (map plan_annotations (a_applied st)))"
    by (auto simp: name_simps dest!: plan_annotations_keys [OF imageI])
  then have a: "smap_lookup (pod_Annotations (a_pod st)) ContainersAnnotation
      = smap_lookup (pod_Annotations pod) ContainersAnnotation"
    unfolding e store_all_def by (rule sm.lookup_store_all_other)
  then show "plan_targets (a_pod st) p = plan_targets pod p"
    by (intro plan_targets_cong extends_names [OF e(5)])
  from a show "requested_containers (a_pod st) p = requested_containers pod p"
    by (simp add: requested_containers_def containersFromAnnotation_def)
qed

interpretation tar: apply_invariant targets_inv "\<lambda>_ _. True"
proof unfold_locales
  fix pod :: Pod and plans st plan targets requested tws ws
  assume r: "apply_reach pod plans st" and inv: "targets_inv pod st"
    and t: "resolveTargets (a_pod st) plan = (targets, requested, tws)"
  let ?cs = "fst (injectIntoContainers (pod_Containers (a_pod st)) plan targets)"
  have ts: "targets = plan_targets pod plan"
    using t reach_targets_same(1) [OF r, of plan] by (simp add: plan_targets_def)
  have "set targets \<subseteq> set (map c_Name (pod_Containers (a_pod st)))"
    using t plan_targets_eq [of "a_pod st" plan] by (auto simp: plan_targets_def split: if_splits)
  then have "\<exists>c\<in>set ?cs. c_Name c = x \<and> carries plan c" if "x \<in> set targets" for x
    using injectIntoContainers_carries that by blast
  with inv show "targets_inv pod
      \<lparr>a_pod = inject_pod (a_pod st) plan targets,
       a_newInits = a_newInits st @ [helperContainer plan False, helperContainer plan True],
       a_addedBytes = a_addedBytes st + renderedBytes plan, a_applied = a_applied st @ [plan], a_warnings = ws\<rparr>"
    using carries_list_extends [OF injectIntoContainers_extends [of "pod_Containers (a_pod st)" plan targets]]
    by (simp add: targets_inv_def frame_simps ts)
qed (auto simp: targets_inv_def apply_start_def)

lemma reach_targets: "apply_reach pod plans st \<Longrightarrow> targets_inv pod st"
  by (rule tar.holds) (simp_all add: list.pred_True)

subsection \<open>The containers, exactly\<close>

text \<open>
  The mounts a plan brings to a container, written out: the token directory, read-only, and one
  read-only mount per file, numbered in the order of the files.
\<close>

definition target_mounts :: "Plan \<Rightarrow> VolumeMount list" where
  "target_mounts p =
     \<lparr>vm_Name = tok_VolumeName (p_Token p), vm_MountPath = tok_MountPath (p_Token p), vm_SubPath = [],
      vm_ReadOnly = True, vm_Rest = []\<rparr> #
     map (\<lambda>i. \<lparr>vm_Name = ''oidcshim-config-'' @ p_ShimName p, vm_MountPath = rf_Path (p_Files p ! i),
               vm_SubPath = ''files/'' @ itoa i, vm_ReadOnly = True, vm_Rest = []\<rparr>)
       [0..<length (p_Files p)]"

text \<open>
  A container after the injection of a list of plans: all their mounts, and of their variables the first of
  each name that the container did not define.
\<close>

definition container_after :: "Plan list \<Rightarrow> Container \<Rightarrow> Container" where
  "container_after ps c =
     c\<lparr>c_Env := c_Env c @ new_env (ev_Name ` set (c_Env c)) (concat (map p_Env ps)),
       c_VolumeMounts := c_VolumeMounts c @ concat (map target_mounts ps)\<rparr>"

text \<open>
  The names of the containers a plan is meant for: those of the annotation, or else of the shim, as far as they
  exist, and all containers when neither names any. A name that is requested several times is listed several times.
\<close>

definition intended :: "Pod \<Rightarrow> Plan \<Rightarrow> string list" where
  "intended pod p =
     (let annotated = (case smap_lookup (pod_Annotations pod) ContainersAnnotation of
            None \<Rightarrow> [] | Some raw \<Rightarrow> trimmed_fields raw);
          requested = (if annotated = [] then p_Containers p else annotated);
          names = map c_Name (pod_Containers pod) in
      if requested = [] then names else filter (\<lambda>n. n \<in> set names) requested)"

text \<open>
  The plans a container receives, in order, each as often as its name is intended; only the first container of a
  name is ever found.
\<close>

definition hits :: "string list \<Rightarrow> string list \<Rightarrow> nat \<Rightarrow> nat" where
  "hits names targets i = (if names ! i \<in> set (take i names) then 0 else count_list targets (names ! i))"

definition received :: "Pod \<Rightarrow> Plan list \<Rightarrow> nat \<Rightarrow> Plan list" where
  "received pod ps i =
     concat (map (\<lambda>p. replicate (hits (map c_Name (pod_Containers pod)) (intended pod p) i) p) ps)"

definition injected_containers :: "Pod \<Rightarrow> Plan list \<Rightarrow> Container list" where
  "injected_containers pod ps =
     map (\<lambda>i. container_after (received pod ps i) (pod_Containers pod ! i)) [0..<length (pod_Containers pod)]"

lemma intended_targets: "plan_targets pod p = intended pod p"
  by (auto simp: plan_targets_eq intended_def Let_def requested_containers_def containersFromAnnotation_def
      split: option.split)

lemma file_mounts_nth:
  "j < length fs \<Longrightarrow> file_mounts shim i fs ! j =
     \<lparr>vm_Name = configVolumeName shim, vm_MountPath = rf_Path (fs ! j), vm_SubPath = filesSubPath (i + j),
      vm_ReadOnly = True, vm_Rest = []\<rparr>"
  by (induction fs arbitrary: i j) (auto simp: nth_Cons split: nat.split)

lemma length_file_mounts [simp]: "length (file_mounts shim i fs) = length fs"
  by (induction fs arbitrary: i) auto

lemma plan_mounts_target: "plan_mounts p = target_mounts p"
  by (rule nth_equalityI)
    (auto simp: plan_mounts_def target_mounts_def plain_mount_def file_mounts_nth nth_Cons configVolumeName_def
      filesSubPath_def filesSubPathDir_def split: nat.split)

lemma new_env_append: "new_env ns (xs @ ys) = new_env ns xs @ new_env (ns \<union> ev_Name ` set xs) ys"
proof (induction xs arbitrary: ns)
  case (Cons x xs)
  have "insert (ev_Name x) ns \<union> ev_Name ` set xs = ns \<union> ev_Name ` set (x # xs)" by auto
  moreover have "ns \<union> ev_Name ` set xs = ns \<union> ev_Name ` set (x # xs)" if "ev_Name x \<in> ns" using that by auto
  ultimately show ?case using Cons.IH [of ns] Cons.IH [of "insert (ev_Name x) ns"] by auto
qed simp

lemma container_after_simps [simp]:
  "container_after [] c = c" "c_Name (container_after ps c) = c_Name c"
  by (simp_all add: container_after_def)

lemma container_after_append: "container_after qs (container_after ps c) = container_after (ps @ qs) c"
proof -
  have "ev_Name ` set (c_Env c @ new_env (ev_Name ` set (c_Env c)) es) = ev_Name ` set (c_Env c) \<union> ev_Name ` set es" for es
    using new_env_names(2) [of "ev_Name ` set (c_Env c)" es] by auto
  then show ?thesis by (simp add: container_after_def new_env_append)
qed

lemma inject_container_after: "fst (inject_container p c) = container_after [p] c"
  by (simp add: inject_container_eq container_after_def plan_mounts_target)

lemma replace_first_nth:
  assumes "findContainer cs name = Some c" "i < length cs"
  shows "replace_first name (f c) cs ! i =
    (if c_Name (cs ! i) = name \<and> name \<notin> set (take i (map c_Name cs)) then f (cs ! i) else cs ! i)"
  using assms
proof (induction cs arbitrary: i)
  case (Cons x cs)
  then show ?case by (cases i) (auto simp: findContainer_def split: if_splits)
qed simp

lemma length_replace_first [simp]: "length (replace_first name c cs) = length cs"
  by (induction cs) auto

lemma injectIntoContainers_exact:
  "fst (injectIntoContainers cs p ts) =
     map (\<lambda>i. container_after (replicate (hits (map c_Name cs) ts i) p) (cs ! i)) [0..<length cs]"
proof (induction ts arbitrary: cs)
  case Nil
  show ?case by (rule nth_equalityI) (simp_all add: hits_def)
next
  case (Cons name ts)
  show ?case
  proof (cases "findContainer cs name")
    case None
    then have "hits (map c_Name cs) (name # ts) i = hits (map c_Name cs) ts i" if "i < length cs" for i
      using that by (auto simp: hits_def findContainer_None)
    with Cons.IH [of cs] None show ?thesis unfolding fst_injectIntoContainers_Cons by simp
  next
    case (Some c)
    let ?cs = "replace_first name (container_after [p] c) cs"
    have names: "map c_Name ?cs = map c_Name cs"
      using extends_names [OF replace_first_extends [OF Some inject_container_extends [of c p]]]
      by (simp add: inject_container_after)
    have "container_after (replicate (hits (map c_Name ?cs) ts i) p) (?cs ! i) =
        container_after (replicate (hits (map c_Name cs) (name # ts) i) p) (cs ! i)" if i: "i < length cs" for i
      unfolding names replace_first_nth [OF Some i, of "container_after [p]"]
      using i by (auto simp: hits_def container_after_append)
    then show ?thesis
      using Cons.IH [of ?cs] unfolding fst_injectIntoContainers_Cons by (simp add: Some inject_container_after)
  qed
qed

definition containers_inv :: "Pod \<Rightarrow> apply_state \<Rightarrow> bool" where
  "containers_inv pod st \<longleftrightarrow> pod_Containers (a_pod st) = injected_containers pod (a_applied st)"

lemma names_injected_containers [simp]: "map c_Name (injected_containers pod ps) = map c_Name (pod_Containers pod)"
  by (rule nth_equalityI) (simp_all add: injected_containers_def)

interpretation con: apply_invariant containers_inv "\<lambda>_ _. True"
proof unfold_locales
  show "containers_inv pod (apply_start pod)" for pod
    unfolding containers_inv_def
    by (rule nth_equalityI) (simp_all add: apply_start_def injected_containers_def received_def)
  show "containers_inv pod st \<Longrightarrow> containers_inv pod (st\<lparr>a_warnings := ws\<rparr>)" for pod st ws
    by (simp add: containers_inv_def)
next
  fix pod :: Pod and plans st plan targets requested tws ws
  assume r: "apply_reach pod plans st" and inv: "containers_inv pod st"
    and t: "resolveTargets (a_pod st) plan = (targets, requested, tws)"
  have ts: "targets = intended pod plan"
    using t reach_targets_same(1) [OF r, of plan] by (simp add: plan_targets_def intended_targets [symmetric])
  have "fst (injectIntoContainers (injected_containers pod (a_applied st)) plan targets) =
      injected_containers pod (a_applied st @ [plan])"
    unfolding injectIntoContainers_exact names_injected_containers ts
    by (rule nth_equalityI) (simp_all add: injected_containers_def received_def container_after_append comp_def)
  with inv show "containers_inv pod
      \<lparr>a_pod = inject_pod (a_pod st) plan targets,
       a_newInits = a_newInits st @ [helperContainer plan False, helperContainer plan True],
       a_addedBytes = a_addedBytes st + renderedBytes plan, a_applied = a_applied st @ [plan], a_warnings = ws\<rparr>"
    by (simp add: containers_inv_def frame_simps)
qed

lemma reach_containers: "apply_reach pod plans st \<Longrightarrow> pod_Containers (a_pod st) = injected_containers pod (a_applied st)"
  using con.holds [of pod plans st] by (simp add: containers_inv_def list.pred_True)

subsection \<open>Mount paths\<close>

definition mounts_ok :: "Pod \<Rightarrow> bool" where
  "mounts_ok pod \<longleftrightarrow>
     distinct (map c_Name (pod_Containers pod)) \<and>
     list_all (\<lambda>c. distinct (map vm_MountPath (c_VolumeMounts c))) (pod_Containers pod)"

definition mounts_inv :: "Pod \<Rightarrow> apply_state \<Rightarrow> bool" where
  "mounts_inv pod st \<longleftrightarrow> (mounts_ok pod \<longrightarrow> mounts_ok (a_pod st))"

lemma file_mounts_paths: "map vm_MountPath (file_mounts shim i fs) = map rf_Path fs"
  by (induction fs arbitrary: i) auto

lemma plan_mounts_paths: "map vm_MountPath (plan_mounts p) = mountPaths p"
  by (simp add: plan_mounts_def mountPaths_def plain_mount_def file_mounts_paths)

lemma plan_wf_mountPaths: "plan_wf p \<Longrightarrow> distinct (mountPaths p)"
  by (simp add: plan_wf_def paths_ok_def mountPaths_def)

lemma plan_targets_distinct:
  assumes "distinct (map c_Name (pod_Containers pod))" "distinct (requested_containers pod plan)"
  shows "distinct (plan_targets pod plan)"
  using assms by (simp add: plan_targets_eq)

lemma mounts_ok_inject:
  assumes ok: "mounts_ok pod" and ts: "distinct ts" and paths: "distinct (mountPaths plan)"
    and free: "check_mounts pod (mountPaths plan) ts = None"
  shows "mounts_ok (inject_pod pod plan ts)"
proof -
  let ?inj = "\<lambda>c. if c_Name c \<in> set ts then fst (inject_container plan c) else c"
  have dis: "distinct (map c_Name (pod_Containers pod))" using ok by (simp add: mounts_ok_def)
  have "distinct (map vm_MountPath (c_VolumeMounts (?inj c)))" if c: "c \<in> set (pod_Containers pod)" for c
  proof (cases "c_Name c \<in> set ts")
    case True
    have "findContainer (pod_Containers pod) (c_Name c) = Some c"
      using c by (simp add: findContainer_distinct [OF dis])
    with free True have "set (mountPaths plan) \<inter> vm_MountPath ` set (c_VolumeMounts c) = {}"
      by (auto simp: check_mounts_None)
    moreover have "vm_MountPath ` set (plan_mounts plan) = set (mountPaths plan)"
      by (metis plan_mounts_paths set_map)
    ultimately have "distinct (map vm_MountPath (c_VolumeMounts c @ plan_mounts plan))"
      using c ok paths by (auto simp: mounts_ok_def list_all_iff plan_mounts_paths)
    with True show ?thesis by (simp add: inject_container_eq)
  next
    case False
    with c ok show ?thesis by (simp add: mounts_ok_def list_all_iff)
  qed
  then have "list_all (\<lambda>c. distinct (map vm_MountPath (c_VolumeMounts c))) (map ?inj (pod_Containers pod))"
    unfolding list_all_iff set_map by blast
  moreover have "distinct (map c_Name (fst (injectIntoContainers (pod_Containers pod) plan ts)))"
    using dis by simp
  ultimately show ?thesis
    by (simp only: mounts_ok_def frame_simps injectIntoContainers_distinct [OF dis ts] simp_thms)
qed

interpretation mnt: apply_invariant mounts_inv
  "\<lambda>pod p. plan_wf p \<and> distinct (requested_containers pod p)"
proof unfold_locales
  fix pod :: Pod and plans st plan targets requested tws ws
  assume r: "apply_reach pod plans st" and inv: "mounts_inv pod st"
    and ok: "plan_wf plan \<and> distinct (requested_containers pod plan)"
    and t: "resolveTargets (a_pod st) plan = (targets, requested, tws)"
    and c: "checkCollisions (a_pod st) plan (a_newInits st) targets = None"
  have "mounts_ok (inject_pod (a_pod st) plan targets)" if pod: "mounts_ok pod"
  proof (rule mounts_ok_inject)
    show "mounts_ok (a_pod st)" using inv pod by (simp add: mounts_inv_def)
    have "targets = plan_targets pod plan"
      using t reach_targets_same(1) [OF r, of plan] by (simp add: plan_targets_def)
    then show "distinct targets" using pod ok plan_targets_distinct by (simp add: mounts_ok_def)
    show "distinct (mountPaths plan)" using ok plan_wf_mountPaths by blast
    show "check_mounts (a_pod st) (mountPaths plan) targets = None" using c by (simp add: checkCollisions_None)
  qed
  then show "mounts_inv pod
      \<lparr>a_pod = inject_pod (a_pod st) plan targets,
       a_newInits = a_newInits st @ [helperContainer plan False, helperContainer plan True],
       a_addedBytes = a_addedBytes st + renderedBytes plan, a_applied = a_applied st @ [plan], a_warnings = ws\<rparr>"
    by (simp add: mounts_inv_def)
qed (auto simp: mounts_inv_def apply_start_def)

end
