(* ===== verification/InjectionProps.thy ===== *)
theory InjectionProps
  imports InjectionCorrect
begin

text \<open>
  The properties of \<open>Apply\<close> (\<open>internal/injection/mutate.go\<close>, \<open>collisions.go\<close>), read off the loop
  invariants of \<open>InjectionCorrect\<close>, with a sample pod on which the witnesses evaluate them.
\<close>

section \<open>A sample pod\<close>

definition sample_container :: "string \<Rightarrow> Container" where
  "sample_container name =
     \<lparr>c_Name = name, c_Image = ''img'', c_ImagePullPolicy = [], c_Args = [],
      c_Env = [\<lparr>ev_Name = ''HOME'', ev_Value = ''/root'', ev_Rest = []\<rparr>],
      c_VolumeMounts =
        [\<lparr>vm_Name = ''data'', vm_MountPath = ''/data'', vm_SubPath = [], vm_ReadOnly = False, vm_Rest = []\<rparr>],
      c_RestartPolicy = None, c_SecurityContext = None, c_Resources = no_resources, c_Rest = []\<rparr>"

definition sample_pod :: Pod where
  "sample_pod =
     \<lparr>pod_Name = ''p'', pod_GenerateName = [], pod_Namespace = ''ns'', pod_Annotations = [], pod_Labels = [],
      pod_ServiceAccountName = ''sa'',
      pod_Volumes = [\<lparr>v_Name = ''data'', v_Source = empty_source\<rparr>], pod_InitContainers = [],
      pod_Containers = [sample_container ''app'', sample_container ''proxy''], pod_Rest = ''rest''\<rparr>"

definition sample_out :: Pod where
  "sample_out = fst (Apply_pod sample_pod [sample_plan])"

lemma sample_plan_fields:
  "p_ShimName sample_plan = ''gcp''" "p_Containers sample_plan = []" "p_Token sample_plan = sample_token"
  "p_ShimKey sample_plan = ''OIDCShim/ns/gcp''"
  by (simp_all add: sample_plan_def sample_shim_def sample_spec_def )

lemma sample_plan_files:
  "p_Files sample_plan = [\<lparr>rf_Path = ''/etc/key'', rf_Content = ''/var/run/secrets/oidcshim/gcp/token'', rf_Mode = ''0444''\<rparr>]"
  by (simp add: sample_plan_def)

lemma sample_bytes: "renderedBytes sample_plan \<le> MaxPodAnnotationBytes"
  by (simp add: renderedBytes_def sample_plan_def MaxPodAnnotationBytes_def)

lemma sample_targets: "resolveTargets sample_pod sample_plan = ([''app'', ''proxy''], [], [])"
  by (simp add: resolveTargets_def requested_containers_def containersFromAnnotation_def sample_plan_fields
      sample_pod_def smap_lookup_def sample_container_def)

lemma sample_paths: "mountPaths sample_plan = [''/var/run/secrets/oidcshim/gcp'', ''/etc/key'']"
  by (simp add: mountPaths_def sample_plan_fields sample_token_eq) (simp add: sample_plan_def)

lemma sample_no_collision: "checkCollisions sample_pod sample_plan [] [''app'', ''proxy''] = None"
  by (simp add: checkCollisions_def checkSocketVolume_def findVolume_def sample_pod_def
      sample_plan_fields sample_token_eq socketVolumeName_def configVolumeName_def hasContainerNamed_def
      findContainer_def sample_container_def sample_paths hasMountPath_def)

lemma sample_injects:
  "snd (injectIntoContainers (pod_Containers sample_pod) sample_plan [''app'', ''proxy'']) = []"
  by (simp add: sample_pod_def findContainer_def sample_container_def inject_container_def sample_plan_def
      hasEnvNamed_def split: prod.split)

lemma sample_applied: "Apply_pod sample_pod [sample_plan] = (sample_out, [sample_plan], [])"
proof -
  have "smap_get (pod_Annotations sample_pod) StatusAnnotation \<noteq> StatusInjected"
      "annotationBytes sample_pod = 0"
    by (simp_all add: sample_pod_def smap_get_def smap_lookup_def StatusInjected_def annotationBytes_def)
  then have "snd (Apply_pod sample_pod [sample_plan]) = ([sample_plan], [])"
    using sample_bytes sample_injects
    by (auto simp: Apply_pod_def apply_plan_def apply_start_def sample_targets sample_no_collision Let_def
        frame_simps simp del: injectIntoContainers.simps split: prod.split)
  then show ?thesis by (simp add: sample_out_def prod_eq_iff)
qed

section \<open>The effect of Apply\<close>

text \<open>
  (C1) The exact effect of \<open>Apply\<close>. The applied plans are a subsequence of the plans given, and
  when none is applied the pod is returned as it came. Otherwise the pod returned differs from the
  one given only as follows: the rendered content of the applied plans, the status and the shim
  list are stored in the annotations; one label per applied plan; the socket volume once and two
  volumes per plan appended after the existing ones; an init container and a sidecar per plan in
  front of the existing init containers; and every container keeps all it had, in place, and receives exactly
  the mounts, and the variables of names it did not define, of the applied plans that are meant for it, in
  order: those that name it in the annotation of the pod or else in the shim, or that name no container at
  all. A container that no applied plan is meant for is unchanged.
\<close>

theorem Apply_effect:
  "case Apply_pod pod plans of (pod', applied, ws) \<Rightarrow>
     subseq applied plans \<and>
     (if applied = [] then pod' = pod
      else pod' = pod\<lparr>
          pod_Annotations := store_all
            (concat (map plan_annotations applied) @
             [(StatusAnnotation, StatusInjected), (ShimsAnnotation, join '','' (map p_ShimKey applied))])
            (pod_Annotations pod),
          pod_Labels := store_all (map plan_label applied) (pod_Labels pod),
          pod_Volumes := pod_Volumes pod @ injected_volumes pod applied,
          pod_InitContainers := concat (map helpers applied) @ pod_InitContainers pod,
          pod_Containers := injected_containers pod applied\<rparr>)"
proof -
  obtain pod' applied ws where A: "Apply_pod pod plans = (pod', applied, ws)"
    by (cases "Apply_pod pod plans") auto
  show ?thesis
  proof (cases "applied = []")
    case True
    then have "pod' = pod"
      using A apply_reach_unchanged [OF apply_reach_fold] by (auto simp: Apply_pod_def Let_def split: if_splits)
    with True A show ?thesis by simp
  next
    case False
    then obtain st where st: "apply_reach pod plans st" "pod' = apply_finish st" "applied = a_applied st"
      using Apply_pod_injected [OF A] by metis
    note sub = apply_reach_subseq [OF st(1)]
    from reach_effect [OF st(1)] obtain cs where
      inits: "a_newInits st = concat (map helpers (a_applied st))" and
      pod: "a_pod st = pod\<lparr>
         pod_Annotations := store_all (concat (map plan_annotations (a_applied st))) (pod_Annotations pod),
         pod_Labels := store_all (map plan_label (a_applied st)) (pod_Labels pod),
         pod_Volumes := pod_Volumes pod @ injected_volumes pod (a_applied st),
         pod_Containers := cs\<rparr>"
      by (auto simp: effect_inv_def)
    have "cs = injected_containers pod (a_applied st)" using reach_containers [OF st(1)] by (simp add: pod)
    with inits pod False A sub st(3) show ?thesis
      by (simp add: st(2) apply_finish_def Let_def setAnnotation_def)
  qed
qed

section \<open>Everything an applied plan needs is there\<close>

lemma Apply_reached:
  assumes "Apply_pod pod plans = (pod', applied, ws)" "p \<in> set applied"
  obtains st where "apply_reach pod plans st" "pod' = apply_finish st" "applied = a_applied st"
    "p \<in> set (a_applied st)"
  using Apply_pod_injected [OF assms(1)] assms(2) by (metis empty_iff list.set(1))

lemma plan_annotation_kept:
  assumes r: "apply_reach pod plans st" and p: "p \<in> set (a_applied st)"
    and kv: "(k, v) \<in> set (plan_annotations p)"
  shows "smap_lookup (pod_Annotations (apply_finish st)) k = Some v"
proof -
  have d: "distinct (map p_ShimName (a_applied st))"
    using reach_names [OF r] by (simp add: names_inv_def)
  have "(k, v) \<in> set (concat (map plan_annotations (a_applied st)))" using p kv by auto
  then have "smap_lookup (pod_Annotations (a_pod st)) k = Some v"
    unfolding effect_inv_fields(1) [OF reach_effect [OF r]] store_all_def
    by (rule sm.lookup_store_all [OF plans_annotations_distinct [OF d]])
  moreover have "k \<noteq> StatusAnnotation" "k \<noteq> ShimsAnnotation"
    using plan_annotations_keys [of k p] kv by (force simp: name_simps)+
  ultimately show ?thesis by (simp add: frame_simps sm.lookup_store)
qed

lemma plan_label_kept:
  assumes r: "apply_reach pod plans st" and p: "p \<in> set (a_applied st)"
  shows "smap_lookup (pod_Labels (apply_finish st)) (fst (plan_label p)) = Some (snd (plan_label p))"
proof -
  have "distinct (map ShimLabelKey (map p_ShimName (a_applied st)))"
    using reach_names [OF r] by (simp add: names_inv_def distinct_map inj_on_def name_simps)
  then have "distinct (map fst (map plan_label (a_applied st)))" by (simp add: plan_label_def comp_def)
  then have "smap_lookup (store_all (map plan_label (a_applied st)) (pod_Labels pod)) (fst (plan_label p))
      = Some (snd (plan_label p))"
    unfolding store_all_def by (rule sm.lookup_store_all) (use p in auto)
  then show ?thesis by (simp add: frame_simps effect_inv_fields(2) [OF reach_effect [OF r]])
qed

text \<open>
  (C2) An applied plan is wired up completely. Its init container and its sidecar are on the pod; the
  three volumes they mount exist, and the socket volume is served by the CSI driver the plan asked
  for, even when another plan or the pod itself brought it; the helper configuration and every
  rendered file are in the annotations that the configuration volume reads; the pod carries the label
  of the shim; and every target container has all the mounts of the plan and defines every
  variable of it.
\<close>

theorem Apply_wiring:
  assumes "Apply_pod pod plans = (pod', applied, ws)" "p \<in> set applied"
  shows "set (helpers p) \<subseteq> set (pod_InitContainers pod') \<and>
    set (plan_volumes p) \<subseteq> set (pod_Volumes pod') \<and>
    (\<exists>v csi. findVolume pod' socketVolumeName = Some v \<and> vs_CSI v = Some csi \<and>
       csi_Driver csi = p_CSIDriver p) \<and>
    smap_lookup (pod_Annotations pod') (HelperConfAnnotation (p_ShimName p)) = Some (p_HelperConf p) \<and>
    (\<forall>i<length (p_Files p). smap_lookup (pod_Annotations pod') (fileAnnotation (p_ShimName p) i) =
       Some (rf_Content (p_Files p ! i))) \<and>
    smap_lookup (pod_Labels pod') (ShimLabelKey (p_ShimName p)) =
      Some (if p_ClusterScoped p then ShimLabelValueCluster else ShimLabelValueNamespaced) \<and>
    (\<forall>t\<in>set (plan_targets pod p). \<exists>c\<in>set (pod_Containers pod'). c_Name c = t \<and> carries p c)"
proof (rule Apply_reached [OF assms])
  fix st
  assume r: "apply_reach pod plans st" and st: "pod' = apply_finish st" and p: "p \<in> set (a_applied st)"
  note e = reach_effect [OF r]
  have "a_newInits st = concat (map helpers (a_applied st))" using e by (simp add: effect_inv_def)
  then have 1: "set (helpers p) \<subseteq> set (pod_InitContainers pod')" using p by (auto simp: st frame_simps)
  have 2: "set (plan_volumes p) \<subseteq> set (pod_Volumes pod')"
    using p by (auto simp: st frame_simps effect_inv_fields(3) [OF e] injected_volumes_def)
  have 3: "\<exists>v csi. findVolume pod' socketVolumeName = Some v \<and> vs_CSI v = Some csi \<and> csi_Driver csi = p_CSIDriver p"
    using reach_socket [OF r] p by (simp add: socket_inv_def st findVolume_def frame_simps)
  have 4: "smap_lookup (pod_Annotations pod') (HelperConfAnnotation (p_ShimName p)) = Some (p_HelperConf p)"
    unfolding st by (rule plan_annotation_kept [OF r p]) (simp add: plan_annotations_def)
  have 5: "smap_lookup (pod_Annotations pod') (fileAnnotation (p_ShimName p) i) = Some (rf_Content (p_Files p ! i))"
    if "i < length (p_Files p)" for i
    unfolding st
    by (rule plan_annotation_kept [OF r p])
      (use file_annotations_nth [OF that, of "p_ShimName p" 0] in \<open>simp add: plan_annotations_def\<close>)
  have 6: "smap_lookup (pod_Labels pod') (ShimLabelKey (p_ShimName p)) =
      Some (if p_ClusterScoped p then ShimLabelValueCluster else ShimLabelValueNamespaced)"
    using plan_label_kept [OF r p] by (simp add: plan_label_def st)
  have 7: "\<forall>t\<in>set (plan_targets pod p). \<exists>c\<in>set (pod_Containers pod'). c_Name c = t \<and> carries p c"
    using reach_targets [OF r] p by (simp add: targets_inv_def st frame_simps)
  from 1 2 3 4 5 6 7 show ?thesis by blast
qed

theorem Apply_wiring_witness:
  "smap_lookup (pod_Annotations sample_out) (fileAnnotation ''gcp'' 0) = Some ''/var/run/secrets/oidcshim/gcp/token'' \<and>
   (\<exists>c\<in>set (pod_Containers sample_out). c_Name c = ''app'' \<and> carries sample_plan c)"
  using Apply_wiring [OF sample_applied, of sample_plan]
  by (simp add: sample_plan_fields sample_plan_files plan_targets_def sample_targets)

text \<open>
  A mount delivers a content when the volume it names reads, at the sub path of the mount, an
  annotation of the pod that holds the content.
\<close>

definition delivers :: "Pod \<Rightarrow> VolumeMount \<Rightarrow> string \<Rightarrow> 32 word option \<Rightarrow> bool" where
  "delivers pod m content mode \<longleftrightarrow>
     (\<exists>src items item key. findVolume pod (vm_Name m) = Some src \<and> vs_DownwardAPI src = Some items \<and>
        item \<in> set items \<and> da_Path item = vm_SubPath m \<and> da_FieldPath item = annotationFieldRef key \<and>
        da_Mode item = mode \<and> smap_lookup (pod_Annotations pod) key = Some content)"

lemma file_items_nth:
  "j < length fs \<Longrightarrow> file_items shim i fs ! j =
     \<lparr>da_Path = filesSubPath (i + j), da_FieldPath = annotationFieldRef (fileAnnotation shim (i + j)),
      da_Mode = Some (case parseFileMode (rf_Mode (fs ! j)) of Some m \<Rightarrow> m | None \<Rightarrow> 0)\<rparr>"
  by (induction fs arbitrary: i j) (auto simp: nth_Cons split: nat.split)

lemma length_file_items [simp]: "length (file_items shim i fs) = length fs"
  by (induction fs arbitrary: i) auto

lemma findVolume_distinct:
  assumes "distinct (map v_Name (pod_Volumes pod))" "v \<in> set (pod_Volumes pod)"
  shows "findVolume pod (v_Name v) = Some (v_Source v)"
proof -
  obtain w where w: "find (\<lambda>x. v_Name x = v_Name v) (pod_Volumes pod) = Some w"
    using assms(2) by (cases "find (\<lambda>x. v_Name x = v_Name v) (pod_Volumes pod)") (auto simp: find_None_all)
  with assms have "w = v" by (auto simp: distinct_map inj_on_def dest: find_Some_in)
  with w show ?thesis by (simp add: findVolume_def)
qed

lemma reach_volumes:
  assumes "apply_reach pod plans st" "list_all token_name_free (a_applied st)" "distinct (map v_Name (pod_Volumes pod))"
  shows "distinct (map v_Name (pod_Volumes (apply_finish st)))"
  using vol.holds [OF assms(1)] assms(2,3) by (simp add: volumes_inv_def frame_simps list.pred_True)

lemma reach_list_all:
  assumes "apply_reach pod plans st" "list_all P plans"
  shows "list_all P (a_applied st)"
  unfolding list_all_iff
proof
  fix p assume "p \<in> set (a_applied st)"
  then obtain q where "q \<in> set plans" "p = q" using list_emb_set [OF apply_reach_subseq [OF assms(1)]] by blast
  with assms(2) show "P p" by (simp add: list_all_iff)
qed

lemma delivers_file:
  assumes i: "i < length (p_Files p)" and dis: "distinct (map v_Name (pod_Volumes pod))"
    and vol: "config_volume p \<in> set (pod_Volumes pod)"
    and ann: "smap_lookup (pod_Annotations pod) (fileAnnotation (p_ShimName p) i) = Some (rf_Content (p_Files p ! i))"
    and mode: "parseFileMode (rf_Mode (p_Files p ! i)) = Some w"
  shows "\<exists>m\<in>set (plan_mounts p). vm_MountPath m = rf_Path (p_Files p ! i) \<and> vm_ReadOnly m \<and>
    delivers pod m (rf_Content (p_Files p ! i)) (Some w)"
proof -
  let ?m = "file_mounts (p_ShimName p) 0 (p_Files p) ! i"
  let ?item = "file_items (p_ShimName p) 0 (p_Files p) ! i"
  have m: "?m \<in> set (plan_mounts p)" using i by (simp add: plan_mounts_def)
  have item: "?item \<in> set (file_items (p_ShimName p) 0 (p_Files p))" using i by simp
  have "findVolume pod (configVolumeName (p_ShimName p)) = Some (v_Source (config_volume p))"
    using findVolume_distinct [OF dis vol] by simp
  with item ann mode i have "delivers pod ?m (rf_Content (p_Files p ! i)) (Some w)"
    unfolding delivers_def
    by (intro exI [of _ "v_Source (config_volume p)"] exI [of _ "the (vs_DownwardAPI (v_Source (config_volume p)))"]
        exI [of _ ?item] exI [of _ "fileAnnotation (p_ShimName p) i"])
      (simp add: file_mounts_nth file_items_nth config_volume_def)
  with m i show ?thesis by (intro bexI [OF _ m]) (simp add: file_mounts_nth)
qed

text \<open>
  (C13) Files reach the workload. When the volume names of the pod are distinct and no token volume takes
  a name reserved for the injection, every target container of an applied plan has, for each file of
  the plan, a read-only mount at the path of the file whose volume reads exactly the rendered content,
  with the mode of the file.
\<close>

theorem Apply_delivers_files:
  assumes "Apply_pod pod plans = (pod', applied, ws)" "p \<in> set applied" "plan_wf p"
    and "distinct (map v_Name (pod_Volumes pod))" "list_all token_name_free plans"
    and "t \<in> set (plan_targets pod p)" "i < length (p_Files p)"
  shows "\<exists>c\<in>set (pod_Containers pod'). c_Name c = t \<and>
    (\<exists>m\<in>set (c_VolumeMounts c). vm_MountPath m = rf_Path (p_Files p ! i) \<and> vm_ReadOnly m \<and>
       delivers pod' m (rf_Content (p_Files p ! i)) (parseFileMode (rf_Mode (p_Files p ! i))))"
proof (rule Apply_reached [OF assms(1,2)])
  fix st
  assume r: "apply_reach pod plans st" and st: "pod' = apply_finish st" and p: "p \<in> set (a_applied st)"
  have "config_volume p \<in> set (pod_Volumes pod')"
    using p by (auto simp: st frame_simps effect_inv_fields(3) [OF reach_effect [OF r]] injected_volumes_def
        plan_volumes_def)
  moreover have "smap_lookup (pod_Annotations pod') (fileAnnotation (p_ShimName p) i) = Some (rf_Content (p_Files p ! i))"
    unfolding st
    by (rule plan_annotation_kept [OF r p])
      (use file_annotations_nth [OF assms(7), of "p_ShimName p" 0] in \<open>simp add: plan_annotations_def\<close>)
  moreover obtain w where w: "parseFileMode (rf_Mode (p_Files p ! i)) = Some w"
    using assms(3,7) by (auto simp: plan_wf_def list_all_length)
  moreover have "distinct (map v_Name (pod_Volumes pod'))" using reach_volumes [OF r reach_list_all [OF r assms(5)] assms(4)] st by simp
  ultimately obtain m where m: "m \<in> set (plan_mounts p)" "vm_MountPath m = rf_Path (p_Files p ! i)" "vm_ReadOnly m"
      "delivers pod' m (rf_Content (p_Files p ! i)) (Some w)"
    using delivers_file [OF assms(7)] by blast
  obtain c where "c \<in> set (pod_Containers pod')" "c_Name c = t" "carries p c"
    using reach_targets [OF r] p assms(6) by (auto simp: targets_inv_def st frame_simps)
  with m w show ?thesis by (auto simp: carries_def)
qed

lemma sample_plan_token_free: "token_name_free sample_plan"
  by (simp add: token_name_free_def sample_plan_fields sample_token_eq socketVolumeName_def configVolumeName_def)

lemma sample_plan_wf: "plan_wf sample_plan"
  by (rule BuildPlan_wf(1) [OF sample_plan_built])

theorem Apply_delivers_files_witness:
  "\<exists>c\<in>set (pod_Containers sample_out). c_Name c = ''app'' \<and>
     (\<exists>m\<in>set (c_VolumeMounts c). vm_MountPath m = ''/etc/key'' \<and>
        delivers sample_out m ''/var/run/secrets/oidcshim/gcp/token'' (parseFileMode ''0444''))"
proof -
  have "distinct (map v_Name (pod_Volumes sample_pod))" by (simp add: sample_pod_def)
  then show ?thesis
    using Apply_delivers_files [OF sample_applied _ sample_plan_wf, of "''app''" 0]
    by (auto simp: sample_plan_token_free plan_targets_def sample_targets sample_plan_files)
qed

section \<open>The result is a valid pod\<close>

text \<open>
  (C3) \<open>Apply\<close> keeps the pod valid where the API server would reject it: distinct init container names
  stay distinct and, when no token volume takes a reserved name, distinct volume names stay distinct;
  when container names are distinct, no container mounts a path twice, the plans come from
  \<open>BuildPlan\<close> and no container is requested twice, container names stay distinct and again no
  container mounts a path twice.
\<close>

theorem Apply_keeps_valid:
  assumes "Apply_pod pod plans = (pod', applied, ws)"
    and "distinct (map c_Name (pod_InitContainers pod))"
    and "distinct (map v_Name (pod_Volumes pod))" "list_all token_name_free plans"
    and "mounts_ok pod" "list_all plan_wf plans" "list_all (\<lambda>p. distinct (requested_containers pod p)) plans"
  shows "distinct (map c_Name (pod_InitContainers pod')) \<and> distinct (map v_Name (pod_Volumes pod')) \<and>
    mounts_ok pod'"
proof (cases "applied = []")
  case True
  with assms apply_reach_unchanged [OF apply_reach_fold, of pod plans] show ?thesis
    by (auto simp: Apply_pod_def Let_def split: if_splits)
next
  case False
  then obtain st where r: "apply_reach pod plans st" and st: "pod' = apply_finish st"
    using Apply_pod_injected [OF assms(1)] by metis
  have "distinct (map c_Name (pod_InitContainers pod'))"
    using reach_names [OF r] effect_inv_fields(4) [OF reach_effect [OF r]] assms(2)
    by (auto simp: names_inv_def st frame_simps)
  moreover have "mounts_inv pod st"
    using mnt.holds [OF r] assms(6,7) by (simp add: list_all_iff)
  then have "mounts_ok pod'" using assms(5) by (simp add: mounts_inv_def mounts_ok_def st frame_simps)
  ultimately show ?thesis using reach_volumes [OF r reach_list_all [OF r assms(4)] assms(3)] by (simp add: st)
qed

lemma sample_pod_ok: "mounts_ok sample_pod"
  by (simp add: mounts_ok_def sample_pod_def sample_container_def)

theorem Apply_keeps_valid_witness:
  "distinct (map c_Name (pod_InitContainers sample_out)) \<and> distinct (map v_Name (pod_Volumes sample_out)) \<and>
   mounts_ok sample_out"
proof -
  have "distinct (map c_Name (pod_InitContainers sample_pod))" "distinct (map v_Name (pod_Volumes sample_pod))"
      "requested_containers sample_pod sample_plan = []"
    by (simp_all add: sample_pod_def requested_containers_def containersFromAnnotation_def smap_lookup_def
        sample_plan_fields)
  then show ?thesis
    using Apply_keeps_valid [OF sample_applied] sample_pod_ok sample_plan_wf sample_plan_token_free by simp
qed

section \<open>Budget, repetition and skipped plans\<close>

definition annotation_overhead :: "Plan list \<Rightarrow> nat" where
  "annotation_overhead ps =
     sum_list (map (length \<circ> fst) (concat (map plan_annotations ps))) +
     length StatusAnnotation + length StatusInjected + length ShimsAnnotation +
     length (join '','' (map p_ShimKey ps))"

lemma file_annotations_bytes:
  "sum_list (map (length \<circ> snd) (file_annotations shim i fs)) = sum_list (map (length \<circ> rf_Content) fs)"
  by (induction fs arbitrary: i) auto

lemma plan_annotations_bytes:
  "sum_list (map (length \<circ> snd) (plan_annotations p)) = renderedBytes p"
  by (simp add: plan_annotations_def renderedBytes_eq file_annotations_bytes)

lemma plans_annotations_bytes:
  "sum_list (map (\<lambda>(k, v). length k + length v) (concat (map plan_annotations ps))) =
     sum_list (map (length \<circ> fst) (concat (map plan_annotations ps))) + sum_list (map renderedBytes ps)"
proof -
  have split: "sum_list (map (\<lambda>(k, v). length k + length v) kvs) =
      sum_list (map (length \<circ> fst) kvs) + sum_list (map (length \<circ> snd) kvs)" for kvs :: smap
    by (induction kvs) auto
  have "sum_list (map (length \<circ> snd) (concat (map plan_annotations ps))) = sum_list (map renderedBytes ps)"
    by (induction ps) (simp_all add: plan_annotations_bytes [unfolded comp_def] comp_def)
  then show ?thesis by (simp only: split)
qed

text \<open>
  (C18) The annotation budget. The content rendered for the applied plans, together with the annotations
  the pod came with, never exceeds \<open>MaxPodAnnotationBytes\<close>; and the annotations of the pod returned,
  keys included, exceed it by at most the keys and the two bookkeeping annotations.
\<close>

theorem Apply_budget:
  "case Apply_pod pod plans of (pod', applied, ws) \<Rightarrow>
     applied = [] \<or>
     annotationBytes pod + sum_list (map renderedBytes applied) \<le> MaxPodAnnotationBytes \<and>
     annotationBytes pod' \<le> MaxPodAnnotationBytes + annotation_overhead applied"
proof -
  obtain pod' applied ws where A: "Apply_pod pod plans = (pod', applied, ws)"
    by (cases "Apply_pod pod plans") auto
  show ?thesis
  proof (cases "applied = []")
    case False
    then obtain st where r: "apply_reach pod plans st" and st: "pod' = apply_finish st" "applied = a_applied st"
      using Apply_pod_injected [OF A] by metis
    let ?kvs = "concat (map plan_annotations applied)"
    have b: "annotationBytes pod + sum_list (map renderedBytes applied) \<le> MaxPodAnnotationBytes"
      using reach_effect [OF r] False by (simp add: effect_inv_def st)
    have m: "pod_Annotations (a_pod st) = store_all ?kvs (pod_Annotations pod)"
      using effect_inv_fields(1) [OF reach_effect [OF r]] by (simp add: st)
    have "smap_bytes (pod_Annotations (a_pod st)) \<le>
        annotationBytes pod + sum_list (map (\<lambda>(k, v). length k + length v) ?kvs)"
      unfolding m store_all_def annotationBytes_def by (rule sm.bytes_store_all_le)
    with b have "smap_bytes (pod_Annotations (a_pod st)) \<le>
        MaxPodAnnotationBytes + sum_list (map (length \<circ> fst) ?kvs)"
      by (simp only: plans_annotations_bytes)
    moreover have "annotationBytes pod' \<le> smap_bytes (pod_Annotations (a_pod st)) +
        (length StatusAnnotation + length StatusInjected + length ShimsAnnotation +
         length (join '','' (map p_ShimKey applied)))"
      using sm.bytes_store_le [of "pod_Annotations (a_pod st)" StatusAnnotation StatusInjected]
        sm.bytes_store_le [of "smap_set (pod_Annotations (a_pod st)) StatusAnnotation StatusInjected"
          ShimsAnnotation "join '','' (map p_ShimKey applied)"]
      by (simp add: st annotationBytes_def frame_simps)
    ultimately show ?thesis using A b by (simp add: annotation_overhead_def)
  qed (simp add: A)
qed

text \<open>
  Injection happens once: a pod that \<open>Apply\<close> injected is returned unchanged, with no plan applied
  and a warning, by every later \<open>Apply\<close>, whatever the plans. The list it records names exactly
  the applied shims, in order.
\<close>

lemma Apply_once:
  "case Apply_pod pod plans of (pod', applied, ws) \<Rightarrow>
     applied = [] \<or>
     Apply_pod pod' plans' = (pod', [], [PodAlreadyInjected]) \<and>
     smap_lookup (pod_Annotations pod') ShimsAnnotation = Some (join '','' (map p_ShimKey applied))"
proof -
  obtain pod' applied ws where A: "Apply_pod pod plans = (pod', applied, ws)"
    by (cases "Apply_pod pod plans") auto
  show ?thesis
  proof (cases "applied = []")
    case False
    then obtain st where st: "pod' = apply_finish st" "applied = a_applied st"
      using Apply_pod_injected [OF A] by metis
    have "smap_get (pod_Annotations pod') StatusAnnotation = StatusInjected"
      by (simp add: st frame_simps smap_get_set name_simps)
    then have "Apply_pod pod' plans' = (pod', [], [PodAlreadyInjected])" by (simp add: Apply_pod_def)
    moreover have "smap_lookup (pod_Annotations pod') ShimsAnnotation = Some (join '','' (map p_ShimKey applied))"
      by (simp add: st frame_simps sm.lookup_store)
    ultimately show ?thesis using A by simp
  qed (simp add: A)
qed

definition applicable :: "Pod \<Rightarrow> Plan \<Rightarrow> bool" where
  "applicable pod p \<longleftrightarrow>
     smap_get (pod_Annotations pod) StatusAnnotation \<noteq> StatusInjected \<and>
     annotationBytes pod + renderedBytes p \<le> MaxPodAnnotationBytes \<and>
     (requested_containers pod p = [] \<or> set (requested_containers pod p) \<inter> c_Name ` set (pod_Containers pod) \<noteq> {}) \<and>
     (case findVolume pod socketVolumeName of None \<Rightarrow> True
      | Some v \<Rightarrow> map_option csi_Driver (vs_CSI v) = Some (p_CSIDriver p)) \<and>
     {tok_VolumeName (p_Token p), configVolumeName (p_ShimName p)} \<inter> v_Name ` set (pod_Volumes pod) = {} \<and>
     {initContainerName (p_ShimName p), refreshContainerName (p_ShimName p)}
       \<inter> c_Name ` set (pod_InitContainers pod) = {} \<and>
     list_all (\<lambda>t. case findContainer (pod_Containers pod) t of None \<Rightarrow> True
       | Some c \<Rightarrow> set (mountPaths p) \<inter> vm_MountPath ` set (c_VolumeMounts c) = {}) (plan_targets pod p)"

lemma resolveTargets_parts:
  "\<exists>tws. resolveTargets pod p = (plan_targets pod p, requested_containers pod p, tws)"
  by (auto simp: plan_targets_def resolveTargets_def Let_def split: prod.split)

lemma applied_iff:
  "a_applied (apply_plan N p st) =
     (if N + a_addedBytes st + renderedBytes p \<le> MaxPodAnnotationBytes \<and>
         (requested_containers (a_pod st) p = [] \<or> plan_targets (a_pod st) p \<noteq> []) \<and>
         checkCollisions (a_pod st) p (a_newInits st) (plan_targets (a_pod st) p) = None
      then a_applied st @ [p] else a_applied st)"
proof -
  obtain tws where r: "resolveTargets (a_pod st) p = (plan_targets (a_pod st) p, requested_containers (a_pod st) p, tws)"
    using resolveTargets_parts by blast
  show ?thesis by (auto simp: apply_plan_def Let_def r split: option.split prod.split)
qed

lemma plan_targets_Nil_iff:
  "requested_containers pod p \<noteq> [] \<Longrightarrow>
   plan_targets pod p \<noteq> [] \<longleftrightarrow> set (requested_containers pod p) \<inter> c_Name ` set (pod_Containers pod) \<noteq> {}"
  by (auto simp: plan_targets_eq filter_empty_conv)

lemma applicable_iff:
  "applicable pod p \<longleftrightarrow>
     smap_get (pod_Annotations pod) StatusAnnotation \<noteq> StatusInjected \<and>
     annotationBytes pod + renderedBytes p \<le> MaxPodAnnotationBytes \<and>
     (requested_containers pod p = [] \<or> plan_targets pod p \<noteq> []) \<and>
     checkCollisions pod p [] (plan_targets pod p) = None"
proof -
  have socket: "checkSocketVolume pod p = None \<longleftrightarrow>
      (case findVolume pod socketVolumeName of None \<Rightarrow> True
       | Some v \<Rightarrow> map_option csi_Driver (vs_CSI v) = Some (p_CSIDriver p))"
    by (auto simp: checkSocketVolume_def split: option.split)
  have mounts: "check_mounts pod (mountPaths p) (plan_targets pod p) = None \<longleftrightarrow>
      list_all (\<lambda>t. case findContainer (pod_Containers pod) t of None \<Rightarrow> True
        | Some c \<Rightarrow> set (mountPaths p) \<inter> vm_MountPath ` set (c_VolumeMounts c) = {}) (plan_targets pod p)"
    by (auto simp: check_mounts_None list_all_iff split: option.split)
  show ?thesis
    unfolding applicable_def checkCollisions_None socket mounts check_inits_None findVolume_None_iff
    using plan_targets_Nil_iff [of pod p] by (cases "requested_containers pod p = []") simp_all
qed

text \<open>One plan on its own is applied exactly if it is applicable.\<close>

lemma Apply_one_iff: "fst (snd (Apply_pod pod [p])) = [p] \<longleftrightarrow> applicable pod p"
  using applied_iff [of "annotationBytes pod" p "apply_start pod"]
  by (auto simp: Apply_pod_def Let_def applicable_iff apply_start_def split: if_splits)

text \<open>Of a list with an applicable plan, some plan is applied: as long as none is, the pod is as it came.\<close>

lemma fold_apply_some:
  assumes "p \<in> set plans" "applicable pod p"
  shows "a_applied (fold (apply_plan (annotationBytes pod)) plans (apply_start pod)) \<noteq> []"
proof -
  obtain xs ys where plans: "plans = xs @ p # ys" using assms(1) by (auto simp: in_set_conv_decomp)
  let ?f = "apply_plan (annotationBytes pod)"
  let ?st = "fold ?f xs (apply_start pod)"
  have grows: "a_applied st \<noteq> [] \<Longrightarrow> a_applied (fold ?f qs st) \<noteq> []" for qs st
    by (induction qs arbitrary: st) (simp_all add: applied_iff)
  have "a_applied (?f p ?st) \<noteq> []"
  proof (cases "a_applied ?st = []")
    case True
    have r: "apply_reach pod xs ?st" by (rule apply_reach_fold)
    have "a_pod ?st = pod" by (rule apply_reach_unchanged [OF r True])
    moreover have "a_newInits ?st = []" "a_addedBytes ?st = 0"
      using reach_effect [OF r] True by (simp_all add: effect_inv_def)
    ultimately show ?thesis using assms(2) by (simp add: applied_iff applicable_iff)
  qed (simp add: applied_iff)
  then show ?thesis using grows [of "?f p ?st" ys] by (simp add: plans)
qed

lemma Apply_some:
  assumes "p \<in> set plans" "applicable pod p"
  shows "fst (snd (Apply_pod pod plans)) \<noteq> []"
  using fold_apply_some [OF assms] assms(2) by (simp add: Apply_pod_def Let_def applicable_def)

section \<open>Where the result is not a valid pod\<close>

text \<open>A pod whose annotation asks for one container twice, and a plan whose token volume takes the name of its own configuration volume.\<close>

definition twice_pod :: Pod where
  "twice_pod = sample_pod\<lparr>pod_Annotations := [(ContainersAnnotation, ''app,app'')]\<rparr>"


lemma twice_requested: "requested_containers twice_pod sample_plan = [''app'', ''app'']"
proof -
  have "trimmed_fields ''app,app'' = [''app'', ''app'']" by code_simp
  then show ?thesis
    by (simp add: requested_containers_def containersFromAnnotation_def twice_pod_def smap_lookup_def)
qed

lemma applies_one:
  assumes "applicable pod p"
  shows "Apply_pod pod [p] =
    (apply_finish (apply_plan (annotationBytes pod) p (apply_start pod)), [p],
     a_warnings (apply_plan (annotationBytes pod) p (apply_start pod)))"
    "a_pod (apply_plan (annotationBytes pod) p (apply_start pod)) = inject_pod pod p (plan_targets pod p)"
proof -
  obtain tws where r: "resolveTargets pod p = (plan_targets pod p, requested_containers pod p, tws)"
    using resolveTargets_parts by blast
  note ok = assms [unfolded applicable_iff]
  then show "Apply_pod pod [p] =
    (apply_finish (apply_plan (annotationBytes pod) p (apply_start pod)), [p],
     a_warnings (apply_plan (annotationBytes pod) p (apply_start pod)))"
    using applied_iff [of "annotationBytes pod" p "apply_start pod"]
    by (simp add: Apply_pod_def Let_def apply_start_def)
  show "a_pod (apply_plan (annotationBytes pod) p (apply_start pod)) = inject_pod pod p (plan_targets pod p)"
    using ok by (auto simp: apply_plan_def Let_def apply_start_def r inject_pod_def frame_simps split: prod.split)
qed

lemma twice_targets: "plan_targets twice_pod sample_plan = [''app'', ''app'']"
  unfolding plan_targets_eq twice_requested by (simp add: twice_pod_def sample_pod_def sample_container_def)

lemma twice_applicable: "applicable twice_pod sample_plan"
proof -
  have "smap_get (pod_Annotations twice_pod) StatusAnnotation \<noteq> StatusInjected"
    by (simp add: twice_pod_def smap_get_def smap_lookup_def name_simps StatusInjected_def)
  moreover have "annotationBytes twice_pod + renderedBytes sample_plan \<le> MaxPodAnnotationBytes"
    by (simp add: annotationBytes_def twice_pod_def key_defs renderedBytes_def sample_plan_def MaxPodAnnotationBytes_def)
  moreover have "checkCollisions twice_pod sample_plan [] [''app'', ''app''] = None"
    by (simp add: checkCollisions_def checkSocketVolume_def findVolume_def twice_pod_def sample_pod_def
        sample_plan_fields sample_token_eq socketVolumeName_def configVolumeName_def hasContainerNamed_def
        findContainer_def sample_container_def sample_paths hasMountPath_def)
  ultimately show ?thesis by (simp add: applicable_iff twice_targets)
qed

lemma count_list_concat_map:
  "x \<in> set (f p) \<Longrightarrow> count_list ps p \<le> count_list (concat (map f ps)) x"
proof (induction ps)
  case (Cons q ps)
  have "0 < count_list (f p) x" using Cons.prems count_list_0_iff [of "f p" x] by simp
  with Cons show ?case by (cases "p = q") auto
qed simp

lemma count_list_replicate [simp]: "count_list (replicate n x) y = (if x = y then n else 0)"
  by (induction n) auto

lemma received_count:
  "p \<in> set ps \<Longrightarrow> hits (map c_Name (pod_Containers pod)) (intended pod p) i \<le> count_list (received pod ps i) p"
  unfolding received_def by (induction ps) auto

lemma count_list_filter: "P x \<Longrightarrow> count_list (filter P xs) x = count_list xs x"
  by (induction xs) auto

lemma intended_count:
  assumes "requested_containers pod p \<noteq> []" "n \<in> set (map c_Name (pod_Containers pod))"
  shows "count_list (intended pod p) n = count_list (requested_containers pod p) n"
  using assms by (simp add: intended_targets [symmetric] plan_targets_eq count_list_filter del: set_map)

lemma hits_distinct: "distinct names \<Longrightarrow> i < length names \<Longrightarrow> hits names ts i = count_list ts (names ! i)"
  by (auto simp: hits_def in_set_conv_nth nth_eq_iff_index_eq)

lemma count_list_not_distinct: "2 \<le> count_list xs x \<Longrightarrow> \<not> distinct xs"
proof (induction xs)
  case (Cons y ys)
  then show ?case by (cases "x = y") (auto simp: count_list_0_iff Suc_le_eq)
qed simp

text \<open>
  (C39) A container requested several times is injected as often. Take an applied plan and a container of the
  pod, whose container names are distinct, that the request of the plan (the annotation \<open>containers: app,app\<close>, or
  \<open>spec.inject.containers\<close>) names \<open>k \<ge> 2\<close> times. Then the container of the pod returned has every mount of the plan
  at least \<open>k\<close> times, so it mounts a path twice, which the API server rejects.
\<close>

theorem Apply_duplicate_targets:
  assumes "Apply_pod pod plans = (pod', applied, ws)" "p \<in> set applied"
    and "distinct (map c_Name (pod_Containers pod))" "i < length (pod_Containers pod)"
    and "k = count_list (requested_containers pod p) (c_Name (pod_Containers pod ! i))" "2 \<le> k"
  shows "c_Name (pod_Containers pod' ! i) = c_Name (pod_Containers pod ! i) \<and>
    (\<forall>m\<in>set (target_mounts p). k \<le> count_list (c_VolumeMounts (pod_Containers pod' ! i)) m) \<and>
    \<not> mounts_ok pod'"
proof (rule Apply_reached [OF assms(1,2)])
  fix st
  assume r: "apply_reach pod plans st" and st: "pod' = apply_finish st" and p: "p \<in> set (a_applied st)"
  let ?n = "c_Name (pod_Containers pod ! i)"
  let ?c = "pod_Containers pod' ! i"
  have cs: "pod_Containers pod' = injected_containers pod (a_applied st)"
    by (simp add: st frame_simps reach_containers [OF r])
  then have c: "?c = container_after (received pod (a_applied st) i) (pod_Containers pod ! i)"
    using assms(4) by (simp add: injected_containers_def)
  have "requested_containers pod p \<noteq> []" using assms(5,6) by auto
  then have "k = hits (map c_Name (pod_Containers pod)) (intended pod p) i"
    using assms(3-5) by (simp add: hits_distinct intended_count)
  then have "k \<le> count_list (received pod (a_applied st) i) p" using received_count [OF p, of pod i] by simp
  then have mounts: "k \<le> count_list (c_VolumeMounts ?c) m" if "m \<in> set (target_mounts p)" for m
    using count_list_concat_map [of m target_mounts p, OF that, of "received pod (a_applied st) i"]
    by (simp add: c container_after_def)
  have "\<not> distinct (c_VolumeMounts ?c)"
    using count_list_not_distinct [of "c_VolumeMounts ?c" "hd (target_mounts p)"] mounts [of "hd (target_mounts p)"] assms(6)
    by (simp add: target_mounts_def)
  then have "\<not> distinct (map vm_MountPath (c_VolumeMounts ?c))" by (auto simp: distinct_map)
  moreover have "?c \<in> set (pod_Containers pod')" using assms(4) by (simp add: cs injected_containers_def)
  ultimately have "\<not> mounts_ok pod'" by (auto simp: mounts_ok_def list_all_iff)
  with mounts c show ?thesis by simp
qed

theorem Apply_duplicate_targets_witness:
  "mounts_ok twice_pod \<and> plan_wf sample_plan \<and>
   (case Apply_pod twice_pod [sample_plan] of (pod', applied, ws) \<Rightarrow>
      applied = [sample_plan] \<and> 2 \<le> count_list (c_VolumeMounts (pod_Containers pod' ! 0)) (hd (target_mounts sample_plan)) \<and>
      \<not> mounts_ok pod')"
proof -
  have ok: "mounts_ok twice_pod"
    by (simp add: mounts_ok_def twice_pod_def sample_pod_def sample_container_def)
  have "0 < length (pod_Containers twice_pod)" "c_Name (pod_Containers twice_pod ! 0) = ''app''"
    by (simp_all add: twice_pod_def sample_pod_def sample_container_def)
  moreover have "hd (target_mounts sample_plan) \<in> set (target_mounts sample_plan)" by (simp add: target_mounts_def)
  ultimately show ?thesis
    using Apply_duplicate_targets [OF applies_one(1) [OF twice_applicable], of sample_plan 0 2] ok sample_plan_wf
    by (simp add: twice_requested mounts_ok_def applies_one(1) [OF twice_applicable])
qed





end
