(* ===== verification/Selection.thy ===== *)
theory Selection
  imports PodModel
begin

text \<open>
  Package \<open>internal/selection\<close>: which namespaces the webhook never touches (\<open>exclusions.go\<close>) and
  whether a pod is matched by a shim, through enrolment or through label selectors (\<open>match.go\<close>).
  \<open>metav1.LabelSelectorAsSelector\<close> and the \<open>Matches\<close> method of its result belong to apimachinery:
  together they are the parameter \<open>asSel\<close>, which maps a label selector to an error or to the predicate
  on label sets it denotes. An error that joins several problems is the list of the problems.
\<close>

section \<open>Exclusions\<close>

record Exclusions =
  ex_Names :: "string list"
  ex_Prefixes :: "string list"

fun any_equal :: "string \<Rightarrow> string list \<Rightarrow> bool" where
  "any_equal namespace [] = False"
| "any_equal namespace (name # names) = (if namespace = name then True else any_equal namespace names)"

fun any_prefix :: "string \<Rightarrow> string list \<Rightarrow> bool" where
  "any_prefix namespace [] = False"
| "any_prefix namespace (p # ps) = (if HasPrefix namespace p then True else any_prefix namespace ps)"

definition Excluded :: "Exclusions \<Rightarrow> string \<Rightarrow> bool" where
  "Excluded e namespace =
     (if any_equal namespace (ex_Names e) then True else any_prefix namespace (ex_Prefixes e))"

lemma any_equal_iff: "any_equal s ns \<longleftrightarrow> s \<in> set ns"
  by (induction ns) auto

lemma any_prefix_iff: "any_prefix s ps \<longleftrightarrow> (\<exists>p\<in>set ps. HasPrefix s p)"
  by (induction ps) auto

lemma Excluded_iff:
  "Excluded e s \<longleftrightarrow> s \<in> set (ex_Names e) \<or> (\<exists>p\<in>set (ex_Prefixes e). \<exists>r. s = p @ r)"
  by (simp add: Excluded_def any_equal_iff any_prefix_iff HasPrefix_iff)

section \<open>Enrolment\<close>

record Target =
  t_Pod :: "Pod option"
  t_ServiceAccount :: "MetaObject option"
  t_Namespace :: "MetaObject option"

definition ParseEnrollment :: "string \<Rightarrow> string list" where
  "ParseEnrollment value = trimmed_fields value"

definition kindEnabled :: "bool option \<Rightarrow> bool" where
  "kindEnabled toggle = (case toggle of None \<Rightarrow> True | Some b \<Rightarrow> b)"

definition enrolls :: "string \<Rightarrow> smap \<Rightarrow> smap \<Rightarrow> bool" where
  "enrolls shimName annotations objectLabels =
     list_ex (\<lambda>m. list_ex (\<lambda>name. name = shimName) (ParseEnrollment (smap_get m EnrollmentKey)))
       [annotations, objectLabels]"

definition Enrolled :: "string \<Rightarrow> EnrollmentSpec option \<Rightarrow> Target \<Rightarrow> bool" where
  "Enrolled shimName enrollment t =
     (let namespaces = Option.bind enrollment en_Namespaces;
          serviceAccounts = Option.bind enrollment en_ServiceAccounts;
          pods = Option.bind enrollment en_Pods in
      if kindEnabled namespaces \<and>
         (case t_Namespace t of None \<Rightarrow> False
          | Some ns \<Rightarrow> enrolls shimName (mo_Annotations ns) (mo_Labels ns)) then True
      else if kindEnabled serviceAccounts \<and>
         (case t_ServiceAccount t of None \<Rightarrow> False
          | Some sa \<Rightarrow> enrolls shimName (mo_Annotations sa) (mo_Labels sa)) then True
      else if kindEnabled pods \<and>
         (case t_Pod t of None \<Rightarrow> False
          | Some p \<Rightarrow> enrolls shimName (pod_Annotations p) (pod_Labels p)) then True
      else False)"

definition OptedOut :: "Pod option \<Rightarrow> bool" where
  "OptedOut pod =
     (case pod of None \<Rightarrow> False
      | Some p \<Rightarrow>
          (case smap_lookup (pod_Annotations p) InjectAnnotation of None \<Rightarrow> False
           | Some value \<Rightarrow> EqualFold (TrimSpace value) ''false''))"

section \<open>Selectors\<close>

type_synonym selector = "smap \<Rightarrow> bool"
type_synonym as_selector = "LabelSelector \<Rightarrow> go_error + selector"

text \<open>\<open>compiledSelector\<close>: a converted selector and the object it is matched against.\<close>

record compiledSelector =
  cs_selector :: selector
  cs_target :: "Target \<Rightarrow> smap option"

definition namespaceLabels :: "Target \<Rightarrow> smap option" where
  "namespaceLabels t = map_option mo_Labels (t_Namespace t)"

definition serviceAccountLabels :: "Target \<Rightarrow> smap option" where
  "serviceAccountLabels t = map_option mo_Labels (t_ServiceAccount t)"

definition podLabels :: "Target \<Rightarrow> smap option" where
  "podLabels t = map_option pod_Labels (t_Pod t)"

type_synonym selector_source = "string \<times> LabelSelector option \<times> (Target \<Rightarrow> smap option)"

definition selector_sources :: "SelectionSpec \<Rightarrow> selector_source list" where
  "selector_sources sel =
     [(''namespaceSelector'', sel_NamespaceSelector sel, namespaceLabels),
      (''serviceAccountSelector'', sel_ServiceAccountSelector sel, serviceAccountLabels),
      (''podSelector'', sel_PodSelector sel, podLabels)]"

fun compile_loop ::
  "as_selector \<Rightarrow> selector_source list \<Rightarrow> compiledSelector list \<Rightarrow> (string \<times> go_error) list \<Rightarrow>
     compiledSelector list \<times> (string \<times> go_error) list" where
  "compile_loop asSel [] compiled errs = (compiled, errs)"
| "compile_loop asSel ((field, selector, target) # rest) compiled errs =
     (case selector of
        None \<Rightarrow> compile_loop asSel rest compiled errs
      | Some ls \<Rightarrow>
          (case asSel ls of
             Inl err \<Rightarrow> compile_loop asSel rest compiled (errs @ [(field, err)])
           | Inr s \<Rightarrow>
               compile_loop asSel rest (compiled @ [\<lparr>cs_selector = s, cs_target = target\<rparr>]) errs))"

definition compile ::
  "as_selector \<Rightarrow> SelectionSpec \<Rightarrow> (string \<times> go_error) list + compiledSelector list" where
  "compile asSel sel =
     (case compile_loop asSel (selector_sources sel) [] [] of (compiled, errs) \<Rightarrow>
        if errs \<noteq> [] then Inl errs else Inr compiled)"

definition Validate_selection :: "as_selector \<Rightarrow> SelectionSpec \<Rightarrow> (string \<times> go_error) list" where
  "Validate_selection asSel sel = (case compile asSel sel of Inl errs \<Rightarrow> errs | Inr _ \<Rightarrow> [])"

fun match_loop :: "Target \<Rightarrow> compiledSelector list \<Rightarrow> bool \<Rightarrow> bool" where
  "match_loop t [] matched = matched"
| "match_loop t (s # rest) matched =
     (case cs_target s t of
        None \<Rightarrow> False
      | Some objectLabels \<Rightarrow>
          if \<not> cs_selector s objectLabels then False else match_loop t rest True)"

definition Matches ::
  "as_selector \<Rightarrow> string \<Rightarrow> SelectionSpec \<Rightarrow> Target \<Rightarrow> (string \<times> go_error) list + bool" where
  "Matches asSel shimName sel t =
     (case compile asSel sel of
        Inl err \<Rightarrow> Inl err
      | Inr compiled \<Rightarrow>
          if Enrolled shimName (sel_Enrollment sel) t then Inr True
          else Inr (match_loop t compiled False))"

section \<open>What matching means\<close>

text \<open>
  The declarative reading of the doc comments of \<open>Matches\<close> and \<open>Enrolled\<close>, written out for the three
  selectors and the three kinds of objects: the problem of a selector, that a selector holds of the labels of its object,
  which must exist, and that an object lists a shim under the enrolment key.
\<close>

definition selector_problem :: "as_selector \<Rightarrow> string \<Rightarrow> LabelSelector option \<Rightarrow> (string \<times> go_error) list" where
  "selector_problem asSel field s =
     (case s of None \<Rightarrow> [] | Some ls \<Rightarrow> (case asSel ls of Inl e \<Rightarrow> [(field, e)] | Inr _ \<Rightarrow> []))"

definition selector_problems :: "as_selector \<Rightarrow> SelectionSpec \<Rightarrow> (string \<times> go_error) list" where
  "selector_problems asSel sel =
     selector_problem asSel ''namespaceSelector'' (sel_NamespaceSelector sel) @
     selector_problem asSel ''serviceAccountSelector'' (sel_ServiceAccountSelector sel) @
     selector_problem asSel ''podSelector'' (sel_PodSelector sel)"

definition selector_holds :: "as_selector \<Rightarrow> LabelSelector option \<Rightarrow> smap option \<Rightarrow> bool" where
  "selector_holds asSel s object_labels =
     (case s of None \<Rightarrow> True
      | Some ls \<Rightarrow>
          (case (asSel ls, object_labels) of (Inr matches, Some labels) \<Rightarrow> matches labels | _ \<Rightarrow> False))"

definition selected :: "as_selector \<Rightarrow> SelectionSpec \<Rightarrow> Target \<Rightarrow> bool" where
  "selected asSel sel t \<longleftrightarrow>
     (sel_NamespaceSelector sel \<noteq> None \<or> sel_ServiceAccountSelector sel \<noteq> None \<or> sel_PodSelector sel \<noteq> None) \<and>
     selector_holds asSel (sel_NamespaceSelector sel) (map_option mo_Labels (t_Namespace t)) \<and>
     selector_holds asSel (sel_ServiceAccountSelector sel) (map_option mo_Labels (t_ServiceAccount t)) \<and>
     selector_holds asSel (sel_PodSelector sel) (map_option pod_Labels (t_Pod t))"

definition object_enrolls :: "string \<Rightarrow> smap \<Rightarrow> smap \<Rightarrow> bool" where
  "object_enrolls shimName annotations objectLabels \<longleftrightarrow>
     (\<exists>m\<in>{annotations, objectLabels}. shimName \<in> set (trimmed_fields (smap_get m EnrollmentKey)))"

definition enrolled :: "string \<Rightarrow> EnrollmentSpec option \<Rightarrow> Target \<Rightarrow> bool" where
  "enrolled n en t \<longleftrightarrow>
     (Option.bind en en_Namespaces \<noteq> Some False \<and>
        (\<exists>ns. t_Namespace t = Some ns \<and> object_enrolls n (mo_Annotations ns) (mo_Labels ns))) \<or>
     (Option.bind en en_ServiceAccounts \<noteq> Some False \<and>
        (\<exists>sa. t_ServiceAccount t = Some sa \<and> object_enrolls n (mo_Annotations sa) (mo_Labels sa))) \<or>
     (Option.bind en en_Pods \<noteq> Some False \<and>
        (\<exists>p. t_Pod t = Some p \<and> object_enrolls n (pod_Annotations p) (pod_Labels p)))"

lemma enrolls_iff: "enrolls n a l \<longleftrightarrow> object_enrolls n a l"
  by (auto simp: enrolls_def object_enrolls_def list_ex_iff ParseEnrollment_def)

lemma kindEnabled_iff: "kindEnabled toggle \<longleftrightarrow> toggle \<noteq> Some False"
  by (auto simp: kindEnabled_def split: option.split)

lemma Enrolled_iff: "Enrolled n en t \<longleftrightarrow> enrolled n en t"
  by (auto simp: Enrolled_def enrolled_def enrolls_iff kindEnabled_iff Let_def split: option.splits)

definition source_compiled :: "as_selector \<Rightarrow> selector_source \<Rightarrow> compiledSelector option" where
  "source_compiled asSel = (\<lambda>(f, s, tgt).
     case s of None \<Rightarrow> None
     | Some ls \<Rightarrow> (case asSel ls of Inl _ \<Rightarrow> None | Inr p \<Rightarrow> Some \<lparr>cs_selector = p, cs_target = tgt\<rparr>))"

definition source_problem :: "as_selector \<Rightarrow> selector_source \<Rightarrow> (string \<times> go_error) option" where
  "source_problem asSel = (\<lambda>(f, s, tgt).
     case s of None \<Rightarrow> None
     | Some ls \<Rightarrow> (case asSel ls of Inl e \<Rightarrow> Some (f, e) | Inr _ \<Rightarrow> None))"

lemma compile_loop_eq:
  "compile_loop asSel src c e =
     (c @ List.map_filter (source_compiled asSel) src, e @ List.map_filter (source_problem asSel) src)"
  by (induction asSel src c e rule: compile_loop.induct)
    (auto simp: map_filter_simps source_compiled_def source_problem_def split: option.splits sum.splits)

lemma selector_problems_eq:
  "selector_problems asSel sel = List.map_filter (source_problem asSel) (selector_sources sel)"
  by (auto simp: selector_problems_def selector_problem_def selector_sources_def map_filter_simps
      source_problem_def split: option.splits sum.splits)

lemma compile_eq:
  "compile asSel sel =
     (if selector_problems asSel sel \<noteq> [] then Inl (selector_problems asSel sel)
      else Inr (List.map_filter (source_compiled asSel) (selector_sources sel)))"
  by (simp add: compile_def compile_loop_eq selector_problems_eq)

lemma match_loop_iff:
  "match_loop t cs m \<longleftrightarrow>
     (\<forall>c\<in>set cs. \<exists>ls. cs_target c t = Some ls \<and> cs_selector c ls) \<and> (m \<or> cs \<noteq> [])"
  by (induction t cs m rule: match_loop.induct) (auto split: option.splits)

lemma compiled_match_iff:
  assumes "selector_problems asSel sel = []"
  shows "match_loop t (List.map_filter (source_compiled asSel) (selector_sources sel)) False \<longleftrightarrow> selected asSel sel t"
  using assms unfolding match_loop_iff
  by (auto simp: selector_problems_def selector_problem_def selected_def selector_sources_def map_filter_simps
      source_compiled_def selector_holds_def namespaceLabels_def serviceAccountLabels_def podLabels_def
      split: option.splits sum.splits)

section \<open>The contract of the package\<close>

text \<open>
  What the webhook and the controller rely on: static validation finds a problem exactly when
  matching any pod fails with it, so a shim reported valid is never skipped by its selectors.
\<close>

locale selection_contract =
  fixes problems :: "'sel \<Rightarrow> 'e list"
    and matches :: "string \<Rightarrow> 'sel \<Rightarrow> 't \<Rightarrow> 'e list + bool"
  assumes invalid_fails: "problems sel \<noteq> [] \<Longrightarrow> matches n sel t = Inl (problems sel)"
    and valid_decides: "problems sel = [] \<Longrightarrow> \<exists>b. matches n sel t = Inr b"
begin

lemma fails_iff: "(\<exists>e. matches n sel t = Inl e) \<longleftrightarrow> problems sel \<noteq> []"
  using invalid_fails valid_decides by (metis sum.distinct(1))

lemma fails_everywhere: "matches n sel t = Inl e \<Longrightarrow> matches n' sel t' = Inl e"
  using invalid_fails valid_decides by (metis sum.distinct(1) sum.inject(1))

end

interpretation selc: selection_contract "Validate_selection asSel" "Matches asSel" for asSel
  by unfold_locales (auto simp: Validate_selection_def Matches_def compile_eq split: if_splits)

section \<open>Properties\<close>

text \<open>
  (C14) Matching decides exactly what its documentation says: an invalid selector is an error that lists
  every invalid selector by its field, also for an enrolled pod; otherwise the pod matches when it is enrolled
  (the namespace, the service account or the pod itself, unless that kind is switched off, lists the shim in the
  enrolment annotation or label), or when at least one selector is set and every set selector holds of the labels
  of its own object, which must exist.
\<close>

theorem Matches_decides:
  "Matches asSel n sel t =
     (if selector_problems asSel sel \<noteq> [] then Inl (selector_problems asSel sel)
      else Inr (enrolled n (sel_Enrollment sel) t \<or> selected asSel sel t))"
  by (simp add: Matches_def compile_eq compiled_match_iff Enrolled_iff)

text \<open>
  A shim whose selectors validate is decided for every pod, and one whose selectors do not
  validate fails for every pod with the very problems the controller reports on its status.
\<close>

lemma Validate_selection_exact:
  "(Validate_selection asSel sel = [] \<longleftrightarrow> (\<forall>n t. \<exists>b. Matches asSel n sel t = Inr b)) \<and>
   (Matches asSel n sel t = Inl e \<longleftrightarrow> e = Validate_selection asSel sel \<and> e \<noteq> [])"
  using selc.valid_decides [of asSel sel] selc.invalid_fails [of asSel sel]
  by (metis sum.distinct(1) sum.inject(1))

text \<open>
  Reading a comma-separated enrolment value gives back the names that were joined exactly when
  every one of them is non-empty, free of commas and free of surrounding white space; in particular
  whatever the parser returns is such a list.
\<close>

lemma ParseEnrollment_roundtrip:
  "(ParseEnrollment (join '','' ns) = ns \<longleftrightarrow> list_all trimmed_name ns) \<and>
   list_all trimmed_name (ParseEnrollment v)"
  by (simp add: ParseEnrollment_def trimmed_fields_join_iff trimmed_fields_all)

end
