(* ===== verification/Config.thy ===== *)
theory Config
  imports Selection "HOL-Library.Char_ord" "HOL-Library.List_Lexorder"
begin

text \<open>
  Package \<open>internal/config\<close> (\<open>options.go\<close>): the manager-level options, their defaults, the environment
  overlay, the flags, validation, and the two derived values the webhook uses. The flag package
  calls \<open>Set\<close> of a registered flag once per occurrence on the command line; \<open>flag_set\<close> is that call
  for the flags \<open>BindFlags\<close> registers. Strings are ordered byte by byte, as \<open>sort.Strings\<close> orders them.
\<close>

section \<open>Options\<close>

record Options =
  o_SpiffeHelperImage :: string
  o_SpiffeHelperImagePullPolicy :: string
  o_SpiffeCSIDriver :: string
  o_SpiffeSocketMountPath :: string
  o_SpiffeSocketFile :: string
  o_ExcludedNamespaces :: "string list"
  o_ExcludedNamespacePrefixes :: "string list"
  o_ZTWIMNamespace :: string
  o_OperatorNamespace :: string
  o_MaxRenderedBytes :: int

definition PullAlways :: string where "PullAlways = ''Always''"
definition PullIfNotPresent :: string where "PullIfNotPresent = ''IfNotPresent''"
definition PullNever :: string where "PullNever = ''Never''"

definition DefaultSpiffeHelperImage :: string where [simp]: "DefaultSpiffeHelperImage = ''ghcr.io/spiffe/spiffe-helper:0.10.0''"
definition DefaultSpiffeCSIDriver :: string where [simp]: "DefaultSpiffeCSIDriver = ''csi.spiffe.io''"
definition DefaultSpiffeSocketMountPath :: string where [simp]: "DefaultSpiffeSocketMountPath = ''/spiffe-workload-api''"
definition DefaultSpiffeSocketFile :: string where [simp]: "DefaultSpiffeSocketFile = ''spire-agent.sock''"
definition DefaultZTWIMNamespace :: string where [simp]: "DefaultZTWIMNamespace = ''zero-trust-workload-identity-manager''"
definition DefaultMaxRenderedBytes :: int where [simp]: "DefaultMaxRenderedBytes = 64 * 1024"

definition Defaults_options :: Options where
  "Defaults_options =
     \<lparr>o_SpiffeHelperImage = DefaultSpiffeHelperImage,
      o_SpiffeHelperImagePullPolicy = PullIfNotPresent,
      o_SpiffeCSIDriver = DefaultSpiffeCSIDriver,
      o_SpiffeSocketMountPath = DefaultSpiffeSocketMountPath,
      o_SpiffeSocketFile = DefaultSpiffeSocketFile,
      o_ExcludedNamespaces = [],
      o_ExcludedNamespacePrefixes = [''kube-''],
      o_ZTWIMNamespace = DefaultZTWIMNamespace,
      o_OperatorNamespace = [],
      o_MaxRenderedBytes = DefaultMaxRenderedBytes\<rparr>"

section \<open>Environment\<close>

definition EnvSpiffeHelperImage :: string where [simp]: "EnvSpiffeHelperImage = ''SPIFFE_HELPER_IMAGE''"
definition EnvRelatedImageSpiffeHelper :: string where [simp]: "EnvRelatedImageSpiffeHelper = ''RELATED_IMAGE_SPIFFE_HELPER''"
definition EnvPodNamespace :: string where [simp]: "EnvPodNamespace = ''POD_NAMESPACE''"

definition ApplyEnv :: "(string \<Rightarrow> string) \<Rightarrow> Options \<Rightarrow> Options" where
  "ApplyEnv getenv opts =
     (let o1 =
        (if getenv EnvSpiffeHelperImage \<noteq> []
         then opts\<lparr>o_SpiffeHelperImage := getenv EnvSpiffeHelperImage\<rparr>
         else if getenv EnvRelatedImageSpiffeHelper \<noteq> []
         then opts\<lparr>o_SpiffeHelperImage := getenv EnvRelatedImageSpiffeHelper\<rparr>
         else opts) in
      if getenv EnvPodNamespace \<noteq> [] then o1\<lparr>o_OperatorNamespace := getenv EnvPodNamespace\<rparr>
      else o1)"

section \<open>Flags\<close>

text \<open>\<open>String\<close> of a flag value: the flag package also calls it on a nil receiver, the None here.\<close>

definition pullPolicy_String :: "string option \<Rightarrow> string" where
  "pullPolicy_String p = (case p of None \<Rightarrow> [] | Some policy \<Rightarrow> policy)"

definition stringSlice_String :: "string list option \<Rightarrow> string" where
  "stringSlice_String target = (case target of None \<Rightarrow> [] | Some ns \<Rightarrow> join '','' ns)"

definition stringSlice_Set :: "string \<Rightarrow> string list" where
  "stringSlice_Set v = trimmed_fields v"

definition pullPolicy_Set :: "string \<Rightarrow> string" where
  "pullPolicy_Set v = v"

text \<open>
  \<open>strconv.ParseInt(s, 0, 64)\<close>, which \<open>IntVar\<close> uses: an optional sign, a base prefix (a bare leading
  zero means octal) and underscores between digits.
\<close>

definition lower :: "char \<Rightarrow> char" where
  "lower c = (let n = of_char c :: nat in if 65 \<le> n \<and> n \<le> 90 then char_of (n + 32) else c)"

definition digit_of :: "char \<Rightarrow> nat option" where
  "digit_of c =
     (let n = of_char c :: nat; l = of_char (lower c) :: nat in
      if 48 \<le> n \<and> n \<le> 57 then Some (n - 48)
      else if 97 \<le> l \<and> l \<le> 122 then Some (l - 97 + 10) else None)"

definition base_prefix :: "string \<Rightarrow> nat \<times> string" where
  "base_prefix s =
     (case s of
        c0 # c1 # c2 # r \<Rightarrow>
          if c0 = CHR ''0'' \<and> lower c1 = CHR ''b'' then (2, c2 # r)
          else if c0 = CHR ''0'' \<and> lower c1 = CHR ''o'' then (8, c2 # r)
          else if c0 = CHR ''0'' \<and> lower c1 = CHR ''x'' then (16, c2 # r)
          else if c0 = CHR ''0'' then (8, c1 # c2 # r) else (10, s)
      | c0 # r \<Rightarrow> if c0 = CHR ''0'' then (8, r) else (10, s)
      | [] \<Rightarrow> (10, []))"

fun digits_value :: "nat \<Rightarrow> string \<Rightarrow> nat \<Rightarrow> nat option" where
  "digits_value base [] n = Some n"
| "digits_value base (c # cs) n =
     (if c = CHR ''_'' then digits_value base cs n
      else (case digit_of c of None \<Rightarrow> None
            | Some d \<Rightarrow> if base \<le> d then None else digits_value base cs (n * base + d)))"

fun underscores_ok :: "bool \<Rightarrow> char \<Rightarrow> string \<Rightarrow> bool" where
  "underscores_ok hex i [] = (i \<noteq> CHR ''_'')"
| "underscores_ok hex i (c # cs) =
     (if (case digit_of c of None \<Rightarrow> False | Some d \<Rightarrow> d < 10 \<or> hex \<and> d < 16)
      then underscores_ok hex (CHR ''0'') cs
      else if c = CHR ''_'' then i = CHR ''0'' \<and> underscores_ok hex c cs
      else i \<noteq> CHR ''_'' \<and> underscores_ok hex (CHR ''!'') cs)"

definition underscoreOK :: "string \<Rightarrow> bool" where
  "underscoreOK s =
     (case s of
        c0 # c1 # r \<Rightarrow>
          if c0 = CHR ''0'' \<and> lower c1 \<in> {CHR ''b'', CHR ''o'', CHR ''x''}
          then underscores_ok (lower c1 = CHR ''x'') (CHR ''0'') r
          else underscores_ok False (CHR ''^'') s
      | _ \<Rightarrow> underscores_ok False (CHR ''^'') s)"

definition ParseUint0 :: "string \<Rightarrow> nat option" where
  "ParseUint0 s =
     (if s = [] then None
      else case base_prefix s of (base, ds) \<Rightarrow>
        (case digits_value base ds 0 of None \<Rightarrow> None
         | Some n \<Rightarrow> if 2 ^ 64 \<le> n \<or> \<not> underscoreOK s then None else Some n))"

definition ParseInt0 :: "string \<Rightarrow> int option" where
  "ParseInt0 s =
     (case s of
        [] \<Rightarrow> None
      | c # r \<Rightarrow>
          (let neg = (c = CHR ''-''); u = (if neg \<or> c = CHR ''+'' then r else s) in
           case ParseUint0 u of None \<Rightarrow> None
           | Some n \<Rightarrow>
               if \<not> neg \<and> 2 ^ 63 \<le> n then None
               else if neg \<and> 2 ^ 63 < n then None
               else Some (if neg then - int n else int n)))"

text \<open>The names \<open>BindFlags\<close> registers, and what setting each of them does.\<close>

definition option_flags :: "string list" where
  "option_flags =
     [''spiffe-helper-image'', ''spiffe-helper-image-pull-policy'', ''spiffe-csi-driver'',
      ''spiffe-socket-mount-path'', ''spiffe-socket-file'', ''excluded-namespaces'',
      ''excluded-namespace-prefixes'', ''ztwim-namespace'', ''max-rendered-bytes'']"

datatype flag_error = BadInt string | NoSuchFlag string

definition flag_set :: "string \<Rightarrow> string \<Rightarrow> Options \<Rightarrow> flag_error + Options" where
  "flag_set name v opts =
     (if name = ''spiffe-helper-image'' then Inr (opts\<lparr>o_SpiffeHelperImage := v\<rparr>)
      else if name = ''spiffe-helper-image-pull-policy''
      then Inr (opts\<lparr>o_SpiffeHelperImagePullPolicy := pullPolicy_Set v\<rparr>)
      else if name = ''spiffe-csi-driver'' then Inr (opts\<lparr>o_SpiffeCSIDriver := v\<rparr>)
      else if name = ''spiffe-socket-mount-path'' then Inr (opts\<lparr>o_SpiffeSocketMountPath := v\<rparr>)
      else if name = ''spiffe-socket-file'' then Inr (opts\<lparr>o_SpiffeSocketFile := v\<rparr>)
      else if name = ''excluded-namespaces''
      then Inr (opts\<lparr>o_ExcludedNamespaces := stringSlice_Set v\<rparr>)
      else if name = ''excluded-namespace-prefixes''
      then Inr (opts\<lparr>o_ExcludedNamespacePrefixes := stringSlice_Set v\<rparr>)
      else if name = ''ztwim-namespace'' then Inr (opts\<lparr>o_ZTWIMNamespace := v\<rparr>)
      else if name = ''max-rendered-bytes'' then
        (case ParseInt0 v of None \<Rightarrow> Inl (BadInt v) | Some n \<Rightarrow> Inr (opts\<lparr>o_MaxRenderedBytes := n\<rparr>))
      else Inl (NoSuchFlag name))"

section \<open>Validation and derived values\<close>

datatype option_error =
    ImageEmpty
  | BadPullPolicy string
  | CSIDriverEmpty
  | SocketMountPathNotAbsolute string
  | SocketFileEmpty
  | SocketFileHasSlash string
  | MaxRenderedBytesNotPositive int

definition Validate_options :: "Options \<Rightarrow> option_error list" where
  "Validate_options opts =
     (if o_SpiffeHelperImage opts = [] then [ImageEmpty] else []) @
     (if o_SpiffeHelperImagePullPolicy opts \<in> {PullAlways, PullIfNotPresent, PullNever} then []
      else [BadPullPolicy (o_SpiffeHelperImagePullPolicy opts)]) @
     (if o_SpiffeCSIDriver opts = [] then [CSIDriverEmpty] else []) @
     (if \<not> IsAbs (o_SpiffeSocketMountPath opts)
      then [SocketMountPathNotAbsolute (o_SpiffeSocketMountPath opts)] else []) @
     (if o_SpiffeSocketFile opts = [] then [SocketFileEmpty]
      else if CHR ''/'' \<in> set (o_SpiffeSocketFile opts)
      then [SocketFileHasSlash (o_SpiffeSocketFile opts)] else []) @
     (if o_MaxRenderedBytes opts \<le> 0 then [MaxRenderedBytesNotPositive (o_MaxRenderedBytes opts)]
      else [])"

definition SocketPath :: "Options \<Rightarrow> string" where
  "SocketPath opts = path_Join [o_SpiffeSocketMountPath opts, o_SpiffeSocketFile opts]"

definition ExcludedNamespaceNames :: "Options \<Rightarrow> string list" where
  "ExcludedNamespaceNames opts =
     sort (remdups (filter (\<lambda>n. n \<noteq> [])
       (o_ExcludedNamespaces opts @ [o_OperatorNamespace opts, o_ZTWIMNamespace opts])))"

lemma flag_set_OperatorNamespace:
  "flag_set name v opts = Inr opts' \<Longrightarrow> o_OperatorNamespace opts' = o_OperatorNamespace opts"
  by (auto simp: flag_set_def split: if_splits option.splits)

lemma set_ExcludedNamespaceNames:
  "set (ExcludedNamespaceNames opts) =
     {n \<in> insert (o_OperatorNamespace opts) (insert (o_ZTWIMNamespace opts)
        (set (o_ExcludedNamespaces opts))). n \<noteq> []}"
  by (auto simp: ExcludedNamespaceNames_def)

lemma Validate_options_socket:
  assumes "Validate_options opts = []"
  shows "IsAbs (o_SpiffeSocketMountPath opts)" "o_SpiffeSocketFile opts \<noteq> []"
    "0 < o_MaxRenderedBytes opts"
  using assms by (auto simp: Validate_options_def split: if_splits)

lemma ApplyEnv_image:
  "o_SpiffeHelperImage (ApplyEnv getenv opts) =
     (if getenv ''SPIFFE_HELPER_IMAGE'' \<noteq> [] then getenv ''SPIFFE_HELPER_IMAGE''
      else if getenv ''RELATED_IMAGE_SPIFFE_HELPER'' \<noteq> [] then getenv ''RELATED_IMAGE_SPIFFE_HELPER''
      else o_SpiffeHelperImage opts)"
  by (simp add: ApplyEnv_def Let_def)

lemma ApplyEnv_rest:
  "o_SpiffeHelperImagePullPolicy (ApplyEnv getenv opts) = o_SpiffeHelperImagePullPolicy opts"
  "o_SpiffeCSIDriver (ApplyEnv getenv opts) = o_SpiffeCSIDriver opts"
  "o_SpiffeSocketMountPath (ApplyEnv getenv opts) = o_SpiffeSocketMountPath opts"
  "o_SpiffeSocketFile (ApplyEnv getenv opts) = o_SpiffeSocketFile opts"
  "o_MaxRenderedBytes (ApplyEnv getenv opts) = o_MaxRenderedBytes opts"
  by (simp_all add: ApplyEnv_def Let_def)

lemma Validate_Defaults: "Validate_options Defaults_options = []"
  by (simp add: Validate_options_def Defaults_options_def PullIfNotPresent_def PullAlways_def
      PullNever_def IsAbs_def HasPrefix_def)

section \<open>Properties\<close>

text \<open>
  The exact excluded names are strictly sorted, hence without duplicates, and are the non-empty
  ones among the configured names, the operator's own namespace and the ZTWIM namespace: leaving
  one of the latter two unset never excludes the empty name.
\<close>

lemma ExcludedNamespaceNames_correct:
  "sorted_wrt (<) (ExcludedNamespaceNames opts) \<and>
   (n \<in> set (ExcludedNamespaceNames opts) \<longleftrightarrow>
      n \<noteq> [] \<and>
      (n = o_OperatorNamespace opts \<or> n = o_ZTWIMNamespace opts \<or> n \<in> set (o_ExcludedNamespaces opts)))"
  unfolding set_ExcludedNamespaceNames
  by (auto simp: ExcludedNamespaceNames_def strict_sorted_iff)

text \<open>
  Start-up without flags never fails validation: the defaults overlaid with any environment are
  valid, the helper image is the first non-empty one of the two variables and the default, and the
  operator namespace is the pod namespace of the environment.
\<close>

lemma startup_options_valid:
  "Validate_options (ApplyEnv getenv Defaults_options) = [] \<and>
   o_SpiffeHelperImage (ApplyEnv getenv Defaults_options) =
     (if getenv ''SPIFFE_HELPER_IMAGE'' \<noteq> [] then getenv ''SPIFFE_HELPER_IMAGE''
      else if getenv ''RELATED_IMAGE_SPIFFE_HELPER'' \<noteq> [] then getenv ''RELATED_IMAGE_SPIFFE_HELPER''
      else ''ghcr.io/spiffe/spiffe-helper:0.10.0'') \<and>
   o_OperatorNamespace (ApplyEnv getenv Defaults_options) = getenv ''POD_NAMESPACE''"
proof (intro conjI)
  have "o_SpiffeHelperImage (ApplyEnv getenv Defaults_options) \<noteq> []"
    by (simp add: ApplyEnv_image Defaults_options_def)
  with Validate_Defaults show "Validate_options (ApplyEnv getenv Defaults_options) = []"
    unfolding Validate_options_def ApplyEnv_rest by (auto split: if_splits)
  show "o_OperatorNamespace (ApplyEnv getenv Defaults_options) = getenv ''POD_NAMESPACE''"
    by (simp add: ApplyEnv_def Let_def Defaults_options_def)
qed (simp add: ApplyEnv_image Defaults_options_def)

lemma trimmed_fields_empty: "trimmed_fields [] = []"
  by code_simp

text \<open>
  A list flag can be set back from the text it prints exactly when its elements are non-empty,
  comma-free and trimmed, and setting a list flag always stores such a list.
\<close>

lemma stringSlice_roundtrip:
  "(stringSlice_Set (stringSlice_String (Some ns)) = ns \<longleftrightarrow> list_all trimmed_name ns) \<and>
   stringSlice_Set (stringSlice_String (Some (stringSlice_Set v))) = stringSlice_Set v \<and>
   stringSlice_Set (stringSlice_String None) = []"
  by (simp add: stringSlice_Set_def stringSlice_String_def trimmed_fields_join_iff trimmed_fields_all trimmed_fields_empty)

end
