(* ===== verification/Handler.thy ===== *)
theory Handler
  imports InjectionProps Config "HOL-Library.Multiset"
begin

text \<open>
  The mutating admission webhook, package \<open>internal/webhook/pod\<close> (\<open>handler.go\<close>), where selection,
  parameters and injection meet the API server. What the API server and the codecs answer is a
  parameter: the readers of the handler and the record \<open>library\<close> of functions that belong to other
  modules (label selectors, the template engine, the printable runes of \<open>strconv.Quote\<close>, the JSON
  encoder). A read is found, not found, or failed, which is all the handler distinguishes.
  Logging is not modelled: it has no effect on the response.
\<close>

section \<open>State\<close>

datatype operation = Create | Update | Delete | Connect

record Request =
  req_Operation :: operation
  req_Namespace :: string
  req_Raw :: string

record Reader =
  rd_Namespace :: "string \<Rightarrow> MetaObject api_get"
  rd_ServiceAccount :: "string \<Rightarrow> string \<Rightarrow> MetaObject api_get"
  rd_OIDCShims :: "string \<Rightarrow> go_error + OIDCShim list"
  rd_ClusterOIDCShims :: "go_error + ClusterOIDCShim list"

record Handler =
  hd_Reader :: Reader
  hd_ConfigMap :: "string \<Rightarrow> string \<Rightarrow> smap api_get"
  hd_Decode :: "Request \<Rightarrow> go_error + Pod"
  hd_Options :: Options

record library =
  lib_asSel :: as_selector
  lib_engine :: engine
  lib_isPrint :: "nat \<Rightarrow> bool"
  lib_marshal :: "Pod \<Rightarrow> go_error + string"

text \<open>Why a shim contributes no plan, the warnings of a response and the responses.\<close>

datatype skip_error =
    SkipSelection "(string \<times> go_error) list"
  | SkipResolve resolve_error
  | SkipPlan plan_error

datatype handler_warning = ShimSkipped string skip_error | ApplyWarning apply_warning

datatype handler_error =
    DecodeFailed go_error
  | GetNamespaceFailed string go_error
  | GetServiceAccountFailed string string go_error
  | ListShimsFailed string go_error
  | ListClusterShimsFailed go_error
  | MarshalFailed go_error

datatype response =
    Allowed string "handler_warning list"
  | Errored nat handler_error
  | Patched string string "handler_warning list"

definition StatusBadRequest :: nat where "StatusBadRequest = 400"
definition StatusInternalServerError :: nat where "StatusInternalServerError = 500"

section \<open>Reading the target and the shims\<close>

definition defaultServiceAccountName :: string where
  "defaultServiceAccountName = ''default''"

definition readTarget ::
  "Handler \<Rightarrow> string \<Rightarrow> Pod \<Rightarrow> response + MetaObject option \<times> MetaObject option" where
  "readTarget h namespace pod =
     (case rd_Namespace (hd_Reader h) namespace of
        Failed err \<Rightarrow> Inl (Errored StatusInternalServerError (GetNamespaceFailed namespace err))
      | ns_result \<Rightarrow>
          (let ns = (case ns_result of Found o' \<Rightarrow> Some o' | _ \<Rightarrow> None);
               saName = (if pod_ServiceAccountName pod = [] then defaultServiceAccountName
                         else pod_ServiceAccountName pod) in
           case rd_ServiceAccount (hd_Reader h) namespace saName of
             Failed err \<Rightarrow>
               Inl (Errored StatusInternalServerError (GetServiceAccountFailed namespace saName err))
           | Found sa \<Rightarrow> Inr (ns, Some sa)
           | NotFound \<Rightarrow> Inr (ns, None)))"

definition listShims :: "Handler \<Rightarrow> string \<Rightarrow> response + Shim list" where
  "listShims h namespace =
     (case rd_OIDCShims (hd_Reader h) namespace of
        Inl err \<Rightarrow> Inl (Errored StatusInternalServerError (ListShimsFailed namespace err))
      | Inr namespaced \<Rightarrow>
          (case rd_ClusterOIDCShims (hd_Reader h) of
             Inl err \<Rightarrow> Inl (Errored StatusInternalServerError (ListClusterShimsFailed err))
           | Inr cluster \<Rightarrow>
               Inr (map Namespaced (sort_key os_Name namespaced) @
                    map ClusterScoped (sort_key cs_Name cluster))))"

section \<open>Plans\<close>

definition defaults_of :: "Options \<Rightarrow> Defaults" where
  "defaults_of opts =
     \<lparr>d_HelperImage = o_SpiffeHelperImage opts,
      d_HelperImagePullPolicy = o_SpiffeHelperImagePullPolicy opts,
      d_CSIDriver = o_SpiffeCSIDriver opts,
      d_SocketMountPath = o_SpiffeSocketMountPath opts,
      d_SocketFile = o_SpiffeSocketFile opts,
      d_MaxRenderedBytes = o_MaxRenderedBytes opts\<rparr>"

definition getConfigMap :: "Handler \<Rightarrow> ConfigMapGetter" where
  "getConfigMap h namespace name =
     (case hd_ConfigMap h namespace name of
        Found data \<Rightarrow> Inr data
      | NotFound \<Rightarrow> Inr []
      | Failed err \<Rightarrow> Inl err)"

definition no_metadata :: Metadata where
  "no_metadata = \<lparr>md_Annotations = [], md_Labels = []\<rparr>"

definition object_metadata :: "MetaObject option \<Rightarrow> Metadata" where
  "object_metadata obj =
     (case obj of None \<Rightarrow> no_metadata
      | Some o' \<Rightarrow> \<lparr>md_Annotations = mo_Annotations o', md_Labels = mo_Labels o'\<rparr>)"

definition lookupFor :: "Target \<Rightarrow> Lookup" where
  "lookupFor target =
     \<lparr>lk_Pod =
        (case t_Pod target of None \<Rightarrow> no_metadata
         | Some p \<Rightarrow> \<lparr>md_Annotations = pod_Annotations p, md_Labels = pod_Labels p\<rparr>),
      lk_ServiceAccount = object_metadata (t_ServiceAccount target),
      lk_Namespace = object_metadata (t_Namespace target)\<rparr>"

text \<open>The body of the loop of \<open>buildPlans\<close>: an error, no match, or a plan.\<close>

definition shim_input :: "Handler \<Rightarrow> string \<Rightarrow> Target \<Rightarrow> Shim \<Rightarrow> Token \<Rightarrow> Input" where
  "shim_input h namespace target shim tok =
     \<lparr>in_Parameters = spec_Parameters (ShimSpec shim),
      in_Lookup = lookupFor target,
      in_Builtins = Builtins_for shim (t_Pod target) namespace tok,
      in_ConfigMapNamespace = ConfigMapNamespaceFor shim namespace,
      in_GetConfigMap = Some (getConfigMap h)\<rparr>"

definition plan_for ::
  "library \<Rightarrow> Handler \<Rightarrow> string \<Rightarrow> Target \<Rightarrow> Shim \<Rightarrow> skip_error + Plan option" where
  "plan_for lib h namespace target shim =
     (let spec = ShimSpec shim in
      case Matches (lib_asSel lib) (GetName shim) (spec_Selection spec) target of
        Inl err \<Rightarrow> Inl (SkipSelection err)
      | Inr matched \<Rightarrow>
          if \<not> matched then Inr None
          else
            (let tok = ResolveToken (GetName shim) (spec_Token spec) in
             case Resolve (lib_engine lib) (shim_input h namespace target shim tok) of
               Inl err \<Rightarrow> Inl (SkipResolve err)
             | Inr values \<Rightarrow>
                 (case BuildPlan (lib_engine lib) (lib_isPrint lib) shim values tok
                         (defaults_of (hd_Options h)) of
                    Inl err \<Rightarrow> Inl (SkipPlan err)
                  | Inr plan \<Rightarrow> Inr (Some plan))))"

fun buildPlans ::
  "library \<Rightarrow> Handler \<Rightarrow> Shim list \<Rightarrow> string \<Rightarrow> Target \<Rightarrow> Plan list \<times> handler_warning list" where
  "buildPlans lib h [] namespace target = ([], [])"
| "buildPlans lib h (shim # shims) namespace target =
     (case buildPlans lib h shims namespace target of (plans, warnings) \<Rightarrow>
        (case plan_for lib h namespace target shim of
           Inl err \<Rightarrow> (plans, ShimSkipped (ShimKey shim) err # warnings)
         | Inr None \<Rightarrow> (plans, warnings)
         | Inr (Some plan) \<Rightarrow> (plan # plans, warnings)))"

section \<open>Handle\<close>

definition exclusions_of :: "Options \<Rightarrow> Exclusions" where
  "exclusions_of opts =
     \<lparr>ex_Names = ExcludedNamespaceNames opts, ex_Prefixes = o_ExcludedNamespacePrefixes opts\<rparr>"

definition request_namespace :: "Request \<Rightarrow> Pod \<Rightarrow> string" where
  "request_namespace req pod = (if req_Namespace req = [] then pod_Namespace pod else req_Namespace req)"

definition mutate_pod ::
  "library \<Rightarrow> Handler \<Rightarrow> Request \<Rightarrow> Pod \<Rightarrow> string \<Rightarrow> MetaObject option \<Rightarrow> MetaObject option \<Rightarrow> Shim list \<Rightarrow> response" where
  "mutate_pod lib h req pod namespace ns sa shims =
     (let target = \<lparr>t_Pod = Some pod, t_ServiceAccount = sa, t_Namespace = ns\<rparr> in
      case buildPlans lib h shims namespace target of (plans, warnings) \<Rightarrow>
        (case Apply_pod pod plans of (pod', applied, applyWarnings) \<Rightarrow>
           (let warnings = warnings @ map ApplyWarning applyWarnings in
            if applied = [] then Allowed ''no shim applied'' warnings
            else
              (case lib_marshal lib pod' of
                 Inl err \<Rightarrow> Errored StatusInternalServerError (MarshalFailed err)
               | Inr marshaled \<Rightarrow> Patched (req_Raw req) marshaled warnings))))"

definition Handle :: "library \<Rightarrow> Handler \<Rightarrow> Request \<Rightarrow> response" where
  "Handle lib h req =
     (if req_Operation req \<noteq> Create then Allowed ''only CREATE is mutated'' []
      else
        (case hd_Decode h req of
           Inl err \<Rightarrow> Errored StatusBadRequest (DecodeFailed err)
         | Inr pod \<Rightarrow>
             (let namespace = request_namespace req pod in
              if OptedOut (Some pod) then Allowed ''opted out'' []
              else if smap_get (pod_Annotations pod) StatusAnnotation = StatusInjected then
                Allowed ''already injected'' []
              else if Excluded (exclusions_of (hd_Options h)) namespace then
                Allowed ''namespace excluded'' []
              else
                (case readTarget h namespace pod of
                   Inl resp \<Rightarrow> resp
                 | Inr (ns, sa) \<Rightarrow>
                     (case listShims h namespace of
                        Inl resp \<Rightarrow> resp
                      | Inr shims \<Rightarrow> mutate_pod lib h req pod namespace ns sa shims)))))"

section \<open>The contract of the injection\<close>

text \<open>
  What the handler relies on in \<open>injection.Apply\<close>: nothing applied means nothing changed, the applied
  plans are among the plans given, an injected pod is marked, the opt-out annotation is left
  alone, and a marked pod is not injected again.
\<close>

locale pod_injector =
  fixes inject :: "'pod \<Rightarrow> 'plan list \<Rightarrow> 'pod \<times> 'plan list \<times> 'w list"
    and annotations :: "'pod \<Rightarrow> smap"
  assumes untouched: "inject pod plans = (pod', [], ws) \<Longrightarrow> pod' = pod"
    and selected: "inject pod plans = (pod', applied, ws) \<Longrightarrow> subseq applied plans"
    and marked: "\<lbrakk>inject pod plans = (pod', applied, ws); applied \<noteq> []\<rbrakk> \<Longrightarrow>
      smap_get (annotations pod') StatusAnnotation = StatusInjected"
    and opt_out_kept: "inject pod plans = (pod', applied, ws) \<Longrightarrow>
      smap_lookup (annotations pod') InjectAnnotation = smap_lookup (annotations pod) InjectAnnotation"
    and marked_rejected: "smap_get (annotations pod) StatusAnnotation = StatusInjected \<Longrightarrow>
      fst (snd (inject pod plans)) = []"
begin

lemma no_plans: "inject pod [] = (pod', applied, ws) \<Longrightarrow> applied = [] \<and> pod' = pod"
  using selected [of pod "[]"] untouched [of pod "[]"] by (cases "applied = []") auto

lemma inject_twice:
  "\<lbrakk>inject pod plans = (pod', applied, ws); applied \<noteq> []; inject pod' plans' = (pod'', applied', ws')\<rbrakk> \<Longrightarrow>
   pod'' = pod' \<and> applied' = []"
  using marked marked_rejected [of pod' plans'] untouched by (metis fst_conv snd_conv)

end

lemma Apply_pod_finish:
  "Apply_pod pod plans = (pod', applied, ws) \<Longrightarrow>
   pod' = pod \<and> applied = [] \<or>
   (\<exists>st. apply_reach pod plans st \<and> pod' = apply_finish st \<and> applied = a_applied st \<and> applied \<noteq> [])"
  using apply_reach_fold [of pod plans] apply_reach_unchanged [OF apply_reach_fold, of pod plans]
  by (auto simp: Apply_pod_def Let_def split: if_splits)

lemma InjectAnnotation_other [name_simps]:
  "InjectAnnotation \<noteq> StatusAnnotation" "InjectAnnotation \<noteq> ShimsAnnotation"
  "InjectAnnotation \<noteq> fileAnnotation a i" "InjectAnnotation \<noteq> HelperConfAnnotation b"
  by (simp_all add: fileAnnotation_def HelperConfAnnotation_def key_defs)

interpretation inj: pod_injector Apply_pod pod_Annotations
proof unfold_locales
  fix pod plans pod' applied and ws :: "apply_warning list"
  show "Apply_pod pod plans = (pod', [], ws) \<Longrightarrow> pod' = pod" using Apply_pod_finish by blast
  assume A: "Apply_pod pod plans = (pod', applied, ws)"
  show "subseq applied plans" using Apply_pod_finish [OF A] apply_reach_subseq by auto
  show "smap_get (pod_Annotations pod') StatusAnnotation = StatusInjected" if "applied \<noteq> []"
    using Apply_pod_finish [OF A] that by (auto simp: frame_simps smap_get_set name_simps)
  show "smap_lookup (pod_Annotations pod') InjectAnnotation = smap_lookup (pod_Annotations pod) InjectAnnotation"
    using Apply_pod_finish [OF A]
  proof (elim disjE exE conjE)
    fix st
    assume r: "apply_reach pod plans st" and st: "pod' = apply_finish st"
    have "InjectAnnotation \<notin> fst ` set (concat (map plan_annotations (a_applied st)))"
      by (auto simp: name_simps dest!: plan_annotations_keys [OF imageI])
    then show ?thesis
      unfolding st frame_simps effect_inv_fields(1) [OF reach_effect [OF r]] store_all_def
      by (simp add: sm.lookup_store name_simps sm.lookup_store_all_other)
  qed simp
next
  fix pod plans
  show "smap_get (pod_Annotations pod) StatusAnnotation = StatusInjected \<Longrightarrow> fst (snd (Apply_pod pod plans)) = []"
    by (simp add: Apply_pod_def)
qed

section \<open>The plans of a pod\<close>

definition shim_plan :: "library \<Rightarrow> Handler \<Rightarrow> string \<Rightarrow> Target \<Rightarrow> Shim \<Rightarrow> Plan option" where
  "shim_plan lib h namespace target shim =
     (case plan_for lib h namespace target shim of Inr p \<Rightarrow> p | Inl _ \<Rightarrow> None)"

lemma buildPlans_plans:
  "fst (buildPlans lib h shims namespace target) = List.map_filter (shim_plan lib h namespace target) shims"
  by (induction shims)
    (auto simp: shim_plan_def map_filter_simps split: prod.split sum.split option.split)

lemma shim_plan_Some:
  assumes "shim_plan lib h namespace target s = Some p"
  shows "Matches (lib_asSel lib) (GetName s) (spec_Selection (ShimSpec s)) target = Inr True"
    "plan_wf p" "p_ShimKey p = ShimKey s" "p_ShimName p = GetName s"
    "\<exists>vs. BuildPlan (lib_engine lib) (lib_isPrint lib) s vs
       (ResolveToken (GetName s) (spec_Token (ShimSpec s))) (defaults_of (hd_Options h)) = Inr p"
proof -
  from assms obtain vs where
    m: "Matches (lib_asSel lib) (GetName s) (spec_Selection (ShimSpec s)) target = Inr True"
    and b: "BuildPlan (lib_engine lib) (lib_isPrint lib) s vs
       (ResolveToken (GetName s) (spec_Token (ShimSpec s))) (defaults_of (hd_Options h)) = Inr p"
    by (auto simp: shim_plan_def plan_for_def Let_def split: sum.splits if_splits)
  from m show "Matches (lib_asSel lib) (GetName s) (spec_Selection (ShimSpec s)) target = Inr True" .
  from BuildPlan_wf [OF b] show "plan_wf p" "p_ShimKey p = ShimKey s" "p_ShimName p = GetName s" by auto
  from b show "\<exists>vs. BuildPlan (lib_engine lib) (lib_isPrint lib) s vs
       (ResolveToken (GetName s) (spec_Token (ShimSpec s))) (defaults_of (hd_Options h)) = Inr p" by blast
qed

lemma map_filter_keys_subseq:
  assumes "\<And>x y. f x = Some y \<Longrightarrow> g y = k x"
  shows "subseq (map g (List.map_filter f xs)) (map k xs)"
  using assms by (induction xs) (auto simp: map_filter_simps split: option.split)

section \<open>When the handler answers what\<close>

definition exempt :: "Options \<Rightarrow> string \<Rightarrow> Pod \<Rightarrow> bool" where
  "exempt opts namespace pod \<longleftrightarrow>
     OptedOut (Some pod) \<or> smap_get (pod_Annotations pod) StatusAnnotation = StatusInjected \<or>
     Excluded (exclusions_of opts) namespace"

fun failed :: "'a api_get \<Rightarrow> bool" where
  "failed (Failed err) = True"
| "failed (Found x) = False"
| "failed NotFound = False"

fun found :: "'a api_get \<Rightarrow> 'a option" where
  "found (Failed err) = None"
| "found (Found x) = Some x"
| "found NotFound = None"

definition sa_name :: "Pod \<Rightarrow> string" where
  "sa_name pod = (if pod_ServiceAccountName pod = [] then ''default'' else pod_ServiceAccountName pod)"

definition read_failure :: "Handler \<Rightarrow> string \<Rightarrow> Pod \<Rightarrow> bool" where
  "read_failure h namespace pod \<longleftrightarrow>
     failed (rd_Namespace (hd_Reader h) namespace) \<or>
     failed (rd_ServiceAccount (hd_Reader h) namespace (sa_name pod)) \<or>
     isl (rd_OIDCShims (hd_Reader h) namespace) \<or> isl (rd_ClusterOIDCShims (hd_Reader h))"

lemma readTarget_isl:
  "isl (readTarget h namespace pod) \<longleftrightarrow>
     failed (rd_Namespace (hd_Reader h) namespace) \<or>
     failed (rd_ServiceAccount (hd_Reader h) namespace (sa_name pod))"
  unfolding readTarget_def defaultServiceAccountName_def sa_name_def [symmetric] Let_def
  by (cases "rd_Namespace (hd_Reader h) namespace";
      cases "rd_ServiceAccount (hd_Reader h) namespace (sa_name pod)") simp_all

lemma readTarget_ok:
  "\<not> isl (readTarget h namespace pod) \<Longrightarrow> readTarget h namespace pod =
     Inr (found (rd_Namespace (hd_Reader h) namespace),
          found (rd_ServiceAccount (hd_Reader h) namespace (sa_name pod)))"
  unfolding readTarget_def defaultServiceAccountName_def sa_name_def [symmetric] Let_def
  by (cases "rd_Namespace (hd_Reader h) namespace";
      cases "rd_ServiceAccount (hd_Reader h) namespace (sa_name pod)") simp_all

lemma readTarget_error: "readTarget h namespace pod = Inl r \<Longrightarrow> \<exists>e. r = Errored StatusInternalServerError e"
  by (auto simp: readTarget_def Let_def split: api_get.splits)

lemma listShims_error: "listShims h namespace = Inl r \<Longrightarrow> \<exists>e. r = Errored StatusInternalServerError e"
  by (auto simp: listShims_def split: sum.splits)

lemma listShims_isl:
  "isl (listShims h namespace) \<longleftrightarrow>
     isl (rd_OIDCShims (hd_Reader h) namespace) \<or> isl (rd_ClusterOIDCShims (hd_Reader h))"
  by (auto simp: listShims_def split: sum.split)

definition target_of :: "Handler \<Rightarrow> string \<Rightarrow> Pod \<Rightarrow> Target" where
  "target_of h namespace pod =
     \<lparr>t_Pod = Some pod,
      t_ServiceAccount = found (rd_ServiceAccount (hd_Reader h) namespace (sa_name pod)),
      t_Namespace = found (rd_Namespace (hd_Reader h) namespace)\<rparr>"

text \<open>The plans the webhook computes for a pod, in the order it applies them.\<close>

definition pod_plans :: "library \<Rightarrow> Handler \<Rightarrow> string \<Rightarrow> Pod \<Rightarrow> Plan list" where
  "pod_plans lib h namespace pod =
     List.map_filter (shim_plan lib h namespace (target_of h namespace pod)) (projr (listShims h namespace))"

lemma Handle_reads:
  assumes "req_Operation req = Create" "hd_Decode h req = Inr pod"
    and "\<not> exempt (hd_Options h) (request_namespace req pod) pod"
    and "read_failure h (request_namespace req pod) pod"
  shows "\<exists>e. Handle lib h req = Errored StatusInternalServerError e"
proof (cases "readTarget h (request_namespace req pod) pod")
  case (Inl r)
  with assms readTarget_error [OF Inl] show ?thesis by (auto simp: Handle_def Let_def exempt_def)
next
  case (Inr nssa)
  with readTarget_isl [of h "request_namespace req pod" pod] assms(4)
  have "isl (listShims h (request_namespace req pod))"
    by (auto simp: read_failure_def listShims_isl split: if_splits)
  then obtain r where l: "listShims h (request_namespace req pod) = Inl r"
    by (cases "listShims h (request_namespace req pod)") auto
  with assms Inr listShims_error [OF l] show ?thesis by (auto simp: Handle_def Let_def exempt_def split: prod.split)
qed

lemma Handle_mutates:
  assumes "req_Operation req = Create" "hd_Decode h req = Inr pod"
    and "\<not> exempt (hd_Options h) (request_namespace req pod) pod"
    and "\<not> read_failure h (request_namespace req pod) pod"
    and "Apply_pod pod (pod_plans lib h (request_namespace req pod) pod) = (pod', applied, aws)"
  shows "\<exists>ws. Handle lib h req =
    (if applied = [] then Allowed ''no shim applied'' (ws @ map ApplyWarning aws)
     else case lib_marshal lib pod' of
       Inl err \<Rightarrow> Errored StatusInternalServerError (MarshalFailed err)
     | Inr marshaled \<Rightarrow> Patched (req_Raw req) marshaled (ws @ map ApplyWarning aws))"
proof -
  let ?ns = "request_namespace req pod"
  obtain shims where l: "listShims h ?ns = Inr shims"
    using assms(4) listShims_isl [of h ?ns] by (cases "listShims h ?ns") (auto simp: read_failure_def)
  have t: "readTarget h ?ns pod = Inr (t_Namespace (target_of h ?ns pod), t_ServiceAccount (target_of h ?ns pod))"
    using assms(4) readTarget_ok by (simp add: read_failure_def readTarget_isl target_of_def)
  obtain ws where b: "buildPlans lib h shims ?ns (target_of h ?ns pod) = (pod_plans lib h ?ns pod, ws)"
    using buildPlans_plans [of lib h shims ?ns "target_of h ?ns pod"] l
    by (cases "buildPlans lib h shims ?ns (target_of h ?ns pod)") (simp add: pod_plans_def)
  have tgt: "\<lparr>t_Pod = Some pod, t_ServiceAccount = t_ServiceAccount (target_of h ?ns pod),
      t_Namespace = t_Namespace (target_of h ?ns pod)\<rparr> = target_of h ?ns pod"
    by (simp add: target_of_def)
  from assms(1-3) have "Handle lib h req = mutate_pod lib h req pod ?ns
      (t_Namespace (target_of h ?ns pod)) (t_ServiceAccount (target_of h ?ns pod)) shims"
    by (simp add: Handle_def exempt_def t l Let_def)
  with b assms(5) show ?thesis by (intro exI [of _ ws]) (simp add: mutate_pod_def tgt Let_def)
qed

section \<open>A sample cluster\<close>

text \<open>
  The sample pod in a namespace that enrols its pods in the shim and configures the pool; the
  encoder knows only the pod that results.
\<close>

definition sample_namespace :: MetaObject where
  "sample_namespace =
     \<lparr>mo_Name = ''ns'',
      mo_Annotations = [(EnrollmentKey, ''aws, gcp''), (''wid-pool'', ''p1''), (''wid-location'', [])],
      mo_Labels = []\<rparr>"

definition sample_reader :: Reader where
  "sample_reader =
     \<lparr>rd_Namespace = (\<lambda>n. if n = ''ns'' then Found sample_namespace else NotFound),
      rd_ServiceAccount = (\<lambda>n s. NotFound),
      rd_OIDCShims = (\<lambda>n. if n = ''ns'' then Inr [case sample_shim of Namespaced s \<Rightarrow> s] else Inr []),
      rd_ClusterOIDCShims = Inr []\<rparr>"

definition sample_options :: Options where
  "sample_options = Defaults_options\<lparr>o_SpiffeHelperImage := ''helper:1''\<rparr>"

definition sample_handler :: Handler where
  "sample_handler =
     \<lparr>hd_Reader = sample_reader, hd_ConfigMap = (\<lambda>n m. NotFound),
      hd_Decode = (\<lambda>req. if req_Raw req = ''in'' then Inr sample_pod
         else if req_Raw req = ''out'' then Inr sample_out else Inl ''bad''),
      hd_Options = sample_options\<rparr>"

definition sample_lib :: library where
  "sample_lib =
     \<lparr>lib_asSel = (\<lambda>s. Inr (\<lambda>m. True)), lib_engine = field_engine, lib_isPrint = (\<lambda>c. True),
      lib_marshal = (\<lambda>pod. if pod = sample_out then Inr ''out'' else Inl ''unknown pod'')\<rparr>"

definition sample_request :: "string \<Rightarrow> Request" where
  "sample_request raw = \<lparr>req_Operation = Create, req_Namespace = ''ns'', req_Raw = raw\<rparr>"

lemma sample_target:
  "target_of sample_handler ''ns'' sample_pod =
     \<lparr>t_Pod = Some sample_pod, t_ServiceAccount = None, t_Namespace = Some sample_namespace\<rparr>"
  by (simp add: target_of_def sample_handler_def sample_reader_def)

lemma sample_matches:
  "Matches asSel ''gcp'' (spec_Selection sample_spec)
     \<lparr>t_Pod = Some sample_pod, t_ServiceAccount = None, t_Namespace = Some sample_namespace\<rparr> = Inr True"
proof -
  have "ParseEnrollment ''aws, gcp'' = [''aws'', ''gcp'']" by code_simp
  then have "Enrolled ''gcp'' None \<lparr>t_Pod = Some sample_pod, t_ServiceAccount = None, t_Namespace = Some sample_namespace\<rparr>"
    by (simp add: Enrolled_def kindEnabled_def enrolls_def sample_namespace_def smap_get_def smap_lookup_def)
  then show ?thesis
    by (simp add: Matches_def compile_def selector_sources_def sample_spec_def)
qed

lemma sample_handler_input:
  "Resolve field_engine (shim_input sample_handler ''ns''
     \<lparr>t_Pod = Some sample_pod, t_ServiceAccount = None, t_Namespace = Some sample_namespace\<rparr>
     sample_shim sample_token) = Inr sample_values"
  by code_simp

lemma sample_shim_plan:
  "shim_plan sample_lib sample_handler ''ns''
     \<lparr>t_Pod = Some sample_pod, t_ServiceAccount = None, t_Namespace = Some sample_namespace\<rparr>
     sample_shim = Some sample_plan"
proof -
  have d: "defaults_of (hd_Options sample_handler) = sample_defaults"
    by (simp add: defaults_of_def sample_handler_def sample_options_def Defaults_options_def
        sample_defaults_def PullIfNotPresent_def)
  have s: "GetName sample_shim = ''gcp''" "ShimSpec sample_shim = sample_spec" by (simp_all add: sample_shim_def)
  show ?thesis
    using sample_matches sample_handler_input sample_plan_built
    by (simp add: shim_plan_def plan_for_def s d Let_def sample_lib_def sample_token_def [symmetric])
qed

lemma sample_plans: "pod_plans sample_lib sample_handler ''ns'' sample_pod = [sample_plan]"
proof -
  have "listShims sample_handler ''ns'' = Inr [sample_shim]"
    by (simp add: listShims_def sample_handler_def sample_reader_def sample_shim_def)
  then show ?thesis by (simp add: pod_plans_def sample_target map_filter_simps sample_shim_plan)
qed

lemma sample_exempt: "\<not> exempt sample_options ''ns'' sample_pod"
  by (simp add: exempt_def OptedOut_def sample_pod_def smap_lookup_def smap_get_def StatusInjected_def
      exclusions_of_def Excluded_iff sample_options_def set_ExcludedNamespaceNames Defaults_options_def)

lemma sample_reads: "\<not> read_failure sample_handler ''ns'' sample_pod"
  by (simp add: read_failure_def sample_handler_def sample_reader_def)

lemma sample_handled:
  "\<exists>ws. Handle sample_lib sample_handler (sample_request ''in'') = Patched ''in'' ''out'' ws"
proof -
  have "request_namespace (sample_request ''in'') sample_pod = ''ns''"
    by (simp add: request_namespace_def sample_request_def)
  then show ?thesis
    using Handle_mutates [of "sample_request ''in''" sample_handler sample_pod sample_lib sample_out "[sample_plan]" "[]"]
      sample_exempt sample_reads sample_plans sample_applied
    by (simp add: sample_request_def sample_handler_def sample_lib_def)
qed

lemma Handle_patched:
  assumes "Handle lib h req = Patched raw marshaled ws"
  obtains pod shims pod' applied aws where "req_Operation req = Create" "hd_Decode h req = Inr pod" "raw = req_Raw req"
    "\<not> exempt (hd_Options h) (request_namespace req pod) pod" "listShims h (request_namespace req pod) = Inr shims"
    "Apply_pod pod (pod_plans lib h (request_namespace req pod) pod) = (pod', applied, aws)"
    "applied \<noteq> []" "lib_marshal lib pod' = Inr marshaled"
    "subseq applied (List.map_filter (shim_plan lib h (request_namespace req pod) (target_of h (request_namespace req pod) pod)) shims)"
proof -
  from assms obtain pod where c: "req_Operation req = Create" and d: "hd_Decode h req = Inr pod"
    and e: "\<not> exempt (hd_Options h) (request_namespace req pod) pod"
    by (auto simp: Handle_def exempt_def Let_def split: if_splits sum.splits)
  let ?ns = "request_namespace req pod"
  have f: "\<not> read_failure h ?ns pod" using Handle_reads [OF c d e, of lib] assms by auto
  then obtain shims where l: "listShims h ?ns = Inr shims"
    using listShims_isl [of h ?ns] by (cases "listShims h ?ns") (auto simp: read_failure_def)
  obtain pod' applied aws where A: "Apply_pod pod (pod_plans lib h ?ns pod) = (pod', applied, aws)"
    by (cases "Apply_pod pod (pod_plans lib h ?ns pod)") auto
  from Handle_mutates [OF c d e f A] assms
  have a: "raw = req_Raw req" "applied \<noteq> []" "lib_marshal lib pod' = Inr marshaled" by (auto split: if_splits sum.splits)
  have "subseq applied (List.map_filter (shim_plan lib h ?ns (target_of h ?ns pod)) shims)"
    using inj.selected [OF A] by (simp add: pod_plans_def l)
  then show thesis by (rule that [OF c d a(1) e l A a(2,3)])
qed

section \<open>Properties\<close>

text \<open>
  (C5) The webhook rejects a pod only when it must. Provided pods can be encoded, a request is answered
  with an error exactly when it creates a pod and the pod cannot be decoded, or the pod is not exempt
  and reading its namespace, its service account or one of the two shim lists fails. A namespace or a service
  account that does not exist is not a failure, and neither is anything in the content of a shim.
\<close>

theorem Handle_rejects_iff:
  assumes "\<And>pod. \<not> isl (lib_marshal lib pod)"
  shows "(\<exists>code e. Handle lib h req = Errored code e) \<longleftrightarrow>
    req_Operation req = Create \<and>
    (case hd_Decode h req of
       Inl err \<Rightarrow> True
     | Inr pod \<Rightarrow>
         \<not> exempt (hd_Options h) (request_namespace req pod) pod \<and>
         read_failure h (request_namespace req pod) pod)"
proof (cases "req_Operation req = Create \<and> (\<exists>pod. hd_Decode h req = Inr pod)")
  case False
  then show ?thesis by (cases "hd_Decode h req") (auto simp: Handle_def)
next
  case True
  then obtain pod where c: "req_Operation req = Create" and d: "hd_Decode h req = Inr pod" by blast
  let ?ns = "request_namespace req pod"
  consider "exempt (hd_Options h) ?ns pod" | "\<not> exempt (hd_Options h) ?ns pod" "read_failure h ?ns pod"
    | "\<not> exempt (hd_Options h) ?ns pod" "\<not> read_failure h ?ns pod" by blast
  then show ?thesis
  proof cases
    case 1
    then show ?thesis by (auto simp: Handle_def c d exempt_def Let_def)
  next
    case 2
    then show ?thesis using Handle_reads [OF c d, of lib] by (auto simp: c d)
  next
    case 3
    obtain pod' applied aws where A: "Apply_pod pod (pod_plans lib h ?ns pod) = (pod', applied, aws)"
      by (cases "Apply_pod pod (pod_plans lib h ?ns pod)") auto
    obtain m where "lib_marshal lib pod' = Inr m" using assms [of pod'] by (cases "lib_marshal lib pod'") auto
    with 3 Handle_mutates [OF c d 3 A] show ?thesis by (auto simp: c d split: if_splits)
  qed
qed

theorem Handle_rejects_iff_witness:
  "\<exists>code e. Handle (sample_lib\<lparr>lib_marshal := (\<lambda>p. Inr [])\<rparr>)
     (sample_handler\<lparr>hd_Reader := sample_reader\<lparr>rd_ClusterOIDCShims := Inl ''timeout''\<rparr>\<rparr>)
     (sample_request ''in'') = Errored code e"
proof -
  let ?h = "sample_handler\<lparr>hd_Reader := sample_reader\<lparr>rd_ClusterOIDCShims := Inl ''timeout''\<rparr>\<rparr>"
  have "request_namespace (sample_request ''in'') sample_pod = ''ns''" "hd_Decode ?h (sample_request ''in'') = Inr sample_pod"
      "hd_Options ?h = sample_options" "read_failure ?h ''ns'' sample_pod"
    by (simp_all add: request_namespace_def sample_request_def sample_handler_def read_failure_def)
  then show ?thesis
    using Handle_rejects_iff [of "sample_lib\<lparr>lib_marshal := (\<lambda>p. Inr [])\<rparr>" ?h "sample_request ''in''"] sample_exempt
    by (simp add: sample_request_def)
qed

text \<open>
  (C22) What the webhook leaves alone. A request that is not a CREATE, and a pod that opted out, was
  injected before or lives in an excluded namespace, is allowed without a patch and without warnings,
  and the answer depends neither on the shims nor on anything else read from the API server.
\<close>

theorem Handle_exempt:
  assumes "req_Operation req \<noteq> Create \<or>
    (\<exists>pod. hd_Decode h req = Inr pod \<and> exempt (hd_Options h) (request_namespace req pod) pod)"
  shows "\<exists>msg. \<forall>r cm lib. Handle lib (h\<lparr>hd_Reader := r, hd_ConfigMap := cm\<rparr>) req = Allowed msg []"
proof (cases "req_Operation req = Create")
  case False
  then show ?thesis by (simp add: Handle_def)
next
  case True
  with assms obtain pod where "hd_Decode h req = Inr pod" "exempt (hd_Options h) (request_namespace req pod) pod"
    by blast
  with True show ?thesis
    by (intro exI [of _ "if OptedOut (Some pod) then ''opted out''
          else if smap_get (pod_Annotations pod) StatusAnnotation = StatusInjected then ''already injected''
          else ''namespace excluded''"])
      (simp add: Handle_def exempt_def Let_def, blast)
qed

theorem Handle_exempt_witness:
  "\<exists>msg. Handle sample_lib sample_handler ((sample_request ''in'')\<lparr>req_Namespace := ''kube-system''\<rparr>) = Allowed msg []"
proof -
  let ?req = "(sample_request ''in'')\<lparr>req_Namespace := ''kube-system''\<rparr>"
  have "exempt (hd_Options sample_handler) (request_namespace ?req sample_pod) sample_pod"
    by (simp add: exempt_def request_namespace_def sample_handler_def exclusions_of_def Excluded_iff
        sample_options_def Defaults_options_def)
  moreover have "hd_Decode sample_handler ?req = Inr sample_pod"
    by (simp add: sample_handler_def sample_request_def)
  ultimately obtain msg where
    "\<forall>r cm lib. Handle lib (sample_handler\<lparr>hd_Reader := r, hd_ConfigMap := cm\<rparr>) ?req = Allowed msg []"
    using Handle_exempt [of ?req sample_handler] by blast
  then have "Handle sample_lib (sample_handler\<lparr>hd_Reader := hd_Reader sample_handler,
      hd_ConfigMap := hd_ConfigMap sample_handler\<rparr>) ?req = Allowed msg []" by blast
  then show ?thesis by auto
qed

text \<open>
  (C6) A patch is justified. When the webhook patches a pod, the patch replaces the pod of the request
  by the result of applying plans to it; every applied plan is well formed, was built for a shim
  listed for the namespace that matches the pod, and carries its key; the plans are applied in the
  order of the list, and no two of them come from shims of the same name.
\<close>

theorem Handle_patch_sound:
  assumes "Handle lib h req = Patched raw marshaled ws"
  shows "\<exists>pod shims pod' applied aws.
    raw = req_Raw req \<and> hd_Decode h req = Inr pod \<and>
    \<not> exempt (hd_Options h) (request_namespace req pod) pod \<and>
    listShims h (request_namespace req pod) = Inr shims \<and>
    Apply_pod pod (pod_plans lib h (request_namespace req pod) pod) = (pod', applied, aws) \<and>
    applied \<noteq> [] \<and> lib_marshal lib pod' = Inr marshaled \<and>
    subseq (map p_ShimKey applied) (map ShimKey shims) \<and> distinct (map p_ShimName applied) \<and>
    (\<forall>p\<in>set applied. plan_wf p \<and>
       (\<exists>s\<in>set shims. p_ShimKey p = ShimKey s \<and> p_ShimName p = GetName s \<and>
          Matches (lib_asSel lib) (GetName s) (spec_Selection (ShimSpec s))
            (target_of h (request_namespace req pod) pod) = Inr True))"
proof (rule Handle_patched [OF assms])
  fix pod shims pod' applied aws
  let ?ns = "request_namespace req pod"
  let ?f = "shim_plan lib h ?ns (target_of h ?ns pod)"
  assume d: "hd_Decode h req = Inr pod" "raw = req_Raw req" "\<not> exempt (hd_Options h) ?ns pod" "listShims h ?ns = Inr shims"
    and A: "Apply_pod pod (pod_plans lib h ?ns pod) = (pod', applied, aws)"
    and a: "applied \<noteq> []" "lib_marshal lib pod' = Inr marshaled" and sub: "subseq applied (List.map_filter ?f shims)"
  have "subseq (map p_ShimKey applied) (map p_ShimKey (List.map_filter ?f shims))" using sub by (rule subseq_map)
  then have k: "subseq (map p_ShimKey applied) (map ShimKey shims)"
    using map_filter_keys_subseq [of ?f p_ShimKey ShimKey shims] shim_plan_Some(3) subseq_order.order_trans by blast
  have n: "distinct (map p_ShimName applied)"
    using Apply_pod_finish [OF A] a(1) reach_names by (auto simp: names_inv_def)
  have "plan_wf p \<and> (\<exists>s\<in>set shims. p_ShimKey p = ShimKey s \<and> p_ShimName p = GetName s \<and>
      Matches (lib_asSel lib) (GetName s) (spec_Selection (ShimSpec s)) (target_of h ?ns pod) = Inr True)"
    if "p \<in> set applied" for p
  proof -
    have "p \<in> set (List.map_filter ?f shims)" using sub that by (auto dest: list_emb_set)
    then obtain s where "s \<in> set shims" "?f s = Some p" by (auto simp: map_filter_def)
    then show ?thesis using shim_plan_Some [of lib h ?ns "target_of h ?ns pod" s p] by auto
  qed
  with a d A k n show ?thesis by blast
qed

theorem Handle_patch_sound_witness:
  "\<exists>pod shims pod' applied aws. hd_Decode sample_handler (sample_request ''in'') = Inr pod \<and>
     Apply_pod pod (pod_plans sample_lib sample_handler (request_namespace (sample_request ''in'') pod) pod)
       = (pod', applied, aws) \<and> applied \<noteq> [] \<and> subseq (map p_ShimKey applied) (map ShimKey shims)"
proof -
  obtain ws where "Handle sample_lib sample_handler (sample_request ''in'') = Patched ''in'' ''out'' ws"
    using sample_handled by blast
  from Handle_patch_sound [OF this] show ?thesis by blast
qed

text \<open>
  Two pods that differ at most in the order in which their annotations and labels are listed: what decoding
  an encoded pod gives, since a JSON object has no order.
\<close>

definition same_pod :: "Pod \<Rightarrow> Pod \<Rightarrow> bool" where
  "same_pod p q \<longleftrightarrow>
     smap_lookup (pod_Annotations q) = smap_lookup (pod_Annotations p) \<and>
     smap_lookup (pod_Labels q) = smap_lookup (pod_Labels p) \<and>
     q\<lparr>pod_Annotations := [], pod_Labels := []\<rparr> = p\<lparr>pod_Annotations := [], pod_Labels := []\<rparr>"

text \<open>
  (C20) Re-invocation is safe (\<open>reinvocationPolicy: IfNeeded\<close>). When the patched pod comes back to the
  webhook, decoded as it was encoded up to the order of its maps, it is allowed as already injected, whatever the shims
  are by then.
\<close>

theorem Handle_reinvocation:
  assumes "Handle lib h req = Patched raw marshaled ws"
    and "\<And>pod. lib_marshal lib pod = Inr marshaled \<Longrightarrow> \<exists>q. hd_Decode h req' = Inr q \<and> same_pod pod q"
    and "req_Operation req' = Create"
  shows "Handle lib' (h\<lparr>hd_Reader := r\<rparr>) req' = Allowed ''already injected'' []"
proof (rule Handle_patched [OF assms(1)])
  fix pod shims pod' applied aws
  let ?ns = "request_namespace req pod"
  assume e: "\<not> exempt (hd_Options h) ?ns pod" and a: "applied \<noteq> []" "lib_marshal lib pod' = Inr marshaled"
    and A: "Apply_pod pod (pod_plans lib h ?ns pod) = (pod', applied, aws)"
  obtain q where q: "hd_Decode h req' = Inr q" "same_pod pod' q" using assms(2) [OF a(2)] by blast
  have "smap_get (pod_Annotations q) StatusAnnotation = StatusInjected"
    using inj.marked [OF A a(1)] q(2) by (simp add: smap_get_def same_pod_def)
  moreover have "OptedOut (Some q) = OptedOut (Some pod)"
    using inj.opt_out_kept [OF A] q(2) by (simp add: OptedOut_def same_pod_def)
  ultimately show ?thesis using q(1) assms(3) e by (simp add: Handle_def exempt_def Let_def)
qed

theorem Handle_reinvocation_witness:
  "Handle sample_lib (sample_handler\<lparr>hd_Reader := sample_reader\<rparr>) (sample_request ''out'')
     = Allowed ''already injected'' []"
proof -
  obtain ws where p: "Handle sample_lib sample_handler (sample_request ''in'') = Patched ''in'' ''out'' ws"
    using sample_handled by blast
  have "\<exists>q. hd_Decode sample_handler (sample_request ''out'') = Inr q \<and> same_pod pod q"
    if "lib_marshal sample_lib pod = Inr ''out''" for pod
    using that by (auto simp: sample_lib_def sample_handler_def sample_request_def same_pod_def split: if_splits)
  moreover have "req_Operation (sample_request ''out'') = Create" by (simp add: sample_request_def)
  ultimately show ?thesis by (intro Handle_reinvocation [OF p])
qed

lemma filter_key_eq:
  assumes "inj_on f (set xs)" "k \<in> set xs"
  shows "filter (\<lambda>x. f k = f x) xs = replicate (count (mset xs) k) k"
proof -
  have "filter (\<lambda>x. f k = f x) xs = filter (\<lambda>x. k = x) xs"
    using assms by (intro filter_cong) (auto dest: inj_onD)
  moreover have "filter (\<lambda>x. k = x) xs = replicate (count (mset xs) k) k" by (induction xs) auto
  ultimately show ?thesis by simp
qed

lemma sort_key_unique:
  assumes "mset xs = mset ys" "distinct (map f xs)"
  shows "sort_key f xs = sort_key f ys"
proof (rule properties_for_sort_key)
  have s: "set ys = set xs" using assms(1) by (metis mset_eq_setD)
  have i: "inj_on f (set xs)" using assms(2) by (simp add: distinct_map)
  show "filter (\<lambda>x. f k = f x) (sort_key f ys) = filter (\<lambda>x. f k = f x) xs" if "k \<in> set (sort_key f ys)" for k
    using that s i assms(1) filter_key_eq [of f "sort_key f ys" k] filter_key_eq [of f xs k] by simp
qed (use assms in simp_all)

lemma sorted_names:
  assumes "distinct (map f xs)"
  shows "sorted_wrt (<) (map f (sort_key f xs))"
  using assms by (auto simp: strict_sorted_iff distinct_map)

text \<open>
  (C23) The order of injection is deterministic: it depends on the set of shims only, not on the order in
  which the API server lists them. Shims of the namespace come before cluster shims, each group
  in strictly increasing order of name.
\<close>

theorem listShims_deterministic:
  assumes "rd_OIDCShims (hd_Reader h) ns = Inr xs" "rd_ClusterOIDCShims (hd_Reader h) = Inr cs"
    and "rd_OIDCShims (hd_Reader h') ns = Inr xs'" "rd_ClusterOIDCShims (hd_Reader h') = Inr cs'"
    and "mset xs' = mset xs" "mset cs' = mset cs"
    and "distinct (map os_Name xs)" "distinct (map cs_Name cs)"
  shows "listShims h' ns = listShims h ns \<and>
    (\<exists>as bs. listShims h ns = Inr (map Namespaced as @ map ClusterScoped bs) \<and>
       mset as = mset xs \<and> mset bs = mset cs \<and>
       sorted_wrt (<) (map os_Name as) \<and> sorted_wrt (<) (map cs_Name bs))"
proof -
  have "sort_key os_Name xs' = sort_key os_Name xs" "sort_key cs_Name cs' = sort_key cs_Name cs"
    using sort_key_unique [of xs xs' os_Name] sort_key_unique [of cs cs' cs_Name] assms(5-8) by auto
  then have "listShims h' ns = listShims h ns" by (simp add: listShims_def assms(1-4))
  moreover have "listShims h ns = Inr (map Namespaced (sort_key os_Name xs) @ map ClusterScoped (sort_key cs_Name cs))"
    by (simp add: listShims_def assms(1,2))
  ultimately show ?thesis using sorted_names [OF assms(7)] sorted_names [OF assms(8)]
    by (intro conjI exI [of _ "sort_key os_Name xs"] exI [of _ "sort_key cs_Name cs"]) simp_all
qed

theorem listShims_deterministic_witness:
  "let a = case sample_shim of Namespaced s \<Rightarrow> s; b = a\<lparr>os_Name := ''aws''\<rparr>;
       reader = (\<lambda>xs. sample_handler\<lparr>hd_Reader := sample_reader\<lparr>rd_OIDCShims := (\<lambda>n. Inr xs)\<rparr>\<rparr>) in
   listShims (reader [b, a]) ''ns'' = listShims (reader [a, b]) ''ns''"
  using listShims_deterministic
    [of "sample_handler\<lparr>hd_Reader := sample_reader\<lparr>rd_OIDCShims :=
           (\<lambda>n. Inr [case sample_shim of Namespaced s \<Rightarrow> s, (case sample_shim of Namespaced s \<Rightarrow> s)\<lparr>os_Name := ''aws''\<rparr>])\<rparr>\<rparr>"
        "''ns''" _ "[]"
        "sample_handler\<lparr>hd_Reader := sample_reader\<lparr>rd_OIDCShims :=
           (\<lambda>n. Inr [(case sample_shim of Namespaced s \<Rightarrow> s)\<lparr>os_Name := ''aws''\<rparr>, case sample_shim of Namespaced s \<Rightarrow> s])\<rparr>\<rparr>"
        _ "[]"]
  by (simp add: sample_reader_def) (simp add: sample_shim_def)

text \<open>
  (C21) A matching pod is injected. When the pod is not exempt, every read succeeds, at least one of the
  plans that come out of the listed shims is applicable to the pod and pods can be encoded, the webhook answers
  with a patch to the pod that \<open>Apply\<close> makes of it with those plans, and some plan is applied; plans that are skipped do
  not stand in the way.
\<close>

theorem Handle_injects:
  assumes "req_Operation req = Create" "hd_Decode h req = Inr pod"
    and "\<not> exempt (hd_Options h) (request_namespace req pod) pod"
    and "\<not> read_failure h (request_namespace req pod) pod"
    and "p \<in> set (pod_plans lib h (request_namespace req pod) pod)" "applicable pod p"
    and "Apply_pod pod (pod_plans lib h (request_namespace req pod) pod) = (pod', applied, aws)"
    and "lib_marshal lib pod' = Inr marshaled"
  shows "applied \<noteq> [] \<and> (\<exists>ws. Handle lib h req = Patched (req_Raw req) marshaled ws)"
proof -
  have "applied \<noteq> []" using Apply_some [OF assms(5,6)] by (simp add: assms(7))
  with Handle_mutates [OF assms(1-4,7)] assms(8) show ?thesis by auto
qed

theorem Handle_injects_witness:
  "\<exists>ws. Handle sample_lib sample_handler (sample_request ''in'') = Patched ''in'' ''out'' ws"
proof -
  have ns: "request_namespace (sample_request ''in'') sample_pod = ''ns''"
    by (simp add: request_namespace_def sample_request_def)
  have ok: "applicable sample_pod sample_plan"
    using sample_bytes sample_targets sample_no_collision resolveTargets_parts [of sample_pod sample_plan]
    by (auto simp: applicable_iff sample_pod_def smap_get_def smap_lookup_def StatusInjected_def annotationBytes_def)
  show ?thesis
    using Handle_injects [OF _ _ _ _ _ ok, of "sample_request ''in''" sample_handler sample_lib sample_out "[sample_plan]" "[]" "''out''"]
      sample_exempt sample_reads sample_plans sample_applied
    by (simp add: ns) (simp add: sample_request_def sample_handler_def sample_lib_def)
qed

end
