(* ===== verification/Warmup.thy ===== *)
theory Warmup
  imports Handler
begin

text \<open>
  The wiring of the webhook, \<open>internal/webhook/pod/setup.go\<close>: the informer warm-up that doubles as a
  readiness check, and \<open>SetupWithManager\<close>. The manager starts \<open>Start\<close> once while the readiness endpoint
  calls \<open>Check\<close> at any time, so next to the functions there is a step relation \<open>warm_step\<close> of the
  running warm-up, one informer at a time, in whose reachable states the check may be evaluated.
  \<open>GetInformer\<close> of the cache and the registration calls of the manager are parameters.
\<close>

section \<open>The warm-up\<close>

datatype informer = InformNamespace | InformServiceAccount | InformOIDCShim | InformClusterOIDCShim

record Warmer =
  wm_objects :: "informer list"
  wm_ready :: bool

type_synonym get_informer = "informer \<Rightarrow> go_error option"

definition NewWarmer :: "informer list \<Rightarrow> Warmer" where
  "NewWarmer objects = \<lparr>wm_objects = objects, wm_ready = False\<rparr>"

fun start_loop :: "get_informer \<Rightarrow> informer list \<Rightarrow> (informer \<times> go_error) option" where
  "start_loop get [] = None"
| "start_loop get (obj # objs) =
     (case get obj of Some err \<Rightarrow> Some (obj, err) | None \<Rightarrow> start_loop get objs)"

definition Start :: "get_informer \<Rightarrow> Warmer \<Rightarrow> (informer \<times> go_error) option \<times> Warmer" where
  "Start get w =
     (case start_loop get (wm_objects w) of
        Some err \<Rightarrow> (Some err, w)
      | None \<Rightarrow> (None, w\<lparr>wm_ready := True\<rparr>))"

definition NeedLeaderElection :: "Warmer \<Rightarrow> bool" where
  "NeedLeaderElection w = False"

definition Check :: "Warmer \<Rightarrow> go_error option" where
  "Check w = (if \<not> wm_ready w then Some ''informers not synced'' else None)"

section \<open>Registration\<close>

text \<open>
  The registrations the manager holds: the webhook handlers by path, the warm-ups among its
  runnables, and the names of its readiness checks. Adding a runnable or a check may fail.
\<close>

record Manager =
  mg_webhooks :: "(string \<times> Handler) list"
  mg_runnables :: "Warmer list"
  mg_checks :: "string list"

definition Path :: string where "Path = ''/mutate-v1-pod''"

datatype setup_error =
    AddWarmUp go_error
  | AddInformersCheck go_error
  | AddWebhookCheck go_error

definition warm_objects :: "informer list" where
  "warm_objects = [InformNamespace, InformServiceAccount, InformOIDCShim, InformClusterOIDCShim]"

definition SetupWithManager ::
  "go_error option \<Rightarrow> (string \<Rightarrow> go_error option) \<Rightarrow> Handler \<Rightarrow> Options \<Rightarrow> Manager \<Rightarrow> setup_error option \<times> Manager" where
  "SetupWithManager addErr checkErr clients opts mgr =
     (let mgr1 = mgr\<lparr>mg_webhooks := (Path, clients\<lparr>hd_Options := opts\<rparr>) # mg_webhooks mgr\<rparr>;
          w = NewWarmer warm_objects in
      case addErr of
        Some err \<Rightarrow> (Some (AddWarmUp err), mgr1)
      | None \<Rightarrow>
          (let mgr2 = mgr1\<lparr>mg_runnables := mg_runnables mgr1 @ [w]\<rparr> in
           case checkErr ''informers'' of
             Some err \<Rightarrow> (Some (AddInformersCheck err), mgr2)
           | None \<Rightarrow>
               (let mgr3 = mgr2\<lparr>mg_checks := mg_checks mgr2 @ [''informers'']\<rparr> in
                case checkErr ''webhook'' of
                  Some err \<Rightarrow> (Some (AddWebhookCheck err), mgr3)
                | None \<Rightarrow> (None, mgr3\<lparr>mg_checks := mg_checks mgr3 @ [''webhook'']\<rparr>))))"

section \<open>The running warm-up\<close>

record warm_state =
  ws_todo :: "informer list"
  ws_started :: "informer list"
  ws_warmer :: Warmer
  ws_failed :: "(informer \<times> go_error) option"

definition warm_start :: "Warmer \<Rightarrow> warm_state" where
  "warm_start w = \<lparr>ws_todo = wm_objects w, ws_started = [], ws_warmer = w, ws_failed = None\<rparr>"

inductive warm_step :: "get_informer \<Rightarrow> warm_state \<Rightarrow> warm_state \<Rightarrow> bool" for get where
  informer_up:
    "\<lbrakk>ws_failed s = None; ws_todo s = obj # rest; get obj = None\<rbrakk> \<Longrightarrow>
     warm_step get s (s\<lparr>ws_todo := rest, ws_started := ws_started s @ [obj]\<rparr>)"
| informer_fails:
    "\<lbrakk>ws_failed s = None; ws_todo s = obj # rest; get obj = Some err\<rbrakk> \<Longrightarrow>
     warm_step get s (s\<lparr>ws_failed := Some (obj, err)\<rparr>)"
| all_up:
    "\<lbrakk>ws_failed s = None; ws_todo s = []; \<not> wm_ready (ws_warmer s)\<rbrakk> \<Longrightarrow>
     warm_step get s (s\<lparr>ws_warmer := (ws_warmer s)\<lparr>wm_ready := True\<rparr>\<rparr>)"

inductive_cases warm_stepE: "warm_step get s s'"

inductive warm_reach :: "get_informer \<Rightarrow> Warmer \<Rightarrow> warm_state \<Rightarrow> bool" for get w where
  start: "warm_reach get w (warm_start w)"
| step: "warm_reach get w s \<Longrightarrow> warm_step get s s' \<Longrightarrow> warm_reach get w s'"

definition warm_inv :: "get_informer \<Rightarrow> Warmer \<Rightarrow> warm_state \<Rightarrow> bool" where
  "warm_inv get w s \<longleftrightarrow>
     ws_started s @ ws_todo s = wm_objects w \<and> (\<forall>obj\<in>set (ws_started s). get obj = None) \<and>
     ws_warmer s = (if wm_ready (ws_warmer s) then w\<lparr>wm_ready := True\<rparr> else w) \<and>
     (wm_ready (ws_warmer s) \<longrightarrow> ws_todo s = [] \<and> ws_failed s = None) \<and>
     (\<forall>obj err. ws_failed s = Some (obj, err) \<longrightarrow> (\<exists>rest. ws_todo s = obj # rest) \<and> get obj = Some err)"

lemma warm_inv_reach:
  assumes "warm_reach get w s" "\<not> wm_ready w"
  shows "warm_inv get w s"
  using assms
proof (induction rule: warm_reach.induct)
  case start
  then show ?case by (simp add: warm_inv_def warm_start_def)
next
  case (step s s')
  then have "warm_inv get w s" by simp
  with step.hyps(2) show ?case by (cases rule: warm_step.cases) (auto simp: warm_inv_def)
qed

text \<open>Every run of the step relation that ends agrees with \<open>Start\<close>, and it ends.\<close>

definition warm_measure :: "warm_state \<Rightarrow> nat" where
  "warm_measure s = 2 * length (ws_todo s) + (if wm_ready (ws_warmer s) then 0 else 1) +
     (if ws_failed s = None then 1 else 0)"

lemma warm_step_decreases: "warm_step get s s' \<Longrightarrow> warm_measure s' < warm_measure s"
  by (cases rule: warm_step.cases) (auto simp: warm_measure_def)

lemma start_loop_eq:
  "start_loop get objs = (case find (\<lambda>obj. get obj \<noteq> None) objs of
     None \<Rightarrow> None | Some obj \<Rightarrow> Some (obj, the (get obj)))"
  by (induction objs) (auto split: option.split)

definition stuck :: "get_informer \<Rightarrow> warm_state \<Rightarrow> bool" where
  "stuck get s \<longleftrightarrow> (\<nexists>s'. warm_step get s s')"

lemma stuck_iff:
  "stuck get s \<longleftrightarrow> ws_failed s \<noteq> None \<or> (ws_todo s = [] \<and> wm_ready (ws_warmer s))"
proof
  assume "stuck get s"
  then show "ws_failed s \<noteq> None \<or> (ws_todo s = [] \<and> wm_ready (ws_warmer s))"
    unfolding stuck_def
    using warm_step.informer_up [of s _ _ get] warm_step.informer_fails [of s _ _ get] warm_step.all_up [of s get]
    by (metis list.exhaust option.exhaust)
qed (auto simp: stuck_def elim!: warm_stepE)

lemma stuck_is_Start:
  assumes inv: "warm_inv get w s" and st: "stuck get s"
  shows "Start get w = (ws_failed s, ws_warmer s)"
proof (cases "ws_failed s")
  case None
  with st have "ws_todo s = []" "wm_ready (ws_warmer s)" by (auto simp: stuck_iff)
  with inv None have "start_loop get (wm_objects w) = None" "ws_warmer s = w\<lparr>wm_ready := True\<rparr>"
    by (auto simp: warm_inv_def start_loop_eq find_None_all split: option.split dest!: find_Some_in)
  with None show ?thesis by (simp add: Start_def)
next
  case (Some e)
  obtain obj err where e: "e = (obj, err)" by (cases e)
  with inv Some obtain rest where "ws_started s @ obj # rest = wm_objects w" "get obj = Some err"
      "\<forall>obj\<in>set (ws_started s). get obj = None" "ws_warmer s = w"
    by (auto simp: warm_inv_def split: if_splits)
  moreover from this have "find (\<lambda>obj. get obj \<noteq> None) (ws_started s) = None" by (simp add: find_None_all)
  ultimately show ?thesis using Some e by (simp add: Start_def start_loop_eq find_append flip: \<open>_ = wm_objects w\<close>)
qed

section \<open>Properties\<close>

text \<open>
  (C37) Readiness is never reported too early. At every moment of the warm-up, whenever the readiness
  check passes, an informer for each of the objects the handler reads has been started; once an
  informer failed, the check never passes. The warm-up always comes to an end, and when it does, its
  outcome is the one of \<open>Start\<close>.
\<close>

theorem warm_up_ready:
  assumes "warm_reach get w s" "\<not> wm_ready w"
  shows "(Check (ws_warmer s) = None \<longrightarrow> ws_started s = wm_objects w \<and> (\<forall>obj\<in>set (wm_objects w). get obj = None)) \<and>
    (ws_failed s \<noteq> None \<longrightarrow> Check (ws_warmer s) \<noteq> None) \<and>
    (\<forall>s'. warm_step get s s' \<longrightarrow> warm_measure s' < warm_measure s) \<and>
    (stuck get s \<longrightarrow> Start get w = (ws_failed s, ws_warmer s))"
proof -
  have inv: "warm_inv get w s" by (rule warm_inv_reach [OF assms])
  then have "Check (ws_warmer s) = None \<longrightarrow>
      ws_started s = wm_objects w \<and> (\<forall>obj\<in>set (wm_objects w). get obj = None)"
    "ws_failed s \<noteq> None \<longrightarrow> Check (ws_warmer s) \<noteq> None"
    by (auto simp: warm_inv_def Check_def)
  with warm_step_decreases stuck_is_Start [OF inv] show ?thesis by blast
qed

lemma warm_run_up:
  assumes "\<And>obj. get obj = None"
  shows "warm_reach get (NewWarmer objs)
    \<lparr>ws_todo = [], ws_started = objs, ws_warmer = NewWarmer objs, ws_failed = None\<rparr>"
proof -
  have "warm_reach get (NewWarmer objs)
      \<lparr>ws_todo = drop n objs, ws_started = take n objs, ws_warmer = NewWarmer objs, ws_failed = None\<rparr>"
    if "n \<le> length objs" for n
    using that
  proof (induction n)
    case 0
    then show ?case using warm_reach.start [of get "NewWarmer objs"] by (simp add: warm_start_def NewWarmer_def)
  next
    case (Suc n)
    then have "drop n objs = objs ! n # drop (Suc n) objs" "take (Suc n) objs = take n objs @ [objs ! n]"
      by (simp_all add: Cons_nth_drop_Suc take_Suc_conv_app_nth)
    moreover let ?s = "\<lparr>ws_todo = drop n objs, ws_started = take n objs, ws_warmer = NewWarmer objs, ws_failed = None\<rparr>"
    have "warm_step get ?s (?s\<lparr>ws_todo := drop (Suc n) objs, ws_started := ws_started ?s @ [objs ! n]\<rparr>)"
      using calculation assms by (intro warm_step.informer_up) simp_all
    moreover have "warm_reach get (NewWarmer objs) ?s" using Suc by simp
    ultimately show ?case using warm_reach.step by fastforce
  qed
  from this [of "length objs"] show ?thesis by simp
qed

theorem warm_up_ready_witness:
  "\<exists>s. warm_reach (\<lambda>_. None) (NewWarmer warm_objects) s \<and> Check (ws_warmer s) = None \<and>
     ws_started s = warm_objects"
proof -
  let ?s = "\<lparr>ws_todo = [], ws_started = warm_objects, ws_warmer = NewWarmer warm_objects, ws_failed = None\<rparr>"
  let ?s' = "?s\<lparr>ws_warmer := (NewWarmer warm_objects)\<lparr>wm_ready := True\<rparr>\<rparr>"
  have "warm_step (\<lambda>_. None) ?s ?s'" using warm_step.all_up [of ?s] by (simp add: NewWarmer_def)
  moreover have "warm_reach (\<lambda>_. None) (NewWarmer warm_objects) ?s" by (rule warm_run_up) simp
  ultimately have r: "warm_reach (\<lambda>_. None) (NewWarmer warm_objects) ?s'" by (rule warm_reach.step [rotated])
  moreover have "Check (ws_warmer ?s') = None" by (simp add: Check_def)
  ultimately show ?thesis
    using warm_up_ready [OF r] by (intro exI [of _ ?s']) (simp add: NewWarmer_def)
qed

text \<open>
  A replica is set up completely or not at all: when \<open>SetupWithManager\<close> succeeds, the handler with the
  given options serves the path of the webhook, both readiness checks are registered, and the warm-up
  covers every kind of object the handler reads from the cache and is not yet ready; an error
  names the registration that failed.
\<close>

lemma SetupWithManager_complete:
  "case SetupWithManager addErr checkErr clients opts mgr of
     (None, mgr') \<Rightarrow>
       map_of (mg_webhooks mgr') Path = Some (clients\<lparr>hd_Options := opts\<rparr>) \<and>
       mg_checks mgr' = mg_checks mgr @ [''informers'', ''webhook''] \<and>
       (\<exists>w. mg_runnables mgr' = mg_runnables mgr @ [w] \<and> set (wm_objects w) = UNIV \<and>
          \<not> NeedLeaderElection w \<and> Check w \<noteq> None)
   | (Some (AddWarmUp err), mgr') \<Rightarrow> addErr = Some err
   | (Some (AddInformersCheck err), mgr') \<Rightarrow> checkErr ''informers'' = Some err
   | (Some (AddWebhookCheck err), mgr') \<Rightarrow> checkErr ''webhook'' = Some err"
proof -
  have "set warm_objects = UNIV" using informer.exhaust by (auto simp: warm_objects_def)
  then show ?thesis
    by (auto simp: SetupWithManager_def Let_def NewWarmer_def NeedLeaderElection_def Check_def split: option.split)
qed

end
