(* ===== verification/Startup.thy ===== *)
theory Startup
  imports Warmup
begin

text \<open>
  The entry point \<open>cmd/main.go\<close> and the registration of the two controllers: the command line, the
  options, the TLS set-up and the sequence of registrations that ends with the manager running. What
  the calls into controller-runtime return is the record \<open>platform\<close>; what they were given is
  recorded as a trace of events, so that a property can say what had been registered before the manager
  started. The flags that other packages bind (logging, kubeconfig) are the parameter \<open>ext\<close>.
\<close>

section \<open>Flags\<close>

record manager_flags =
  mf_metricsAddr :: string
  mf_metricsCertPath :: string
  mf_metricsCertName :: string
  mf_metricsCertKey :: string
  mf_webhookCertPath :: string
  mf_webhookCertName :: string
  mf_webhookCertKey :: string
  mf_enableLeaderElection :: bool
  mf_probeAddr :: string
  mf_secureMetrics :: bool
  mf_enableHTTP2 :: bool

definition default_flags :: manager_flags where
  "default_flags =
     \<lparr>mf_metricsAddr = ''0'',
      mf_metricsCertPath = [], mf_metricsCertName = ''tls.crt'', mf_metricsCertKey = ''tls.key'',
      mf_webhookCertPath = [], mf_webhookCertName = ''tls.crt'', mf_webhookCertKey = ''tls.key'',
      mf_enableLeaderElection = False,
      mf_probeAddr = '':8081'',
      mf_secureMetrics = True,
      mf_enableHTTP2 = False\<rparr>"

datatype flag_kind = BoolFlag | ValueFlag

record ext_flags =
  ef_kind :: "string \<Rightarrow> flag_kind option"
  ef_accepts :: "string \<Rightarrow> string \<Rightarrow> bool"

record flag_state =
  fl_manager :: manager_flags
  fl_opts :: Options

datatype parse_error =
    BadSyntax string
  | NotDefined string
  | HelpRequested
  | NeedsArgument string
  | BadValue string string

definition manager_string_flags :: "(string \<times> (string \<Rightarrow> manager_flags \<Rightarrow> manager_flags)) list" where
  "manager_string_flags =
     [(''metrics-bind-address'', \<lambda>v f. f\<lparr>mf_metricsAddr := v\<rparr>),
      (''health-probe-bind-address'', \<lambda>v f. f\<lparr>mf_probeAddr := v\<rparr>),
      (''webhook-cert-path'', \<lambda>v f. f\<lparr>mf_webhookCertPath := v\<rparr>),
      (''webhook-cert-name'', \<lambda>v f. f\<lparr>mf_webhookCertName := v\<rparr>),
      (''webhook-cert-key'', \<lambda>v f. f\<lparr>mf_webhookCertKey := v\<rparr>),
      (''metrics-cert-path'', \<lambda>v f. f\<lparr>mf_metricsCertPath := v\<rparr>),
      (''metrics-cert-name'', \<lambda>v f. f\<lparr>mf_metricsCertName := v\<rparr>),
      (''metrics-cert-key'', \<lambda>v f. f\<lparr>mf_metricsCertKey := v\<rparr>)]"

definition manager_bool_flags :: "(string \<times> (bool \<Rightarrow> manager_flags \<Rightarrow> manager_flags)) list" where
  "manager_bool_flags =
     [(''leader-elect'', \<lambda>v f. f\<lparr>mf_enableLeaderElection := v\<rparr>),
      (''metrics-secure'', \<lambda>v f. f\<lparr>mf_secureMetrics := v\<rparr>),
      (''enable-http2'', \<lambda>v f. f\<lparr>mf_enableHTTP2 := v\<rparr>)]"

text \<open>\<open>strconv.ParseBool\<close>, by which \<open>BoolVar\<close> reads a value.\<close>

definition ParseBool :: "string \<Rightarrow> bool option" where
  "ParseBool s =
     (if s \<in> {''1'', ''t'', ''T'', ''TRUE'', ''true'', ''True''} then Some True
      else if s \<in> {''0'', ''f'', ''F'', ''FALSE'', ''false'', ''False''} then Some False
      else None)"

definition flag_kind_of :: "ext_flags \<Rightarrow> string \<Rightarrow> flag_kind option" where
  "flag_kind_of ext name =
     (if name \<in> set (map fst manager_bool_flags) then Some BoolFlag
      else if name \<in> set (map fst manager_string_flags) \<or> name \<in> set option_flags then Some ValueFlag
      else ef_kind ext name)"

definition set_flag :: "ext_flags \<Rightarrow> string \<Rightarrow> string \<Rightarrow> flag_state \<Rightarrow> parse_error + flag_state" where
  "set_flag ext name v st =
     (case map_of manager_bool_flags name of
        Some f \<Rightarrow>
          (case ParseBool v of
             None \<Rightarrow> Inl (BadValue name v)
           | Some b \<Rightarrow> Inr (st\<lparr>fl_manager := f b (fl_manager st)\<rparr>))
      | None \<Rightarrow>
      (case map_of manager_string_flags name of
         Some f \<Rightarrow> Inr (st\<lparr>fl_manager := f v (fl_manager st)\<rparr>)
       | None \<Rightarrow>
           if name \<in> set option_flags then
             (case flag_set name v (fl_opts st) of
                Inl _ \<Rightarrow> Inl (BadValue name v)
              | Inr opts \<Rightarrow> Inr (st\<lparr>fl_opts := opts\<rparr>))
           else if ef_accepts ext name v then Inr st
           else Inl (BadValue name v)))"

text \<open>
  \<open>flag.Parse\<close>: one or two dashes, a value after an equals sign or, for a flag that is not boolean,
  in the next argument; the first argument that is no flag, or two dashes alone, end the flags.
\<close>

definition split_equals :: "string \<Rightarrow> string \<times> string option" where
  "split_equals s =
     (let name = takeWhile (\<lambda>c. c \<noteq> CHR ''='') s in
      (name, if CHR ''='' \<in> set s then Some (drop (Suc (length name)) s) else None))"

definition parse_one ::
  "ext_flags \<Rightarrow> string list \<Rightarrow> parse_error + (string \<times> string \<times> string list) option" where
  "parse_one ext arguments =
     (case arguments of
        [] \<Rightarrow> Inr None
      | s # args \<Rightarrow>
          if length s < 2 \<or> hd s \<noteq> CHR ''-'' \<or> s = ''--'' then Inr None
          else
            (let flag = (if hd (tl s) = CHR ''-'' then drop 2 s else drop 1 s);
                 name = fst (split_equals flag); value = snd (split_equals flag) in
             if flag = [] \<or> hd flag = CHR ''-'' \<or> hd flag = CHR ''='' then Inl (BadSyntax s)
             else
               (case flag_kind_of ext name of
                  None \<Rightarrow> Inl (if name = ''help'' \<or> name = ''h'' then HelpRequested else NotDefined name)
                | Some BoolFlag \<Rightarrow> Inr (Some (name, case value of Some v \<Rightarrow> v | None \<Rightarrow> ''true'', args))
                | Some ValueFlag \<Rightarrow>
                    (case value of
                       Some v \<Rightarrow> Inr (Some (name, v, args))
                     | None \<Rightarrow>
                         (case args of
                            [] \<Rightarrow> Inl (NeedsArgument name)
                          | v # rest \<Rightarrow> Inr (Some (name, v, rest)))))))"

lemma parse_one_rest:
  "parse_one ext args = Inr (Some (name, v, rest)) \<Longrightarrow> \<exists>s used. args = s # used @ rest"
  by (auto simp: parse_one_def Let_def
      split: list.splits if_splits option.splits flag_kind.splits)

lemma parse_one_shorter [termination_simp]:
  "parse_one ext args = Inr (Some (name, v, rest)) \<Longrightarrow> length rest < length args"
  by (auto dest: parse_one_rest)

fun parse_flags :: "ext_flags \<Rightarrow> string list \<Rightarrow> flag_state \<Rightarrow> parse_error + flag_state" where
  "parse_flags ext args st =
     (case parse_one ext args of
        Inl e \<Rightarrow> Inl e
      | Inr None \<Rightarrow> Inr st
      | Inr (Some (name, v, rest)) \<Rightarrow>
          (case set_flag ext name v st of
             Inl e \<Rightarrow> Inl e
           | Inr st' \<Rightarrow> parse_flags ext rest st'))"

declare parse_flags.simps [simp del]

section \<open>The manager\<close>

datatype tls_option = DisableHTTP2 | WatchCertificate "string \<times> string"

record manager_config =
  mc_metricsAddr :: string
  mc_secureServing :: bool
  mc_metricsFilter :: bool
  mc_metricsTLS :: "tls_option list"
  mc_webhookTLS :: "tls_option list"
  mc_probeAddr :: string
  mc_leaderElection :: bool
  mc_leaderElectionID :: string

record controller_registration =
  cr_For :: string
  cr_GenerationChangedOnly :: bool
  cr_Name :: string

definition SetupWithManager_OIDCShim :: controller_registration where
  "SetupWithManager_OIDCShim =
     \<lparr>cr_For = ''OIDCShim'', cr_GenerationChangedOnly = True, cr_Name = ''oidcshim''\<rparr>"

definition SetupWithManager_ClusterOIDCShim :: controller_registration where
  "SetupWithManager_ClusterOIDCShim =
     \<lparr>cr_For = ''ClusterOIDCShim'', cr_GenerationChangedOnly = True, cr_Name = ''clusteroidcshim''\<rparr>"

record platform =
  pf_certWatcher :: "string \<times> string \<Rightarrow> go_error option"
  pf_kubeConfig :: "go_error option"
  pf_newManager :: "manager_config \<Rightarrow> go_error option"
  pf_controller :: "controller_registration \<Rightarrow> go_error option"
  pf_clients :: Handler
  pf_addWarmer :: "go_error option"
  pf_addWatcher :: "string \<times> string \<Rightarrow> go_error option"
  pf_healthz :: "string \<Rightarrow> go_error option"
  pf_readyz :: "string \<Rightarrow> go_error option"
  pf_run :: "go_error option"

datatype event =
    ManagerCreated manager_config
  | ControllerRegistered controller_registration
  | WebhookRegistered Manager
  | WatcherAdded "string \<times> string"
  | HealthCheckAdded string
  | ReadyCheckAdded string
  | ManagerStarted

datatype main_error =
    FlagsRejected parse_error
  | InvalidOptions "option_error list"
  | WebhookCertificate go_error
  | MetricsCertificate go_error
  | NoKubeConfig go_error
  | NoManager go_error
  | NoController string go_error
  | NoWebhook setup_error
  | MetricsWatcherRejected go_error
  | WebhookWatcherRejected go_error
  | NoHealthCheck go_error
  | NoReadyCheck go_error
  | ManagerFailed go_error

datatype exit_status = Returned | ExitWith nat main_error

type_synonym run = "exit_status \<times> event list"

text \<open>
  \<open>if err := call; err != nil { os.Exit(1) }\<close>, then the rest of \<open>main\<close>; a call that succeeds adds its
  events to the trace.
\<close>

definition bail :: "'e option \<Rightarrow> ('e \<Rightarrow> main_error) \<Rightarrow> event list \<Rightarrow> event list \<Rightarrow> (event list \<Rightarrow> run) \<Rightarrow> run" where
  "bail err wrap events trace k =
     (case err of Some e \<Rightarrow> (ExitWith 1 (wrap e), trace) | None \<Rightarrow> k (trace @ events))"

definition cert_files :: "string \<Rightarrow> string \<Rightarrow> string \<Rightarrow> string \<times> string" where
  "cert_files dir name key = (path_Join [dir, name], path_Join [dir, key])"

definition webhook_certs :: "manager_flags \<Rightarrow> (string \<times> string) option" where
  "webhook_certs f =
     (if length (mf_webhookCertPath f) > 0
      then Some (cert_files (mf_webhookCertPath f) (mf_webhookCertName f) (mf_webhookCertKey f)) else None)"

definition metrics_certs :: "manager_flags \<Rightarrow> (string \<times> string) option" where
  "metrics_certs f =
     (if length (mf_metricsCertPath f) > 0
      then Some (cert_files (mf_metricsCertPath f) (mf_metricsCertName f) (mf_metricsCertKey f)) else None)"

definition tlsOpts :: "manager_flags \<Rightarrow> tls_option list" where
  "tlsOpts f = (if \<not> mf_enableHTTP2 f then [DisableHTTP2] else [])"

definition with_certs :: "tls_option list \<Rightarrow> (string \<times> string) option \<Rightarrow> tls_option list" where
  "with_certs opts certs = (case certs of None \<Rightarrow> opts | Some c \<Rightarrow> opts @ [WatchCertificate c])"

definition manager_options :: "manager_flags \<Rightarrow> manager_config" where
  "manager_options f =
     \<lparr>mc_metricsAddr = mf_metricsAddr f,
      mc_secureServing = mf_secureMetrics f,
      mc_metricsFilter = mf_secureMetrics f,
      mc_metricsTLS = with_certs (tlsOpts f) (metrics_certs f),
      mc_webhookTLS = with_certs (tlsOpts f) (webhook_certs f),
      mc_probeAddr = mf_probeAddr f,
      mc_leaderElection = mf_enableLeaderElection f,
      mc_leaderElectionID = ''4a338ae9.kemo.dev''\<rparr>"

definition no_registrations :: Manager where
  "no_registrations = \<lparr>mg_webhooks = [], mg_runnables = [], mg_checks = []\<rparr>"

definition webhook_setup :: "platform \<Rightarrow> Options \<Rightarrow> setup_error option \<times> Manager" where
  "webhook_setup pf opts = SetupWithManager (pf_addWarmer pf) (pf_readyz pf) (pf_clients pf) opts no_registrations"

definition watcher_error :: "platform \<Rightarrow> (string \<times> string) option \<Rightarrow> go_error option" where
  "watcher_error pf certs = (case certs of None \<Rightarrow> None | Some c \<Rightarrow> pf_certWatcher pf c)"

definition add_watcher :: "platform \<Rightarrow> (string \<times> string) option \<Rightarrow> go_error option" where
  "add_watcher pf certs = (case certs of None \<Rightarrow> None | Some c \<Rightarrow> pf_addWatcher pf c)"

definition watcher_events :: "(string \<times> string) option \<Rightarrow> event list" where
  "watcher_events certs = (case certs of None \<Rightarrow> [] | Some c \<Rightarrow> [WatcherAdded c])"

text \<open>The registrations with a manager that was created, and its start.\<close>

definition start_manager :: "platform \<Rightarrow> manager_flags \<Rightarrow> Options \<Rightarrow> event list \<Rightarrow> run" where
  "start_manager pf f opts tr =
     bail (pf_controller pf SetupWithManager_OIDCShim) (NoController ''OIDCShim'')
       [ControllerRegistered SetupWithManager_OIDCShim] tr (\<lambda>tr.
     bail (pf_controller pf SetupWithManager_ClusterOIDCShim) (NoController ''ClusterOIDCShim'')
       [ControllerRegistered SetupWithManager_ClusterOIDCShim] tr (\<lambda>tr.
     bail (fst (webhook_setup pf opts)) NoWebhook
       [WebhookRegistered (snd (webhook_setup pf opts))] tr (\<lambda>tr.
     bail (add_watcher pf (metrics_certs f)) MetricsWatcherRejected
       (watcher_events (metrics_certs f)) tr (\<lambda>tr.
     bail (add_watcher pf (webhook_certs f)) WebhookWatcherRejected
       (watcher_events (webhook_certs f)) tr (\<lambda>tr.
     bail (pf_healthz pf ''healthz'') NoHealthCheck
       [HealthCheckAdded ''healthz''] tr (\<lambda>tr.
     bail (pf_readyz pf ''readyz'') NoReadyCheck
       [ReadyCheckAdded ''readyz'', ManagerStarted] tr (\<lambda>tr.
     bail (pf_run pf) ManagerFailed
       [] tr (\<lambda>tr.
     (Returned, tr)))))))))"

text \<open>
  \<open>main\<close> after the flags are parsed. The two lists of TLS options share no storage: the appended slice
  is full, so each \<open>append\<close> copies it. \<open>ctrl.GetConfigOrDie\<close> exits with status one when there is no configuration.
\<close>

definition run_manager :: "platform \<Rightarrow> manager_flags \<Rightarrow> Options \<Rightarrow> run" where
  "run_manager pf f opts =
     (if Validate_options opts \<noteq> [] then (ExitWith 1 (InvalidOptions (Validate_options opts)), [])
      else
     bail (watcher_error pf (webhook_certs f)) WebhookCertificate
       [] [] (\<lambda>tr.
     bail (watcher_error pf (metrics_certs f)) MetricsCertificate
       [] tr (\<lambda>tr.
     bail (pf_kubeConfig pf) NoKubeConfig
       [] tr (\<lambda>tr.
     bail (pf_newManager pf (manager_options f)) NoManager
       [ManagerCreated (manager_options f)] tr (\<lambda>tr.
     start_manager pf f opts tr)))))"

definition initial_flags :: "(string \<Rightarrow> string) \<Rightarrow> flag_state" where
  "initial_flags getenv = \<lparr>fl_manager = default_flags, fl_opts = ApplyEnv getenv Defaults_options\<rparr>"

definition main :: "ext_flags \<Rightarrow> (string \<Rightarrow> string) \<Rightarrow> string list \<Rightarrow> platform \<Rightarrow> run" where
  "main ext getenv args pf =
     (case parse_flags ext args (initial_flags getenv) of
        Inl e \<Rightarrow> (ExitWith (if e = HelpRequested then 0 else 2) (FlagsRejected e), [])
      | Inr st \<Rightarrow> run_manager pf (fl_manager st) (fl_opts st))"

section \<open>Parsing\<close>

lemmas set_flag_splits = option.splits sum.splits if_splits

lemma set_flag_cases [consumes 1, case_names bool_flag string_flag option_flag ext_flag]:
  assumes "set_flag ext name v st = Inr st'"
  obtains f b where "(name, f) \<in> set manager_bool_flags" "ParseBool v = Some b"
      "st' = st\<lparr>fl_manager := f b (fl_manager st)\<rparr>"
    | f where "(name, f) \<in> set manager_string_flags" "st' = st\<lparr>fl_manager := f v (fl_manager st)\<rparr>"
    | opts where "flag_set name v (fl_opts st) = Inr opts" "st' = st\<lparr>fl_opts := opts\<rparr>"
    | "st' = st"
  using assms unfolding set_flag_def by (auto split: set_flag_splits dest: map_of_SomeD)

text \<open>What the \<open>Set\<close> of every flag given on the command line keeps, parsing keeps.\<close>

definition given :: "ext_flags \<Rightarrow> string list \<Rightarrow> string \<Rightarrow> string \<Rightarrow> bool" where
  "given ext args name v \<longleftrightarrow> (\<exists>pre rest rest'. args = pre @ rest \<and> parse_one ext rest = Inr (Some (name, v, rest')))"

lemma given_now: "parse_one ext args = Inr (Some (name, v, rest)) \<Longrightarrow> given ext args name v"
  unfolding given_def by (metis append_Nil)

lemma given_later:
  assumes "parse_one ext args = Inr (Some (name, v, rest))" "given ext rest name' v'"
  shows "given ext args name' v'"
proof -
  obtain s used where "args = s # used @ rest" using parse_one_rest [OF assms(1)] by blast
  then show ?thesis using assms(2) unfolding given_def by (metis append.assoc append_Cons)
qed

lemma parse_flags_keeps:
  assumes "parse_flags ext args st = Inr st'" "P st"
    and "\<And>name v s s'. given ext args name v \<Longrightarrow> set_flag ext name v s = Inr s' \<Longrightarrow> P s \<Longrightarrow> P s'"
  shows "P st'"
  using assms
proof (induction ext args st rule: parse_flags.induct)
  case (1 ext args st)
  show ?case
  proof (cases "\<exists>name v rest. parse_one ext args = Inr (Some (name, v, rest))")
    case True
    then obtain name v rest where p: "parse_one ext args = Inr (Some (name, v, rest))" by blast
    with 1(2) obtain s where s: "set_flag ext name v st = Inr s" "parse_flags ext rest s = Inr st'"
      by (auto simp: parse_flags.simps [of ext args st] split: sum.splits)
    have "P s" using 1(3,4) given_now [OF p] s(1) by blast
    then show ?thesis using 1(1) [OF p refl refl refl s(1,2)] 1(4) given_later [OF p] by blast
  next
    case False
    with 1(2,3) show ?thesis
      by (auto simp: parse_flags.simps [of ext args st] split: sum.splits option.splits)
  qed
qed

lemma set_flag_OperatorNamespace:
  assumes "set_flag ext name v st = Inr st'"
  shows "o_OperatorNamespace (fl_opts st') = o_OperatorNamespace (fl_opts st)"
  using assms by (cases rule: set_flag_cases) (auto dest: flag_set_OperatorNamespace)

lemma parse_flags_OperatorNamespace:
  assumes "parse_flags ext args (initial_flags getenv) = Inr st"
  shows "o_OperatorNamespace (fl_opts st) = getenv ''POD_NAMESPACE''"
  using parse_flags_keeps [OF assms, of "\<lambda>s. o_OperatorNamespace (fl_opts s) = getenv ''POD_NAMESPACE''"]
  by (simp add: set_flag_OperatorNamespace initial_flags_def ApplyEnv_def Let_def Defaults_options_def)

section \<open>The run\<close>

definition registrations :: "platform \<Rightarrow> manager_flags \<Rightarrow> Options \<Rightarrow> event list" where
  "registrations pf f opts =
     [ManagerCreated (manager_options f),
      ControllerRegistered SetupWithManager_OIDCShim, ControllerRegistered SetupWithManager_ClusterOIDCShim,
      WebhookRegistered (snd (webhook_setup pf opts))] @
     watcher_events (metrics_certs f) @ watcher_events (webhook_certs f) @
     [HealthCheckAdded ''healthz'', ReadyCheckAdded ''readyz'', ManagerStarted]"

lemma watcher_events_not [simp]:
  "ManagerStarted \<notin> set (watcher_events certs)" "ManagerCreated c \<notin> set (watcher_events certs)"
  "WebhookRegistered m \<notin> set (watcher_events certs)"
  by (auto simp: watcher_events_def split: option.split)

lemma run_manager_events:
  "set (snd (run_manager pf f opts)) \<subseteq> set (registrations pf f opts)"
  by (auto simp: run_manager_def start_manager_def bail_def registrations_def split: option.splits)

lemma run_manager_started:
  "ManagerStarted \<in> set (snd (run_manager pf f opts)) \<Longrightarrow>
   snd (run_manager pf f opts) = registrations pf f opts \<and> Validate_options opts = [] \<and>
   fst (webhook_setup pf opts) = None \<and>
   (\<forall>certs\<in>{webhook_certs f, metrics_certs f}. watcher_error pf certs = None)"
  by (auto simp: run_manager_def start_manager_def bail_def registrations_def split: option.splits if_splits)

lemma main_event:
  assumes "e \<in> set (snd (main ext getenv args pf))"
  obtains st where "parse_flags ext args (initial_flags getenv) = Inr st"
    "main ext getenv args pf = run_manager pf (fl_manager st) (fl_opts st)"
    "e \<in> set (registrations pf (fl_manager st) (fl_opts st))"
  using assms run_manager_events by (fastforce simp: main_def split: sum.splits)

lemma ManagerCreated_registered [simp]:
  "ManagerCreated c \<in> set (registrations pf f opts) \<longleftrightarrow> c = manager_options f"
  by (auto simp: registrations_def)

lemma WebhookRegistered_registered [simp]:
  "WebhookRegistered m \<in> set (registrations pf f opts) \<longleftrightarrow> m = snd (webhook_setup pf opts)"
  by (auto simp: registrations_def)

lemma webhook_setup_handler:
  "map_of (mg_webhooks (snd (webhook_setup pf opts))) Path = Some ((pf_clients pf)\<lparr>hd_Options := opts\<rparr>)"
  by (simp add: webhook_setup_def SetupWithManager_def Let_def split: option.split)

lemma webhook_setup_checks:
  "fst (webhook_setup pf opts) = None \<Longrightarrow>
   mg_checks (snd (webhook_setup pf opts)) = [''informers'', ''webhook''] \<and>
   mg_runnables (snd (webhook_setup pf opts)) = [NewWarmer warm_objects]"
  by (auto simp: webhook_setup_def SetupWithManager_def no_registrations_def Let_def split: option.splits)

text \<open>A boolean flag given on the command line, in one of the four forms the flag package reads.\<close>

definition bool_flag_given :: "string \<Rightarrow> bool \<Rightarrow> string list \<Rightarrow> bool" where
  "bool_flag_given name b args \<longleftrightarrow>
     (\<exists>a\<in>set args. \<exists>dash\<in>{''-'', ''--''}. (a = dash @ name \<and> b) \<or>
        (\<exists>v. a = dash @ name @ ''='' @ v \<and> ParseBool v = Some b))"

lemma split_equals_parts:
  "s = fst (split_equals s) @ (case snd (split_equals s) of None \<Rightarrow> [] | Some v \<Rightarrow> ''='' @ v)"
proof (cases "CHR ''='' \<in> set s")
  case True
  then obtain pre v where "s = pre @ CHR ''='' # v" "CHR ''='' \<notin> set pre" by (meson split_list_first)
  then show ?thesis by (simp add: split_equals_def Let_def takeWhile_append)
next
  case False
  then have "takeWhile (\<lambda>c. c \<noteq> CHR ''='') s = s" by (auto simp: takeWhile_eq_all_conv)
  with False show ?thesis by (simp add: split_equals_def Let_def del: takeWhile_eq_all_conv)
qed

lemma ParseBool_true [simp]: "ParseBool ''true'' = Some True"
  by (simp add: ParseBool_def)

lemma parse_one_bool:
  assumes "parse_one ext args = Inr (Some (name, v, rest))" "name \<in> set (map fst manager_bool_flags)"
    and "ParseBool v = Some b"
  shows "bool_flag_given name b args"
proof -
  obtain s tl where args: "args = s # tl" using parse_one_rest [OF assms(1)] by blast
  define flag where "flag = (if hd (List.tl s) = CHR ''-'' then drop 2 s else drop 1 s)"
  have k: "flag_kind_of ext name = Some BoolFlag" using assms(2) by (simp add: flag_kind_of_def)
  from assms(1) k have f: "name = fst (split_equals flag)" "length s \<ge> 2" "hd s = CHR ''-''"
    "v = (case snd (split_equals flag) of Some v \<Rightarrow> v | None \<Rightarrow> ''true'')"
    unfolding parse_one_def args flag_def Let_def
    by (auto split: if_splits option.splits flag_kind.splits list.splits)
  obtain dash where d: "dash \<in> {''-'', ''--''}" "s = dash @ flag"
  proof (cases "hd (List.tl s) = CHR ''-''")
    case True
    with f(2,3) have "s = ''--'' @ flag" by (cases s; cases "List.tl s") (auto simp: flag_def)
    then show ?thesis using that by blast
  next
    case False
    with f(2,3) have "s = ''-'' @ flag" by (cases s) (auto simp: flag_def)
    then show ?thesis using that by blast
  qed
  have "s = dash @ name @ (case snd (split_equals flag) of None \<Rightarrow> [] | Some v \<Rightarrow> ''='' @ v)"
    using split_equals_parts [of flag] d(2) f(1) by simp
  with f(4) d(1) assms(3) show ?thesis
    unfolding bool_flag_given_def args by (auto split: option.splits)
qed

lemma given_bool:
  assumes "given ext args name v" "(name, f) \<in> set manager_bool_flags" "ParseBool v = Some b"
  shows "bool_flag_given name b args"
proof -
  obtain pre rest rest' where "args = pre @ rest" "parse_one ext rest = Inr (Some (name, v, rest'))"
    using assms(1) by (auto simp: given_def)
  moreover from this have "bool_flag_given name b rest"
    using assms(2,3) by (intro parse_one_bool) (auto intro!: image_eqI)
  ultimately show ?thesis by (auto simp: bool_flag_given_def)
qed

text \<open>A boolean setting that is not the default one was asked for.\<close>

lemma bool_setting_given:
  assumes "parse_flags ext args (initial_flags getenv) = Inr st"
  shows "mf_enableHTTP2 (fl_manager st) \<Longrightarrow> bool_flag_given ''enable-http2'' True args"
    and "\<not> mf_secureMetrics (fl_manager st) \<Longrightarrow> bool_flag_given ''metrics-secure'' False args"
    and "mf_enableLeaderElection (fl_manager st) \<Longrightarrow> bool_flag_given ''leader-elect'' True args"
proof -
  let ?P = "\<lambda>s. (mf_enableHTTP2 (fl_manager s) \<longrightarrow> bool_flag_given ''enable-http2'' True args) \<and>
    (\<not> mf_secureMetrics (fl_manager s) \<longrightarrow> bool_flag_given ''metrics-secure'' False args) \<and>
    (mf_enableLeaderElection (fl_manager s) \<longrightarrow> bool_flag_given ''leader-elect'' True args)"
  have "?P st"
  proof (rule parse_flags_keeps [OF assms, of ?P])
    show "?P (initial_flags getenv)" by (simp add: initial_flags_def default_flags_def)
    fix name v s s'
    assume g: "given ext args name v" and s: "set_flag ext name v s = Inr s'" "?P s"
    from s(1) show "?P s'"
    proof (cases rule: set_flag_cases)
      case (bool_flag f b)
      with given_bool [OF g bool_flag(1,2)] s(2) show ?thesis
        by (cases b) (auto simp: manager_bool_flags_def)
    next
      case (string_flag f)
      with s(2) show ?thesis by (auto simp: manager_string_flags_def)
    qed (use s(2) in auto)
  qed
  then show "mf_enableHTTP2 (fl_manager st) \<Longrightarrow> bool_flag_given ''enable-http2'' True args"
    "\<not> mf_secureMetrics (fl_manager st) \<Longrightarrow> bool_flag_given ''metrics-secure'' False args"
    "mf_enableLeaderElection (fl_manager st) \<Longrightarrow> bool_flag_given ''leader-elect'' True args" by blast+
qed

section \<open>Properties\<close>

text \<open>
  (C27) The manager starts only when it is complete. If \<open>main\<close> reaches the start of the manager, the command line
  was parsed and the options are valid; before the start and in this order the manager was created,
  both controllers, the webhook, a watcher for each configured certificate and both probes were
  registered, and nothing else; the webhook serves its path with exactly the parsed options, and its
  readiness checks and the warm-up of all informers are in place.
\<close>

theorem main_starts_complete:
  assumes "ManagerStarted \<in> set (snd (main ext getenv args pf))"
  shows "\<exists>f opts mgr. parse_flags ext args (initial_flags getenv) = Inr \<lparr>fl_manager = f, fl_opts = opts\<rparr> \<and>
    Validate_options opts = [] \<and> o_OperatorNamespace opts = getenv ''POD_NAMESPACE'' \<and>
    snd (main ext getenv args pf) =
      [ManagerCreated (manager_options f),
       ControllerRegistered SetupWithManager_OIDCShim, ControllerRegistered SetupWithManager_ClusterOIDCShim,
       WebhookRegistered mgr] @ watcher_events (metrics_certs f) @ watcher_events (webhook_certs f) @
      [HealthCheckAdded ''healthz'', ReadyCheckAdded ''readyz'', ManagerStarted] \<and>
    mg_webhooks mgr = [(Path, (pf_clients pf)\<lparr>hd_Options := opts\<rparr>)] \<and>
    mg_checks mgr = [''informers'', ''webhook''] \<and> mg_runnables mgr = [NewWarmer warm_objects]"
  using assms
proof (rule main_event)
  fix st
  assume st: "parse_flags ext args (initial_flags getenv) = Inr st"
    "main ext getenv args pf = run_manager pf (fl_manager st) (fl_opts st)"
  have st': "st = \<lparr>fl_manager = fl_manager st, fl_opts = fl_opts st\<rparr>" by simp
  let ?mgr = "snd (webhook_setup pf (fl_opts st))"
  note run = run_manager_started [OF assms [unfolded st(2)]]
  have "mg_webhooks ?mgr = [(Path, (pf_clients pf)\<lparr>hd_Options := fl_opts st\<rparr>)]"
    by (simp add: webhook_setup_def SetupWithManager_def no_registrations_def Let_def split: option.split)
  with run show ?thesis
    using webhook_setup_checks [of pf "fl_opts st"] st parse_flags_OperatorNamespace [OF st(1)]
    by (intro exI [of _ "fl_manager st"] exI [of _ "fl_opts st"] exI [of _ ?mgr]) (simp add: registrations_def)
qed

definition plain_env :: "string \<Rightarrow> string" where
  "plain_env v = (if v = ''POD_NAMESPACE'' then ''ns'' else [])"

definition no_ext :: ext_flags where
  "no_ext = \<lparr>ef_kind = \<lambda>_. None, ef_accepts = \<lambda>_ _. False\<rparr>"

definition working_platform :: platform where
  "working_platform =
     \<lparr>pf_certWatcher = \<lambda>_. None, pf_kubeConfig = None, pf_newManager = \<lambda>_. None, pf_controller = \<lambda>_. None,
      pf_clients = sample_handler, pf_addWarmer = None, pf_addWatcher = \<lambda>_. None,
      pf_healthz = \<lambda>_. None, pf_readyz = \<lambda>_. None, pf_run = None\<rparr>"

definition sample_args :: "string list" where
  "sample_args = [''--metrics-cert-path'', ''/certs'', ''-metrics-secure=false'', ''--ztwim-namespace=zt'']"

definition sample_flags :: flag_state where
  "sample_flags =
     \<lparr>fl_manager = default_flags\<lparr>mf_metricsCertPath := ''/certs'', mf_secureMetrics := False\<rparr>,
      fl_opts = (ApplyEnv plain_env Defaults_options)\<lparr>o_ZTWIMNamespace := ''zt''\<rparr>\<rparr>"

lemma sample_args_parsed: "parse_flags no_ext sample_args (initial_flags plain_env) = Inr sample_flags"
  by (simp add: parse_flags.simps sample_args_def parse_one_def split_equals_def Let_def flag_kind_of_def
      manager_bool_flags_def manager_string_flags_def option_flags_def set_flag_def ParseBool_def flag_set_def
      initial_flags_def sample_flags_def)

lemma sample_options_parsed_valid: "Validate_options (fl_opts sample_flags) = []"
  using Validate_Defaults by (simp add: sample_flags_def ApplyEnv_def plain_env_def Validate_options_def split: if_splits)

lemma sample_main:
  "main no_ext plain_env sample_args working_platform =
     (Returned, registrations working_platform (fl_manager sample_flags) (fl_opts sample_flags))"
  using sample_options_parsed_valid
  by (simp add: main_def sample_args_parsed run_manager_def start_manager_def bail_def registrations_def watcher_error_def add_watcher_def
      webhook_setup_def SetupWithManager_def working_platform_def Let_def split: option.split)

theorem main_starts_complete_witness:
  "snd (main no_ext plain_env sample_args working_platform) \<noteq> [] \<and>
   (\<exists>st. parse_flags no_ext sample_args (initial_flags plain_env) = Inr st \<and> o_OperatorNamespace (fl_opts st) = ''ns'')"
proof -
  have "ManagerStarted \<in> set (snd (main no_ext plain_env sample_args working_platform))"
    by (simp add: sample_main registrations_def)
  from main_starts_complete [OF this] show ?thesis by (auto simp: plain_env_def)
qed

text \<open>
  The exit status tells what happened. \<open>main\<close> returns only after the manager ran without an error; it exits
  with status zero only when help was asked for; and of all errors only a failure of the running
  manager comes after its start, every other one leaves the manager never started.
\<close>

lemma main_exit_status:
  "case main ext getenv args pf of
     (Returned, trace) \<Rightarrow> ManagerStarted \<in> set trace \<and> pf_run pf = None
   | (ExitWith code e, trace) \<Rightarrow>
       (code = 0 \<longleftrightarrow> e = FlagsRejected HelpRequested) \<and>
       (ManagerStarted \<in> set trace \<longleftrightarrow> (\<exists>err. e = ManagerFailed err \<and> pf_run pf = Some err))"
  by (auto simp: main_def run_manager_def start_manager_def bail_def split: sum.split option.split)

text \<open>
  (C28) Weaker settings are explicit. Whatever the environment and the command line, a manager is created with
  HTTP/2 disabled on both servers, with metrics served over TLS behind authentication, and without
  leader election, except where a flag on the command line says otherwise in so many words.
\<close>

theorem weaker_settings_explicit:
  assumes "ManagerCreated c \<in> set (snd (main ext getenv args pf))"
  shows "(DisableHTTP2 \<in> set (mc_webhookTLS c) \<inter> set (mc_metricsTLS c) \<or> bool_flag_given ''enable-http2'' True args) \<and>
    (mc_secureServing c \<and> mc_metricsFilter c \<or> bool_flag_given ''metrics-secure'' False args) \<and>
    (bool_flag_given ''leader-elect'' True args \<or> \<not> mc_leaderElection c)"
  using assms
proof (rule main_event)
  fix st
  assume st: "parse_flags ext args (initial_flags getenv) = Inr st"
    and "ManagerCreated c \<in> set (registrations pf (fl_manager st) (fl_opts st))"
  then have "c = manager_options (fl_manager st)" by simp
  then show ?thesis using bool_setting_given [OF st]
    by (auto simp: manager_options_def tlsOpts_def with_certs_def split: option.split)
qed

theorem weaker_settings_explicit_witness:
  "\<exists>c. ManagerCreated c \<in> set (snd (main no_ext plain_env sample_args working_platform)) \<and>
     DisableHTTP2 \<in> set (mc_webhookTLS c) \<and> \<not> mc_secureServing c \<and> bool_flag_given ''metrics-secure'' False sample_args"
proof -
  let ?c = "manager_options (fl_manager sample_flags)"
  have c: "ManagerCreated ?c \<in> set (snd (main no_ext plain_env sample_args working_platform))"
    by (simp add: sample_main)
  have n: "\<not> bool_flag_given ''enable-http2'' True sample_args"
    by (auto simp: bool_flag_given_def sample_args_def)
  have "\<not> mc_secureServing ?c" by (simp add: manager_options_def sample_flags_def)
  with weaker_settings_explicit [OF c] n c show ?thesis by blast
qed

end
