(* ===== verification/Controller.thy ===== *)
theory Controller
  imports InjectionProps Config
begin

text \<open>
  The two controllers, package \<open>internal/controller\<close>: the static validation of a shim, the paged count
  of the pods that carry its label and the status update (\<open>shim_reconcile.go\<close>), and the \<open>Reconcile\<close>
  methods of the two shim kinds. Parameters stand for code of other modules: the API reads and
  writes, \<open>meta.SetStatusCondition\<close>, \<open>Semantic.DeepEqual\<close> and the text of a joined error. The paging
  loop runs until the server sends no continue token, so it is a \<open>partial_function\<close>: not
  returning is \<open>None\<close>. Joined errors are lists of problems, and no error is the empty list.
\<close>

section \<open>Constants and problems\<close>

definition requeueInterval :: nat where "requeueInterval = 5 * 60 * 1000000000"
definition podListPageSize :: int where "podListPageSize = 500"
definition validationAudience :: string where "validationAudience = ''validate''"
definition validationAgentAddress :: string where
  "validationAgentAddress = ''/spiffe-workload-api/spire-agent.sock''"
definition defaultFileMode :: string where "defaultFileMode = ''0644''"
definition maxShimNameLength :: nat where "maxShimNameLength = 46"

datatype shim_problem =
    NameTooLong string nat
  | ParameterProblem param_problem
  | SelectionProblem "string \<times> go_error"
  | TokenProblem helper_error
  | BadImagePullPolicy string
  | TemplateInvalid string go_error
  | TemplateReference string string
  | FileModeInvalid string string
  | FileOnTokenMount string string
  | FilePathDuplicate string
  | FileUnderTokenMount string string

section \<open>Validation\<close>

definition validateName :: "string \<Rightarrow> shim_problem list" where
  "validateName shimName =
     (if length shimName > maxShimNameLength then [NameTooLong shimName (length shimName)] else [])"

definition known_keys :: "OIDCShimSpec \<Rightarrow> string list" where
  "known_keys spec =
     [KeyPodNamespace, KeyServiceAccountName, KeyShimName, KeyTokenDir, KeyTokenPath] @
     map par_Name (spec_Parameters spec)"

definition check_template :: "engine \<Rightarrow> string list \<Rightarrow> string \<Rightarrow> string \<Rightarrow> shim_problem list" where
  "check_template E known field tmpl =
     (case ReferencedKeys E tmpl of
        Inl err \<Rightarrow> [TemplateInvalid field err]
      | Inr keys \<Rightarrow> map (TemplateReference field) (filter (\<lambda>key. key \<notin> set known) keys))"

fun check_extras :: "engine \<Rightarrow> string list \<Rightarrow> nat \<Rightarrow> string list \<Rightarrow> shim_problem list" where
  "check_extras E known i [] = []"
| "check_extras E known i (a # as) =
     check_template E known (''spec.extraAudiences['' @ itoa i @ '']'') a @ check_extras E known (Suc i) as"

definition validateTemplates :: "engine \<Rightarrow> OIDCShimSpec \<Rightarrow> shim_problem list" where
  "validateTemplates E spec =
     (let known = known_keys spec in
      check_template E known ''spec.audience'' (spec_Audience spec) @
      check_extras E known 0 (spec_ExtraAudiences spec) @
      concat (map (\<lambda>env. check_template E known (''spec.inject.env['' @ es_Name env @ '']'') (es_Value env))
        (inj_Env (spec_Inject spec))) @
      concat (map (\<lambda>file. check_template E known (''spec.inject.files['' @ fs_Path file @ '']'') (fs_Content file))
        (inj_Files (spec_Inject spec))))"

definition validateToken :: "(nat \<Rightarrow> bool) \<Rightarrow> string \<Rightarrow> TokenSpec \<Rightarrow> shim_problem list" where
  "validateToken isPrint shimName token =
     (let resolved = ResolveToken shimName token in
      case Render_helper isPrint
             \<lparr>hc_AgentAddress = validationAgentAddress,
              hc_CertDir = tok_MountPath resolved,
              hc_JWTAudience = validationAudience,
              hc_JWTExtraAudiences = [],
              hc_JWTSVIDFileName = tok_FileName resolved,
              hc_JWTSVIDFileMode = tok_FileMode resolved\<rparr> of
        Inl err \<Rightarrow> [TokenProblem err]
      | Inr _ \<Rightarrow> [])"

fun validate_files_loop :: "string \<Rightarrow> string list \<Rightarrow> FileSpec list \<Rightarrow> shim_problem list" where
  "validate_files_loop mount seen [] = []"
| "validate_files_loop mount seen (file # files) =
     (let mode = (if fs_Mode file = [] then defaultFileMode else fs_Mode file) in
      (if \<not> ModePattern mode then [FileModeInvalid (fs_Path file) mode] else []) @
      (if fs_Path file \<in> set seen then
         (if fs_Path file = mount then [FileOnTokenMount (fs_Path file) mount]
          else [FilePathDuplicate (fs_Path file)])
       else []) @
      (if HasPrefix (fs_Path file) (mount @ ''/'') then [FileUnderTokenMount (fs_Path file) mount] else []) @
      validate_files_loop mount (fs_Path file # seen) files)"

definition validateFiles :: "FileSpec list \<Rightarrow> string \<Rightarrow> shim_problem list" where
  "validateFiles files tokenMountPath = validate_files_loop tokenMountPath [tokenMountPath] files"

definition validateHelper :: "HelperSpec option \<Rightarrow> shim_problem list" where
  "validateHelper helper =
     (case helper of
        None \<Rightarrow> []
      | Some h \<Rightarrow>
          if h_ImagePullPolicy h = [] then []
          else if h_ImagePullPolicy h \<in> {PullAlways, PullIfNotPresent, PullNever} then []
          else [BadImagePullPolicy (h_ImagePullPolicy h)])"

definition validateShim ::
  "as_selector \<Rightarrow> engine \<Rightarrow> (nat \<Rightarrow> bool) \<Rightarrow> OIDCShimSpec \<Rightarrow> string \<Rightarrow> shim_problem list" where
  "validateShim asSel E isPrint spec shimName =
     validateName shimName @
     map ParameterProblem (Validate_params E (spec_Parameters spec)) @
     map SelectionProblem (Validate_selection asSel (spec_Selection spec)) @
     validateToken isPrint shimName (spec_Token spec) @
     validateHelper (spec_Helper spec) @
     validateTemplates E spec @
     validateFiles (inj_Files (spec_Inject spec)) (tok_MountPath (ResolveToken shimName (spec_Token spec)))"

section \<open>Counting the matched pods\<close>

record ListOptions =
  lo_MatchingLabel :: "string \<times> string"
  lo_Limit :: int
  lo_Namespace :: "string option"
  lo_ResourceVersion :: "string option"
  lo_Continue :: "string option"

record PodList =
  pl_Items :: "Pod list"
  pl_Continue :: string

type_synonym pod_reader = "ListOptions \<Rightarrow> go_error + PodList"

definition base_options :: "Shim \<Rightarrow> ListOptions" where
  "base_options shim =
     \<lparr>lo_MatchingLabel =
        (ShimLabelKey (GetName shim),
         if IsClusterScoped shim then ShimLabelValueCluster else ShimLabelValueNamespaced),
      lo_Limit = podListPageSize,
      lo_Namespace = (if IsClusterScoped shim then None else Some (GetNamespace shim)),
      lo_ResourceVersion = None,
      lo_Continue = None\<rparr>"

definition page_options :: "ListOptions \<Rightarrow> string \<Rightarrow> ListOptions" where
  "page_options base continueToken =
     (if continueToken = [] then base\<lparr>lo_ResourceVersion := Some ''0''\<rparr>
      else base\<lparr>lo_Continue := Some continueToken\<rparr>)"

partial_function (option) count_loop ::
  "pod_reader \<Rightarrow> ListOptions \<Rightarrow> nat \<Rightarrow> string \<Rightarrow> (go_error + 32 word) option" where
  "count_loop lst base count continueToken =
     (case lst (page_options base continueToken) of
        Inl err \<Rightarrow> Some (Inl err)
      | Inr pods \<Rightarrow>
          (let count' = count + length (pl_Items pods) in
           if pl_Continue pods = [] then Some (Inr (word_of_nat count'))
           else count_loop lst base count' (pl_Continue pods)))"

definition countMatchedPods :: "pod_reader \<Rightarrow> Shim \<Rightarrow> (go_error + 32 word) option" where
  "countMatchedPods lst shim = count_loop lst (base_options shim) 0 []"

section \<open>Reconciling\<close>

datatype reconcile_error =
    UpdatingStatus string go_error
  | ListingPods string go_error
  | GettingShim go_error

record world =
  w_setCondition :: "Condition list \<Rightarrow> Condition \<Rightarrow> Condition list"
  w_deepEqual :: "OIDCShimStatus \<Rightarrow> OIDCShimStatus \<Rightarrow> bool"
  w_errorText :: "shim_problem list \<Rightarrow> string"
  w_listPods :: pod_reader
  w_updateStatus :: "Shim \<Rightarrow> go_error option"

text \<open>
  The outcome of a reconciliation: the shim as it is in memory afterwards, the object passed to
  the status update if there was one, and the error or the delay until the next run.
\<close>

record outcome =
  out_Shim :: Shim
  out_Written :: "Shim option"
  out_Result :: "reconcile_error + nat"

definition ready_condition :: "world \<Rightarrow> shim_problem list \<Rightarrow> int \<Rightarrow> Condition" where
  "ready_condition w problems generation =
     (let ok =
        \<lparr>cond_Type = ConditionReady, cond_Status = ''True'', cond_Reason = ReasonValid, cond_Message = [],
         cond_ObservedGeneration = generation, cond_LastTransitionTime = 0\<rparr> in
      if problems = [] then ok
      else ok\<lparr>cond_Status := ''False'', cond_Reason := ReasonInvalidSpec,
              cond_Message := w_errorText w problems\<rparr>)"

definition reconcileShim ::
  "as_selector \<Rightarrow> engine \<Rightarrow> (nat \<Rightarrow> bool) \<Rightarrow> world \<Rightarrow> Shim \<Rightarrow> outcome option" where
  "reconcileShim asSel E isPrint w shim =
     (let before = ShimStatus shim;
          condition = ready_condition w (validateShim asSel E isPrint (ShimSpec shim) (GetName shim))
            (GetGeneration shim);
          status1 = before\<lparr>st_Conditions := w_setCondition w (st_Conditions before) condition,
                           st_ObservedGeneration := GetGeneration shim\<rparr> in
      case countMatchedPods (w_listPods w) shim of
        None \<Rightarrow> None
      | Some counted \<Rightarrow>
          (let status2 = (case counted of Inr matched \<Rightarrow> status1\<lparr>st_MatchedPods := Some matched\<rparr>
                          | Inl _ \<Rightarrow> status1);
               shim' = with_ShimStatus status2 shim;
               changed = (\<not> w_deepEqual w before status2);
               written = (if changed then Some shim' else None);
               failure = (if changed then w_updateStatus w shim' else None) in
           Some \<lparr>out_Shim = shim', out_Written = written,
                 out_Result =
                   (case failure of
                      Some err \<Rightarrow> Inl (UpdatingStatus (ShimKey shim) err)
                    | None \<Rightarrow>
                        (case counted of
                           Inl err \<Rightarrow> Inl (ListingPods (ShimKey shim) err)
                         | Inr _ \<Rightarrow> Inr requeueInterval))\<rparr>))"

text \<open>
  \<open>Reconcile\<close> of the two reconcilers: a shim that is gone ends the run without an error, any other
  failure to read it is an error; nothing is written in either case.
\<close>

definition reconcile_got ::
  "as_selector \<Rightarrow> engine \<Rightarrow> (nat \<Rightarrow> bool) \<Rightarrow> world \<Rightarrow> ('a \<Rightarrow> Shim) \<Rightarrow> 'a api_get \<Rightarrow>
     (Shim option \<times> (reconcile_error + nat)) option" where
  "reconcile_got asSel E isPrint w inject got =
     (case got of
        NotFound \<Rightarrow> Some (None, Inr 0)
      | Failed err \<Rightarrow> Some (None, Inl (GettingShim err))
      | Found s \<Rightarrow> map_option (\<lambda>o'. (out_Written o', out_Result o')) (reconcileShim asSel E isPrint w (inject s)))"

definition Reconcile_OIDCShim ::
  "as_selector \<Rightarrow> engine \<Rightarrow> (nat \<Rightarrow> bool) \<Rightarrow> world \<Rightarrow> (string \<times> string \<Rightarrow> OIDCShim api_get) \<Rightarrow>
     string \<times> string \<Rightarrow> (Shim option \<times> (reconcile_error + nat)) option" where
  "Reconcile_OIDCShim asSel E isPrint w get req = reconcile_got asSel E isPrint w Namespaced (get req)"

definition Reconcile_ClusterOIDCShim ::
  "as_selector \<Rightarrow> engine \<Rightarrow> (nat \<Rightarrow> bool) \<Rightarrow> world \<Rightarrow> (string \<times> string \<Rightarrow> ClusterOIDCShim api_get) \<Rightarrow>
     string \<times> string \<Rightarrow> (Shim option \<times> (reconcile_error + nat)) option" where
  "Reconcile_ClusterOIDCShim asSel E isPrint w get req = reconcile_got asSel E isPrint w ClusterScoped (get req)"

section \<open>What validation establishes\<close>

text \<open>The templates of a spec that the webhook renders are plain.\<close>

definition spec_templates :: "OIDCShimSpec \<Rightarrow> string list" where
  "spec_templates spec =
     spec_Audience spec # spec_ExtraAudiences spec @ map es_Value (inj_Env (spec_Inject spec)) @
     map fs_Content (inj_Files (spec_Inject spec))"

lemma validateShim_Nil:
  "validateShim asSel E isPrint spec n = [] \<longleftrightarrow>
     length n \<le> maxShimNameLength \<and> Validate_params E (spec_Parameters spec) = [] \<and>
     Validate_selection asSel (spec_Selection spec) = [] \<and> validateToken isPrint n (spec_Token spec) = [] \<and>
     validateHelper (spec_Helper spec) = [] \<and> validateTemplates E spec = [] \<and>
     validateFiles (inj_Files (spec_Inject spec)) (tok_MountPath (ResolveToken n (spec_Token spec))) = []"
  by (auto simp: validateShim_def validateName_def)

lemma validate_files_loop_Nil:
  "validate_files_loop mount seen fs = [] \<longleftrightarrow>
     distinct (map fs_Path fs) \<and> fs_Path ` set fs \<inter> set seen = {} \<and>
     (\<forall>f\<in>set fs. ModePattern (file_mode f) \<and> \<not> HasPrefix (fs_Path f) (mount @ ''/''))"
  by (induction fs arbitrary: seen) (auto simp: Let_def file_mode_def defaultFileMode_def)

lemma check_extras_Nil:
  "check_extras E known i as = [] \<Longrightarrow> a \<in> set as \<Longrightarrow> \<exists>field. check_template E known field a = []"
  by (induction as arbitrary: i) auto

lemma validateTemplates_Nil:
  assumes "validateTemplates E spec = []" "s \<in> set (spec_templates spec)"
  shows "\<exists>field. check_template E (known_keys spec) field s = []"
  using assms check_extras_Nil by (fastforce simp: validateTemplates_def spec_templates_def Let_def)

lemma validateToken_Nil:
  assumes "validateToken isPrint n token = []"
  shows "tok_FileName (ResolveToken n token) \<noteq> []" "tok_MountPath (ResolveToken n token) \<noteq> []"
    "tok_FileMode (ResolveToken n token) = [] \<or> ModePattern (tok_FileMode (ResolveToken n token))"
  using assms
  by (auto simp: validateToken_def Render_helper_def Let_def validationAgentAddress_def validationAudience_def
      split: if_splits)

lemma known_keys_resolved:
  assumes "Resolve E inp = Inr vs" "in_Parameters inp = spec_Parameters spec" "k \<in> set (known_keys spec)"
  shows "smap_lookup vs k \<noteq> None"
proof -
  have "k \<in> set builtinKeys \<or> k \<in> par_Name ` set (in_Parameters inp)"
    using assms(2,3) by (auto simp: known_keys_def builtinKeys_def)
  then show ?thesis
    using resolve_loop_keys [OF assms(1) [unfolded Resolve_def], of k] lookup_builtin_values by blast
qed

context template_engine
begin

lemma check_template_renders:
  assumes "check_template E known field s = []" "plain_text E s" "\<And>k. k \<in> set known \<Longrightarrow> smap_lookup vs k \<noteq> None"
  shows "\<exists>out. Render_template E n s vs = Inr out"
proof -
  from assms(1) obtain ks where "ReferencedKeys E s = Inr ks" "\<forall>k\<in>set ks. k \<in> set known"
    by (auto simp: check_template_def filter_empty_conv split: sum.splits)
  with Render_plain_iff [OF assms(2), of ks n vs] assms(3) show ?thesis by blast
qed

lemma render_extras_total:
  "(\<And>a n. a \<in> set as \<Longrightarrow> \<exists>out. Render_template E n a vs = Inr out) \<Longrightarrow> \<exists>rs. render_extras E vs i as = Inr rs"
proof (induction as arbitrary: i)
  case (Cons a as)
  from Cons.prems [of a "''extraAudience''"] Cons.IH [of "Suc i"] Cons.prems show ?case by fastforce
qed simp

lemma render_env_total:
  "(\<And>e n. e \<in> set es \<Longrightarrow> \<exists>out. Render_template E n (es_Value e) vs = Inr out) \<Longrightarrow> \<exists>rs. render_env E vs i es = Inr rs"
proof (induction es arbitrary: i)
  case (Cons e es)
  from Cons.prems [of e "''env''"] Cons.IH [of "Suc i"] Cons.prems show ?case by fastforce
qed simp

lemma render_files_total:
  assumes "\<And>f n. f \<in> set fs \<Longrightarrow> \<exists>out. Render_template E n (fs_Content f) vs = Inr out"
    and "validate_files_loop mount seen fs = []"
  shows "\<exists>rs. render_files E vs mount i seen fs = Inr rs"
  using assms
proof (induction fs arbitrary: i seen)
  case (Cons f fs)
  from Cons.prems(1) obtain c where c: "Render_template E ''file'' (fs_Content f) vs = Inr c" by fastforce
  have f: "fs_Path f \<notin> set seen" "\<not> HasPrefix (fs_Path f) (mount @ ''/'')" "parseFileMode (file_mode f) \<noteq> None"
    using Cons.prems(2) ModePattern_parse(1) [of "file_mode f"] unfolding validate_files_loop_Nil by auto
  have "validate_files_loop mount (fs_Path f # seen) fs = []"
    using Cons.prems(2) by (simp add: Let_def)
  then obtain rs where "render_files E vs mount (Suc i) (fs_Path f # seen) fs = Inr rs"
    using Cons.IH Cons.prems(1) by fastforce
  with c f show ?case by simp
qed simp

end

lemma socket_address_not_Nil:
  assumes "d_SocketMountPath d \<noteq> []"
  shows "hc_AgentAddress (helper_config (base_plan shim tok d) a es) \<noteq> []"
  using assms
  by (auto simp: helper_config_def path_Join_Nil_iff base_plan_def Let_def override_def split: option.splits if_splits)

lemma validated_conf:
  assumes "validateToken isPrint n token = []" "d_SocketMountPath d \<noteq> []" "tok = ResolveToken n token"
  shows "spiffeHelperConf isPrint (base_plan shim tok d) a es =
    (if a = [] then Inl JWTAudienceEmpty else spiffeHelperConf isPrint (base_plan shim tok d) a es) \<and>
    (a \<noteq> [] \<longrightarrow> (\<exists>conf. spiffeHelperConf isPrint (base_plan shim tok d) a es = Inr conf))"
  using validateToken_Nil [OF assms(1)] socket_address_not_Nil [OF assms(2), of shim tok a es] assms(3)
  by (auto simp: spiffeHelperConf_def Render_helper_def helper_config_def Let_def)

context template_engine
begin

lemma BuildPlan_validated:
  assumes valid: "validateShim asSel E isPrint (ShimSpec shim) (GetName shim) = []"
    and plain: "\<And>s. s \<in> set (spec_templates (ShimSpec shim)) \<Longrightarrow> plain_text E s"
    and keys: "\<And>k. k \<in> set (known_keys (ShimSpec shim)) \<Longrightarrow> smap_lookup vs k \<noteq> None"
    and socket: "d_SocketMountPath d \<noteq> []"
    and tok: "tok = ResolveToken (GetName shim) (spec_Token (ShimSpec shim))"
  shows "(\<exists>plan. BuildPlan E isPrint shim vs tok d = Inr plan) \<or>
    BuildPlan E isPrint shim vs tok d = Inl (RenderHelperConf JWTAudienceEmpty) \<or>
    (\<exists>n. BuildPlan E isPrint shim vs tok d = Inl (TooManyRenderedBytes n (d_MaxRenderedBytes d)))"
proof -
  let ?spec = "ShimSpec shim"
  have v: "validateTemplates E ?spec = []" "validateToken isPrint (GetName shim) (spec_Token ?spec) = []"
    "validate_files_loop (tok_MountPath tok) [tok_MountPath tok] (inj_Files (spec_Inject ?spec)) = []"
    using valid by (simp_all add: validateShim_Nil validateFiles_def tok)
  have r: "\<exists>out. Render_template E n s vs = Inr out" if "s \<in> set (spec_templates ?spec)" for n s
    using validateTemplates_Nil [OF v(1) that] check_template_renders [OF _ plain [OF that] keys] by blast
  obtain a where a: "Render_template E ''audience'' (spec_Audience ?spec) vs = Inr a"
    using r [of "spec_Audience ?spec"] by (auto simp: spec_templates_def)
  obtain es where es: "render_extras E vs 0 (spec_ExtraAudiences ?spec) = Inr es"
    using render_extras_total [of "spec_ExtraAudiences ?spec" vs 0] r by (fastforce simp: spec_templates_def)
  obtain env where env: "render_env E vs 0 (inj_Env (spec_Inject ?spec)) = Inr env"
    using render_env_total [of "inj_Env (spec_Inject ?spec)" vs 0] r by (fastforce simp: spec_templates_def)
  obtain fs where fs: "render_files E vs (tok_MountPath tok) 0 [tok_MountPath tok] (inj_Files (spec_Inject ?spec)) = Inr fs"
    using render_files_total [OF _ v(3)] r by (fastforce simp: spec_templates_def)
  note conf = validated_conf [OF v(2) socket tok, of shim a es]
  show ?thesis
  proof (cases "a = []")
    case True
    with conf a es env fs show ?thesis by (simp add: BuildPlan_def)
  next
    case False
    with conf obtain c where "spiffeHelperConf isPrint (base_plan shim tok d) a es = Inr c" by blast
    with a es env fs show ?thesis by (simp add: BuildPlan_def Let_def)
  qed
qed

end

section \<open>Properties\<close>

lemma sample_spec_valid: "validateShim asSel field_engine isPrint sample_spec ''gcp'' = []"
proof -
  have 1: "Validate_params field_engine (spec_Parameters sample_spec) = []" by code_simp
  have 2: "Validate_selection asSel (spec_Selection sample_spec) = []"
    by (simp add: Validate_selection_def compile_def selector_sources_def sample_spec_def)
  have 3: "validateTemplates field_engine sample_spec = []" by code_simp
  have 4: "validateToken isPrint ''gcp'' (spec_Token sample_spec) = []"
    using sample_token_eq
    by (simp add: validateToken_def sample_token_def validationAgentAddress_def validationAudience_def
        Render_helper_def ModePattern_def is_octal_def HasPrefix_def Let_def)
  have 5: "validateFiles (inj_Files (spec_Inject sample_spec)) (tok_MountPath sample_token) = []" by code_simp
  have 6: "validateHelper (spec_Helper sample_spec) = []" by (simp add: validateHelper_def sample_spec_def)
  show ?thesis
    using 1 2 3 4 5 6 by (simp add: validateShim_Nil maxShimNameLength_def sample_token_def)
qed

subsection \<open>Counting\<close>

text \<open>
  What the server sends from a continue token on: the pods of all pages up to the one without a
  token, or the error of the first request that fails. The requests are written out: the first asks for resource
  version 0, every other one for the token of the page before.
\<close>

definition page_request :: "ListOptions \<Rightarrow> string \<Rightarrow> ListOptions" where
  "page_request base t =
     \<lparr>lo_MatchingLabel = lo_MatchingLabel base, lo_Limit = lo_Limit base, lo_Namespace = lo_Namespace base,
      lo_ResourceVersion = (if t = [] then Some ''0'' else lo_ResourceVersion base),
      lo_Continue = (if t = [] then lo_Continue base else Some t)\<rparr>"

inductive pages :: "pod_reader \<Rightarrow> ListOptions \<Rightarrow> string \<Rightarrow> Pod list \<Rightarrow> bool" for lst base where
  last_page: "lst (page_request base t) = Inr pods \<Longrightarrow> pl_Continue pods = [] \<Longrightarrow> pages lst base t (pl_Items pods)"
| next_page: "lst (page_request base t) = Inr pods \<Longrightarrow> pl_Continue pods \<noteq> [] \<Longrightarrow>
    pages lst base (pl_Continue pods) rest \<Longrightarrow> pages lst base t (pl_Items pods @ rest)"

inductive pages_fail :: "pod_reader \<Rightarrow> ListOptions \<Rightarrow> string \<Rightarrow> go_error \<Rightarrow> bool" for lst base where
  this_page: "lst (page_request base t) = Inl err \<Longrightarrow> pages_fail lst base t err"
| later_page: "lst (page_request base t) = Inr pods \<Longrightarrow> pl_Continue pods \<noteq> [] \<Longrightarrow>
    pages_fail lst base (pl_Continue pods) err \<Longrightarrow> pages_fail lst base t err"

lemma page_options_request: "page_options base t = page_request base t"
  by (simp add: page_options_def page_request_def)

inductive_cases pagesE: "pages lst base t xs"

lemma pages_count: "pages lst base t xs \<Longrightarrow> count_loop lst base n t = Some (Inr (word_of_nat (n + length xs)))"
proof (induction arbitrary: n rule: pages.induct)
  case (last_page t pods)
  then show ?case by (subst count_loop.simps) (simp add: Let_def page_options_request)
next
  case (next_page t pods rest)
  then show ?case by (subst count_loop.simps) (simp add: Let_def add.assoc page_options_request)
qed

lemma pages_fail_count: "pages_fail lst base t err \<Longrightarrow> count_loop lst base n t = Some (Inl err)"
proof (induction arbitrary: n rule: pages_fail.induct)
  case (this_page t err)
  then show ?case by (subst count_loop.simps) (simp add: page_options_request)
next
  case (later_page t pods err)
  then show ?case by (subst count_loop.simps) (simp add: Let_def page_options_request)
qed

lemma count_pages:
  assumes "count_loop lst base n t = Some r"
  shows "case r of Inr w \<Rightarrow> \<exists>xs. pages lst base t xs \<and> w = word_of_nat (n + length xs)
    | Inl err \<Rightarrow> pages_fail lst base t err"
proof (rule count_loop.raw_induct [where P = "\<lambda>lst base n t r.
    case r of Inr w \<Rightarrow> \<exists>xs. pages lst base t xs \<and> w = word_of_nat (n + length xs)
    | Inl err \<Rightarrow> pages_fail lst base t err", OF _ assms], goal_cases)
  case (1 loop lst base n t r)
  show ?case
  proof (cases "lst (page_request base t)")
    case (Inl err)
    with 1(2) show ?thesis by (auto simp: page_options_request intro: pages_fail.this_page)
  next
    case (Inr pods)
    show ?thesis
    proof (cases "pl_Continue pods = []")
      case True
      with 1(2) Inr pages.last_page [of lst base t pods] show ?thesis by (auto simp: Let_def page_options_request)
    next
      case False
      with 1(2) Inr have "loop lst base (n + length (pl_Items pods)) (pl_Continue pods) = Some r"
        by (simp add: Let_def page_options_request)
      note IH = 1(1) [OF this]
      show ?thesis
      proof (cases r)
        case (Inr w)
        with IH obtain xs where xs: "pages lst base (pl_Continue pods) xs"
          and w: "w = word_of_nat (n + length (pl_Items pods) + length xs)" by auto
        have "pages lst base t (pl_Items pods @ xs)"
          by (rule pages.next_page [OF \<open>lst (page_request base t) = Inr pods\<close> False xs])
        with Inr w show ?thesis by (auto simp: add.assoc simp flip: of_nat_add)
      qed (use IH Inr False pages_fail.later_page [of lst base t pods] in auto)
    qed
  qed
qed

text \<open>
  (C26) Counting the matched pods follows the continue tokens of the server. The loop returns a number
  exactly when the server ends the list, and the number is the count of all pods on all pages,
  reduced to 32 bits, hence the exact count below \<open>2\<^sup>31\<close>; it returns an error exactly when a request on
  the way fails, with that error; and it returns one of the two whenever the list ends or fails.
\<close>

theorem countMatchedPods_exact:
  "(countMatchedPods lst shim = Some (Inr w) \<longleftrightarrow>
      (\<exists>xs. pages lst (base_options shim) [] xs \<and> w = word_of_nat (length xs))) \<and>
   (countMatchedPods lst shim = Some (Inl err) \<longleftrightarrow> pages_fail lst (base_options shim) [] err) \<and>
   (pages lst (base_options shim) [] xs \<and> length xs < 2 ^ 31 \<longrightarrow>
      (\<exists>m. countMatchedPods lst shim = Some (Inr m) \<and> sint m = int (length xs)))"
proof (intro conjI impI)
  show "countMatchedPods lst shim = Some (Inr w) \<longleftrightarrow>
      (\<exists>xs. pages lst (base_options shim) [] xs \<and> w = word_of_nat (length xs))"
    using pages_count [of lst "base_options shim" "[]" _ 0] count_pages [of lst "base_options shim" 0 "[]"]
    by (fastforce simp: countMatchedPods_def)
  show "countMatchedPods lst shim = Some (Inl err) \<longleftrightarrow> pages_fail lst (base_options shim) [] err"
    using pages_fail_count [of lst "base_options shim" "[]" err 0] count_pages [of lst "base_options shim" 0 "[]"]
    by (fastforce simp: countMatchedPods_def)
  assume "pages lst (base_options shim) [] xs \<and> length xs < 2 ^ 31"
  then show "\<exists>m. countMatchedPods lst shim = Some (Inr m) \<and> sint m = int (length xs)"
    using pages_count [of lst "base_options shim" "[]" xs 0]
    by (auto simp: countMatchedPods_def signed_of_nat signed_take_bit_int_eq_self)
qed

definition two_pages :: pod_reader where
  "two_pages opts =
     (case lo_Continue opts of
        None \<Rightarrow> Inr \<lparr>pl_Items = [sample_pod, sample_pod], pl_Continue = ''next''\<rparr>
      | Some t \<Rightarrow> Inr \<lparr>pl_Items = [sample_pod], pl_Continue = []\<rparr>)"

theorem countMatchedPods_exact_witness:
  "\<exists>m. countMatchedPods two_pages sample_shim = Some (Inr m) \<and> sint m = 3"
proof -
  let ?b = "base_options sample_shim"
  have "two_pages (page_request ?b ''next'') = Inr \<lparr>pl_Items = [sample_pod], pl_Continue = []\<rparr>"
      "two_pages (page_request ?b []) = Inr \<lparr>pl_Items = [sample_pod, sample_pod], pl_Continue = ''next''\<rparr>"
    by (simp_all add: two_pages_def page_request_def base_options_def)
  then have "pages two_pages ?b [] ([sample_pod, sample_pod] @ [sample_pod])"
    using pages.last_page [of two_pages ?b "''next''"] pages.next_page [of two_pages ?b "[]"] by fastforce
  then show ?thesis using countMatchedPods_exact [of two_pages sample_shim _ _ "[sample_pod, sample_pod] @ [sample_pod]"]
    by auto
qed

subsection \<open>Reconciling\<close>

text \<open>
  The documented behaviour of \<open>meta.SetStatusCondition\<close> that the status relies on: the condition of
  that type then has the status, reason, message and observed generation given, and setting what is
  already there changes nothing.
\<close>

definition same_condition :: "Condition \<Rightarrow> Condition \<Rightarrow> bool" where
  "same_condition d c \<longleftrightarrow>
     cond_Type d = cond_Type c \<and> cond_Status d = cond_Status c \<and> cond_Reason d = cond_Reason c \<and>
     cond_Message d = cond_Message c \<and> cond_ObservedGeneration d = cond_ObservedGeneration c"

definition find_condition :: "Condition list \<Rightarrow> string \<Rightarrow> Condition option" where
  "find_condition cs ty = find (\<lambda>d. cond_Type d = ty) cs"

definition sets_condition :: "(Condition list \<Rightarrow> Condition \<Rightarrow> Condition list) \<Rightarrow> bool" where
  "sets_condition set_cond \<longleftrightarrow>
     (\<forall>cs c. \<exists>d. find_condition (set_cond cs c) (cond_Type c) = Some d \<and> same_condition d c)"

definition keeps_condition :: "(Condition list \<Rightarrow> Condition \<Rightarrow> Condition list) \<Rightarrow> bool" where
  "keeps_condition set_cond \<longleftrightarrow>
     (\<forall>cs c d. find_condition cs (cond_Type c) = Some d \<and> same_condition d c \<longrightarrow> set_cond cs c = cs)"

lemma base_options_with_status [simp]: "base_options (with_ShimStatus st shim) = base_options shim"
  by (cases shim) (simp_all add: base_options_def)

lemma ShimKey_with_status [simp]: "ShimKey (with_ShimStatus st shim) = ShimKey shim"
  by (cases shim) simp_all

lemma countMatchedPods_with_status [simp]:
  "countMatchedPods lst (with_ShimStatus st shim) = countMatchedPods lst shim"
  by (simp add: countMatchedPods_def)

definition problems_of :: "as_selector \<Rightarrow> engine \<Rightarrow> (nat \<Rightarrow> bool) \<Rightarrow> Shim \<Rightarrow> shim_problem list" where
  "problems_of asSel E isPrint shim = validateShim asSel E isPrint (ShimSpec shim) (GetName shim)"

lemma reconcileShim_Some:
  assumes "reconcileShim asSel E isPrint w shim = Some out"
  obtains counted st where "countMatchedPods (w_listPods w) shim = Some counted"
    "st = \<lparr>st_Conditions = w_setCondition w (st_Conditions (ShimStatus shim))
             (ready_condition w (problems_of asSel E isPrint shim) (GetGeneration shim)),
          st_ObservedGeneration = GetGeneration shim,
          st_MatchedPods = (case counted of Inr m \<Rightarrow> Some m | Inl _ \<Rightarrow> st_MatchedPods (ShimStatus shim))\<rparr>"
    "out_Shim out = with_ShimStatus st shim"
    "out_Written out = (if w_deepEqual w (ShimStatus shim) st then None else Some (with_ShimStatus st shim))"
    "out_Result out = (case (if w_deepEqual w (ShimStatus shim) st then None else w_updateStatus w (with_ShimStatus st shim)) of
       Some err \<Rightarrow> Inl (UpdatingStatus (ShimKey shim) err)
     | None \<Rightarrow> (case counted of Inl err \<Rightarrow> Inl (ListingPods (ShimKey shim) err) | Inr _ \<Rightarrow> Inr requeueInterval))"
proof -
  let ?st = "\<lambda>counted. \<lparr>st_Conditions = w_setCondition w (st_Conditions (ShimStatus shim))
             (ready_condition w (problems_of asSel E isPrint shim) (GetGeneration shim)),
          st_ObservedGeneration = GetGeneration shim,
          st_MatchedPods = (case counted of Inr m \<Rightarrow> Some m | Inl _ \<Rightarrow> st_MatchedPods (ShimStatus shim))\<rparr>"
  from assms obtain counted where c: "countMatchedPods (w_listPods w) shim = Some counted"
    by (auto simp: reconcileShim_def Let_def split: option.splits)
  have upd: "(case counted of
        Inl _ \<Rightarrow> (ShimStatus shim)\<lparr>st_Conditions := X, st_ObservedGeneration := g\<rparr>
      | Inr m \<Rightarrow> (ShimStatus shim)\<lparr>st_Conditions := X, st_ObservedGeneration := g, st_MatchedPods := Some m\<rparr>)
    = \<lparr>st_Conditions = X, st_ObservedGeneration = g,
       st_MatchedPods = (case counted of Inr m \<Rightarrow> Some m | Inl _ \<Rightarrow> st_MatchedPods (ShimStatus shim))\<rparr>" for X g
    by (cases counted) (auto intro: OIDCShimStatus.equality)
  show thesis
    by (rule that [OF c refl]) (use assms c in \<open>auto simp: reconcileShim_def Let_def upd problems_of_def\<close>)
qed

definition store_condition :: "Condition list \<Rightarrow> Condition \<Rightarrow> Condition list" where
  "store_condition cs c =
     (case find_condition cs (cond_Type c) of
        None \<Rightarrow> cs @ [c]
      | Some d \<Rightarrow> if same_condition d c then cs else map (\<lambda>x. if cond_Type x = cond_Type c then c else x) cs)"

lemma store_condition_sets: "sets_condition store_condition"
proof -
  have "find_condition (map (\<lambda>x. if cond_Type x = cond_Type c then c else x) cs) (cond_Type c) = Some c"
    if "find_condition cs (cond_Type c) = Some d" for cs c d
    using that by (induction cs) (auto simp: find_condition_def split: if_splits)
  then show ?thesis
    by (auto simp: sets_condition_def store_condition_def find_condition_def find_append same_condition_def
        split: option.split)
qed

lemma store_condition_keeps: "keeps_condition store_condition"
  by (auto simp: keeps_condition_def store_condition_def)

definition sample_world :: world where
  "sample_world =
     \<lparr>w_setCondition = store_condition, w_deepEqual = (=), w_errorText = (\<lambda>ps. ''invalid''),
      w_listPods = two_pages, w_updateStatus = (\<lambda>s. None)\<rparr>"

lemma sample_reconciles: "\<exists>out. reconcileShim (\<lambda>_. Inl []) field_engine (\<lambda>c. True) sample_world sample_shim = Some out"
proof -
  let ?b = "base_options sample_shim"
  have "pages two_pages ?b ''next'' [sample_pod]"
    using pages.last_page [of two_pages ?b "''next''" "\<lparr>pl_Items = [sample_pod], pl_Continue = []\<rparr>"]
    by (simp add: two_pages_def page_request_def)
  then have "pages two_pages ?b [] ([sample_pod, sample_pod] @ [sample_pod])"
    using pages.next_page [of two_pages ?b "[]" "\<lparr>pl_Items = [sample_pod, sample_pod], pl_Continue = ''next''\<rparr>"]
    by (simp add: two_pages_def page_request_def base_options_def)
  from pages_count [OF this, of 0] show ?thesis
    by (auto simp: reconcileShim_def countMatchedPods_def sample_world_def Let_def)
qed

text \<open>
  (C24) What a reconciliation reports. Nothing of the shim but its status changes. In it, the condition given to
  \<open>SetStatusCondition\<close>, and found afterwards, is Ready for the current generation: True with reason \<open>Valid\<close> and no
  message when the static validation finds no problem, False with reason \<open>InvalidSpec\<close> and the text of the problems
  otherwise; the observed generation is the current one; the pod count is replaced by the new one, or kept when
  counting failed. The status is written exactly when it changed, and the run ends with the error of the
  update when that fails, else with the counting error, else with the next refresh after five minutes.
\<close>

theorem reconcileShim_reports:
  assumes "reconcileShim asSel E isPrint w shim = Some out" "sets_condition (w_setCondition w)"
    and "problems = validateShim asSel E isPrint (ShimSpec shim) (GetName shim)"
  shows "\<exists>st c counted.
    out_Shim out = with_ShimStatus st shim \<and>
    c = \<lparr>cond_Type = ''Ready'',
         cond_Status = (if problems = [] then ''True'' else ''False''),
         cond_Reason = (if problems = [] then ''Valid'' else ''InvalidSpec''),
         cond_Message = (if problems = [] then [] else w_errorText w problems),
         cond_ObservedGeneration = GetGeneration shim, cond_LastTransitionTime = 0\<rparr> \<and>
    st_Conditions st = w_setCondition w (st_Conditions (ShimStatus shim)) c \<and>
    (\<exists>d. find_condition (st_Conditions st) ''Ready'' = Some d \<and> same_condition d c) \<and>
    st_ObservedGeneration st = GetGeneration shim \<and>
    countMatchedPods (w_listPods w) shim = Some counted \<and>
    st_MatchedPods st = (case counted of Inr m \<Rightarrow> Some m | Inl _ \<Rightarrow> st_MatchedPods (ShimStatus shim)) \<and>
    out_Written out = (if w_deepEqual w (ShimStatus shim) st then None else Some (with_ShimStatus st shim)) \<and>
    out_Result out =
      (case (out_Written out, w_updateStatus w (with_ShimStatus st shim), counted) of
         (Some _, Some err, _) \<Rightarrow> Inl (UpdatingStatus (ShimKey shim) err)
       | (_, _, Inl err) \<Rightarrow> Inl (ListingPods (ShimKey shim) err)
       | (_, _, Inr _) \<Rightarrow> Inr (5 * 60 * 10 ^ 9))"
proof (rule reconcileShim_Some [OF assms(1)])
  fix counted st
  let ?c = "ready_condition w (problems_of asSel E isPrint shim) (GetGeneration shim)"
  assume c: "countMatchedPods (w_listPods w) shim = Some counted"
    and st: "st = \<lparr>st_Conditions = w_setCondition w (st_Conditions (ShimStatus shim)) ?c,
          st_ObservedGeneration = GetGeneration shim,
          st_MatchedPods = (case counted of Inr m \<Rightarrow> Some m | Inl _ \<Rightarrow> st_MatchedPods (ShimStatus shim))\<rparr>"
    and shim: "out_Shim out = with_ShimStatus st shim"
    and wr: "out_Written out = (if w_deepEqual w (ShimStatus shim) st then None else Some (with_ShimStatus st shim))"
    and res: "out_Result out = (case (if w_deepEqual w (ShimStatus shim) st then None else w_updateStatus w (with_ShimStatus st shim)) of
       Some err \<Rightarrow> Inl (UpdatingStatus (ShimKey shim) err)
     | None \<Rightarrow> (case counted of Inl err \<Rightarrow> Inl (ListingPods (ShimKey shim) err) | Inr _ \<Rightarrow> Inr requeueInterval))"
  have c': "?c = \<lparr>cond_Type = ''Ready'', cond_Status = (if problems = [] then ''True'' else ''False''),
         cond_Reason = (if problems = [] then ''Valid'' else ''InvalidSpec''),
         cond_Message = (if problems = [] then [] else w_errorText w problems),
         cond_ObservedGeneration = GetGeneration shim, cond_LastTransitionTime = 0\<rparr>"
    by (simp add: ready_condition_def problems_of_def assms(3) ConditionReady_def ReasonValid_def ReasonInvalidSpec_def Let_def)
  have fields: "st_Conditions st = w_setCondition w (st_Conditions (ShimStatus shim)) ?c"
    "st_ObservedGeneration st = GetGeneration shim"
    "st_MatchedPods st = (case counted of Inr m \<Rightarrow> Some m | Inl _ \<Rightarrow> st_MatchedPods (ShimStatus shim))"
    by (simp_all add: st)
  have "cond_Type ?c = ''Ready''" by (simp add: c')
  then have found: "\<exists>d. find_condition (st_Conditions st) ''Ready'' = Some d \<and> same_condition d ?c"
    using assms(2) unfolding sets_condition_def fields(1) by metis
  have ends: "out_Result out = (case (out_Written out, w_updateStatus w (with_ShimStatus st shim), counted) of
         (Some _, Some err, _) \<Rightarrow> Inl (UpdatingStatus (ShimKey shim) err)
       | (_, _, Inl err) \<Rightarrow> Inl (ListingPods (ShimKey shim) err)
       | (_, _, Inr _) \<Rightarrow> Inr (5 * 60 * 10 ^ 9))"
    unfolding res wr by (auto simp: requeueInterval_def split: option.split sum.split)
  show ?thesis
    by (rule exI [of _ st], rule exI [of _ ?c], rule exI [of _ counted])
      (intro conjI shim c' fields found c wr ends)
qed

theorem reconcileShim_reports_witness:
  "\<exists>out d. reconcileShim (\<lambda>_. Inl []) field_engine (\<lambda>c. True) sample_world sample_shim = Some out \<and>
     find_condition (st_Conditions (ShimStatus (out_Shim out))) ConditionReady = Some d \<and> cond_Status d = ''True''"
proof -
  obtain out where out: "reconcileShim (\<lambda>_. Inl []) field_engine (\<lambda>c. True) sample_world sample_shim = Some out"
    using sample_reconciles by blast
  have "ShimSpec sample_shim = sample_spec" "GetName sample_shim = ''gcp''" by (simp_all add: sample_shim_def)
  then have "validateShim (\<lambda>_. Inl []) field_engine (\<lambda>c. True) (ShimSpec sample_shim) (GetName sample_shim) = []"
    using sample_spec_valid by simp
  then show ?thesis
    using reconcileShim_reports [OF out _ refl] store_condition_sets out
    by (auto simp: sample_world_def ConditionReady_def same_condition_def)
qed

lemma with_ShimStatus_twice [simp]: "with_ShimStatus st' (with_ShimStatus st shim) = with_ShimStatus st' shim"
  by (cases shim) simp_all

lemma problems_of_with_status [simp]:
  "problems_of asSel E isPrint (with_ShimStatus st shim) = problems_of asSel E isPrint shim"
  by (simp add: problems_of_def)

lemma reconcileShim_returns:
  "(\<exists>out. reconcileShim asSel E isPrint w shim = Some out) \<longleftrightarrow>
   (\<exists>counted. countMatchedPods (w_listPods w) shim = Some counted)"
  by (auto simp: reconcileShim_def Let_def split: option.split)

text \<open>
  (C25) Reconciliation settles. Once a run has returned, running again on the shim it left behind, with the
  same pods, writes nothing: the status is a fixed point, so the status update cannot keep
  triggering reconciliations.
\<close>

theorem reconcileShim_settles:
  assumes "reconcileShim asSel E isPrint w shim = Some out"
    and "sets_condition (w_setCondition w)" "keeps_condition (w_setCondition w)"
    and "\<And>st. w_deepEqual w st st"
  shows "\<exists>out'. reconcileShim asSel E isPrint w (out_Shim out) = Some out' \<and>
    out_Shim out' = out_Shim out \<and> out_Written out' = None"
proof -
  let ?c = "ready_condition w (problems_of asSel E isPrint shim) (GetGeneration shim)"
  from reconcileShim_Some [OF assms(1)] obtain counted st where c: "countMatchedPods (w_listPods w) shim = Some counted"
    and st: "st = \<lparr>st_Conditions = w_setCondition w (st_Conditions (ShimStatus shim)) ?c,
          st_ObservedGeneration = GetGeneration shim,
          st_MatchedPods = (case counted of Inr m \<Rightarrow> Some m | Inl _ \<Rightarrow> st_MatchedPods (ShimStatus shim))\<rparr>"
    and shim: "out_Shim out = with_ShimStatus st shim" by metis
  have "cond_Type ?c = ConditionReady" by (simp add: ready_condition_def Let_def)
  with assms(2) obtain d where "find_condition (st_Conditions st) (cond_Type ?c) = Some d" "same_condition d ?c"
    unfolding sets_condition_def st by (metis OIDCShimStatus.select_convs(1))
  with assms(3) have same: "w_setCondition w (st_Conditions st) ?c = st_Conditions st"
    unfolding keeps_condition_def by blast
  obtain out' where out': "reconcileShim asSel E isPrint w (out_Shim out) = Some out'"
    using reconcileShim_returns [of asSel E isPrint w "out_Shim out"] c shim by auto
  have fix_st: "\<lparr>st_Conditions = st_Conditions st, st_ObservedGeneration = GetGeneration shim,
      st_MatchedPods = (case counted of Inr m \<Rightarrow> Some m | Inl _ \<Rightarrow> st_MatchedPods st)\<rparr> = st"
    by (cases counted) (simp_all add: st)
  show ?thesis
  proof (rule reconcileShim_Some [OF out'], goal_cases)
    case (1 counted' st')
    from 1(1) c have "counted' = counted" by (simp add: shim)
    with 1(2) same fix_st have "st' = st" by (cases counted) (simp_all add: shim)
    with 1(3,4) out' assms(4) show ?case by (simp add: shim)
  qed
qed

theorem reconcileShim_settles_witness:
  "\<exists>out out'. reconcileShim (\<lambda>_. Inl []) field_engine (\<lambda>c. True) sample_world sample_shim = Some out \<and>
     reconcileShim (\<lambda>_. Inl []) field_engine (\<lambda>c. True) sample_world (out_Shim out) = Some out' \<and>
     out_Written out' = None"
proof -
  obtain out where out: "reconcileShim (\<lambda>_. Inl []) field_engine (\<lambda>c. True) sample_world sample_shim = Some out"
    using sample_reconciles by blast
  show ?thesis
    using reconcileShim_settles [OF out] out store_condition_sets store_condition_keeps
    by (auto simp: sample_world_def)
qed

subsection \<open>Names and modes\<close>

lemma itoa_length:
  assumes "i < 10 ^ k" "0 < k"
  shows "length (itoa i) \<le> k"
  using assms
proof (induction k arbitrary: i)
  case (Suc k)
  show ?case
  proof (cases "i < 10")
    case True
    then show ?thesis by (subst itoa.simps) simp
  next
    case False
    with Suc.prems have "0 < k" "i div 10 < 10 ^ k" by (cases k; auto)+
    with Suc.IH False show ?thesis by (subst itoa.simps) simp
  qed
qed simp

text \<open>
  (C38) A validated name fits everywhere it is embedded: the derived container and volume names and the
  names of the label and annotation keys have at most 63 characters, the limit Kubernetes sets,
  as long as a shim has fewer than \<open>10\<^sup>11\<close> files.
\<close>

theorem derived_names_fit:
  assumes "validateName n = []" "i < 10 ^ 11"
  shows "list_all (\<lambda>s. length s \<le> 63)
    [initContainerName n, refreshContainerName n, configVolumeName n,
     tok_VolumeName (ResolveToken n \<lparr>tk_VolumeName = [], tk_MountPath = mp, tk_FileName = fn, tk_FileMode = fm\<rparr>),
     drop (length (GroupPrefix @ ''/'')) (ShimLabelKey n),
     drop (length (GroupPrefix @ ''/'')) (HelperConfAnnotation n),
     drop (length (GroupPrefix @ ''/'')) (fileAnnotation n i)]"
proof -
  have "length n \<le> 46" using assms(1) by (simp add: validateName_def maxShimNameLength_def split: if_splits)
  with itoa_length [OF assms(2)] show ?thesis
    by (simp add: initContainerName_def refreshContainerName_def configVolumeName_def ResolveToken_def
        ShimLabelKey_def HelperConfAnnotation_def fileAnnotation_def key_defs)
qed

theorem derived_names_fit_witness: "length (refreshContainerName ''gcp'') \<le> 63"
  using derived_names_fit [of "''gcp''" 0] by (simp add: validateName_def maxShimNameLength_def)

text \<open>
  The mode rules of controller and webhook differ, although both comments say they are the same:
  every mode the controller accepts is accepted at admission, but a file with mode \<open>37777777777\<close>, which
  the controller reports as invalid, is rendered by the webhook and mounted with mode \<open>-1\<close>.
\<close>

lemma file_mode_rules_differ:
  "(ModePattern m \<longrightarrow> parseFileMode m \<noteq> None) \<and>
   (let f = \<lparr>fs_Path = ''/f'', fs_Content = ''c'', fs_Mode = ''37777777777''\<rparr> in
    validateFiles [f] ''/t'' = [FileModeInvalid ''/f'' ''37777777777''] \<and>
    render_files field_engine [] ''/t'' 0 [''/t''] [f] =
      Inr [\<lparr>rf_Path = ''/f'', rf_Content = ''c'', rf_Mode = ''37777777777''\<rparr>] \<and>
    parseFileMode ''37777777777'' = Some (- 1))"
proof -
  have "parseFileMode ''37777777777'' = Some (- 1)"
    by (simp add: parseFileMode_def ParseUint8_32_def is_octal_def octal_val_def digit_val_def)
  moreover have "Render_template field_engine ''file'' ''c'' [] = Inr ''c''" by code_simp
  ultimately show ?thesis
    using ModePattern_parse
    by (simp add: validateFiles_def ModePattern_def is_octal_def HasPrefix_def file_mode_def Let_def)
qed

end
