(* ===== verification/Cluster.thy ===== *)
theory Cluster
  imports Handler Controller
begin

text \<open>
  The webhook and the controllers in a running cluster. They never call each other: they meet in the pods
  the API server stores. The state is the list of stored pods with their namespaces; it changes when
  a pod is created, through the webhook, and when one is deleted. Every creation may see other
  answers of the API server (stale caches, changed shims), so each step brings a handler of its own.
  The answer to an error is that the pod is not stored (\<open>failurePolicy: Fail\<close> of \<open>handler.go\<close>).
  Pods whose labels or annotations under the prefix of the operator are written by somebody else are
  left out; updates of stored pods do not reach the webhook and are not modelled.
\<close>

section \<open>The cluster\<close>

type_synonym cluster = "(string \<times> Pod) list"

definition untagged :: "Pod \<Rightarrow> bool" where
  "untagged pod \<longleftrightarrow>
     smap_lookup (pod_Annotations pod) ShimsAnnotation = None \<and>
     list_all (\<lambda>(k, v). \<not> HasPrefix k ShimLabelPrefix) (pod_Labels pod)"

text \<open>
  What the API server promises of its lists: objects of the namespace asked for, under valid names.
  Decoding what was encoded gives the pod back, up to the order of its maps.
\<close>

definition api_reader :: "Handler \<Rightarrow> bool" where
  "api_reader h \<longleftrightarrow>
     (\<forall>ns shims. rd_OIDCShims (hd_Reader h) ns = Inr shims \<longrightarrow>
        list_all (\<lambda>s. os_Namespace s = ns \<and> shim_wf (Namespaced s)) shims) \<and>
     (\<forall>shims. rd_ClusterOIDCShims (hd_Reader h) = Inr shims \<longrightarrow> list_all (\<lambda>s. shim_wf (ClusterScoped s)) shims)"

definition codec :: "library \<Rightarrow> (string \<Rightarrow> Pod) \<Rightarrow> bool" where
  "codec lib decode \<longleftrightarrow> (\<forall>pod s. lib_marshal lib pod = Inr s \<longrightarrow> same_pod pod (decode s))"

inductive cluster_step :: "library \<Rightarrow> (string \<Rightarrow> Pod) \<Rightarrow> cluster \<Rightarrow> cluster \<Rightarrow> bool" for lib decode where
  stored_as_is:
    "\<lbrakk>req_Operation req = Create; hd_Decode h req = Inr pod; untagged pod; Handle lib h req = Allowed msg ws\<rbrakk> \<Longrightarrow>
     cluster_step lib decode c ((request_namespace req pod, pod) # c)"
| stored_patched:
    "\<lbrakk>api_reader h; hd_Decode h req = Inr pod; untagged pod; Handle lib h req = Patched raw marshaled ws\<rbrakk> \<Longrightarrow>
     cluster_step lib decode c ((request_namespace req pod, decode marshaled) # c)"
| refused: "Handle lib h req = Errored code e \<Longrightarrow> cluster_step lib decode c c"
| deleted: "cluster_step lib decode (xs @ p # ys) (xs @ ys)"

inductive cluster_reach :: "library \<Rightarrow> (string \<Rightarrow> Pod) \<Rightarrow> cluster \<Rightarrow> bool" for lib decode where
  empty_cluster: "cluster_reach lib decode []"
| next_state: "cluster_reach lib decode c \<Longrightarrow> cluster_step lib decode c c' \<Longrightarrow> cluster_reach lib decode c'"

inductive_cases cluster_stepE: "cluster_step lib decode c c'"

section \<open>Labels and recorded shims agree\<close>

definition scope_value :: "Shim \<Rightarrow> string" where
  "scope_value s = (if IsClusterScoped s then ShimLabelValueCluster else ShimLabelValueNamespaced)"

definition tagged_by :: "string \<Rightarrow> Pod \<Rightarrow> Shim list \<Rightarrow> bool" where
  "tagged_by ns pod shims \<longleftrightarrow>
     shims \<noteq> [] \<and> (\<forall>s\<in>set shims. shim_wf s \<and> (IsClusterScoped s \<or> GetNamespace s = ns)) \<and>
     distinct (map GetName shims) \<and>
     smap_lookup (pod_Annotations pod) ShimsAnnotation = Some (join '','' (map ShimKey shims)) \<and>
     (\<forall>name. smap_lookup (pod_Labels pod) (ShimLabelKey name) =
        map_of (map (\<lambda>s. (GetName s, scope_value s)) shims) name)"

definition consistent_tags :: "string \<times> Pod \<Rightarrow> bool" where
  "consistent_tags sp \<longleftrightarrow> untagged (snd sp) \<or> (\<exists>shims. tagged_by (fst sp) (snd sp) shims)"

lemma consistent_tagsI:
  "untagged pod \<Longrightarrow> consistent_tags (ns, pod)"
  "\<exists>shims. tagged_by ns pod shims \<Longrightarrow> consistent_tags (ns, pod)"
  by (simp_all add: consistent_tags_def)

lemma map_filter_subseq_preimage:
  "subseq ys (List.map_filter f xs) \<Longrightarrow> \<exists>zs. subseq zs xs \<and> map f zs = map Some ys"
proof (induction xs arbitrary: ys)
  case Nil
  then have "ys = []" by (auto simp: map_filter_simps dest: list_emb_Nil2)
  then show ?case by simp
next
  case (Cons x xs)
  consider "subseq ys (List.map_filter f xs)"
    | y ys' where "f x = Some y" "ys = y # ys'" "subseq ys' (List.map_filter f xs)"
    using Cons.prems by (cases "f x") (auto simp: map_filter_simps elim: list_emb.cases)
  then show ?case
  proof cases
    case 1
    with Cons.IH show ?thesis using list_emb_Cons by blast
  next
    case 2
    with Cons.IH [of ys'] obtain zs where "subseq zs xs" "map f zs = map Some ys'" by blast
    with 2 show ?thesis by (intro exI [of _ "x # zs"]) simp
  qed
qed

lemma listShims_api:
  assumes "listShims h ns = Inr shims" "api_reader h" "s \<in> set shims"
  shows "shim_wf s \<and> (IsClusterScoped s \<or> GetNamespace s = ns)"
  using assms by (fastforce simp: listShims_def api_reader_def list_all_iff split: sum.splits)

lemma labels_of_applied:
  assumes "distinct (map GetName shims)" "untagged pod"
  shows "smap_lookup (store_all (map (\<lambda>s. (ShimLabelKey (GetName s), scope_value s)) shims) (pod_Labels pod))
      (ShimLabelKey name) = map_of (map (\<lambda>s. (GetName s, scope_value s)) shims) name"
proof (cases "map_of (map (\<lambda>s. (GetName s, scope_value s)) shims) name")
  case (Some v)
  then have "(ShimLabelKey name, v) \<in> set (map (\<lambda>s. (ShimLabelKey (GetName s), scope_value s)) shims)"
    by (auto dest!: map_of_SomeD)
  moreover have "distinct (map fst (map (\<lambda>s. (ShimLabelKey (GetName s), scope_value s)) shims))"
    using assms(1) by (simp add: comp_def distinct_map inj_on_def name_simps)
  ultimately have "smap_lookup (store_all (map (\<lambda>s. (ShimLabelKey (GetName s), scope_value s)) shims) (pod_Labels pod))
      (ShimLabelKey name) = Some v"
    unfolding store_all_def by (intro sm.lookup_store_all)
  with Some show ?thesis by simp
next
  case None
  then have "name \<notin> GetName ` set shims" by (simp add: map_of_eq_None_iff image_image)
  then have n: "ShimLabelKey name \<notin> fst ` set (map (\<lambda>s. (ShimLabelKey (GetName s), scope_value s)) shims)"
    by (auto simp: name_simps)
  have "smap_lookup (pod_Labels pod) (ShimLabelKey name) = None"
    using assms(2) by (fastforce simp: untagged_def smap_lookup_def map_of_eq_None_iff list_all_iff ShimLabelKey_def HasPrefix_def)
  with None show ?thesis unfolding store_all_def sm.lookup_store_all_other [OF n] by simp
qed

lemma tagged_by_same: "tagged_by ns p shims \<Longrightarrow> same_pod p q \<Longrightarrow> tagged_by ns q shims"
  by (simp add: tagged_by_def same_pod_def)

lemma patched_tagged:
  assumes "api_reader h" "hd_Decode h req = Inr pod" "untagged pod" "codec lib decode"
    and "Handle lib h req = Patched raw marshaled ws"
  shows "\<exists>shims. tagged_by (request_namespace req pod) (decode marshaled) shims"
proof (rule Handle_patched [OF assms(5)])
  fix pod0 shims pod' applied aws
  let ?ns = "request_namespace req pod"
  let ?f = "shim_plan lib h ?ns (target_of h ?ns pod)"
  assume "hd_Decode h req = Inr pod0"
  then have pod0: "pod0 = pod" using assms(2) by simp
  assume "listShims h (request_namespace req pod0) = Inr shims"
    and "Apply_pod pod0 (pod_plans lib h (request_namespace req pod0) pod0) = (pod', applied, aws)"
    and a: "applied \<noteq> []" "lib_marshal lib pod' = Inr marshaled"
    and "subseq applied (List.map_filter (shim_plan lib h (request_namespace req pod0)
      (target_of h (request_namespace req pod0) pod0)) shims)"
  then have l: "listShims h ?ns = Inr shims" and A: "Apply_pod pod (pod_plans lib h ?ns pod) = (pod', applied, aws)"
    and sub: "subseq applied (List.map_filter ?f shims)" by (simp_all add: pod0)
  obtain ss where ss: "subseq ss shims" "map ?f ss = map Some applied" using map_filter_subseq_preimage [OF sub] by blast
  have plan: "p_ShimName p = GetName s \<and> p_ShimKey p = ShimKey s \<and> p_ClusterScoped p = IsClusterScoped s"
    if "?f s = Some p" for s p
    using shim_plan_Some [OF that] BuildPlan_wf(4) by blast
  have "list_all2 (=) (map ?f ss) (map Some applied)" by (simp add: ss(2) list.rel_eq)
  then have all: "list_all2 (\<lambda>s p. ?f s = Some p) ss applied" by (simp add: list.rel_map)
  have names: "map GetName ss = map p_ShimName applied" and keys: "map ShimKey ss = map p_ShimKey applied"
    and labels: "map (\<lambda>s. (ShimLabelKey (GetName s), scope_value s)) ss = map plan_label applied"
    using all by (induction rule: list_all2_induct) (auto dest!: plan simp: plan_label_def scope_value_def)
  obtain st where r: "apply_reach pod (pod_plans lib h ?ns pod) st" and st: "pod' = apply_finish st" "applied = a_applied st"
    using Apply_pod_finish [OF A] a(1) by auto
  have d: "distinct (map GetName ss)" using reach_names [OF r] by (simp add: names names_inv_def st(2))
  have wf: "\<forall>s\<in>set ss. shim_wf s \<and> (IsClusterScoped s \<or> GetNamespace s = ?ns)"
    using ss(1) listShims_api [OF l assms(1)] by (auto dest: list_emb_set)
  have "smap_lookup (pod_Annotations pod') ShimsAnnotation = Some (join '','' (map ShimKey ss))"
    by (simp add: st(1) frame_simps sm.lookup_store keys flip: st(2))
  moreover have "pod_Labels pod' = store_all (map plan_label applied) (pod_Labels pod)"
    by (simp add: st frame_simps effect_inv_fields(2) [OF reach_effect [OF r]])
  moreover have "ss \<noteq> []" using all a(1) by auto
  ultimately have "tagged_by ?ns pod' ss"
    using labels_of_applied [OF d assms(3)] wf d by (simp add: tagged_by_def labels)
  moreover have "same_pod pod' (decode marshaled)" using assms(4) a(2) by (simp add: codec_def)
  ultimately show ?thesis using tagged_by_same by blast
qed

lemma reach_consistent:
  assumes "cluster_reach lib decode c" "codec lib decode"
  shows "list_all consistent_tags c"
  using assms
proof (induction rule: cluster_reach.induct)
  case empty_cluster
  show ?case by simp
next
  case (next_state c c')
  then have "list_all consistent_tags c" by simp
  with next_state.hyps(2) show ?case
    by (cases rule: cluster_step.cases)
      (auto intro: consistent_tagsI patched_tagged [OF _ _ _ next_state.prems])
qed

section \<open>What the controller counts\<close>

text \<open>
  The pods a list request selects, by label and namespace, and the pods that record a shim in the
  annotation the webhook wrote.
\<close>

definition selects :: "ListOptions \<Rightarrow> string \<times> Pod \<Rightarrow> bool" where
  "selects opts sp \<longleftrightarrow>
     smap_lookup (pod_Labels (snd sp)) (fst (lo_MatchingLabel opts)) = Some (snd (lo_MatchingLabel opts)) \<and>
     (case lo_Namespace opts of None \<Rightarrow> True | Some ns \<Rightarrow> fst sp = ns)"

definition records_shim :: "Shim \<Rightarrow> string \<times> Pod \<Rightarrow> bool" where
  "records_shim shim sp \<longleftrightarrow>
     ShimKey shim \<in> set (split_on (CHR '','') (smap_get (pod_Annotations (snd sp)) ShimsAnnotation))"

lemma ShimKey_not_Nil [simp]: "ShimKey s \<noteq> []"
  by (cases s) auto

lemma scope_value_eq [simp]: "scope_value s = scope_value t \<longleftrightarrow> IsClusterScoped s = IsClusterScoped t"
  by (simp add: scope_value_def ShimLabelValueCluster_def ShimLabelValueNamespaced_def)

lemma selects_base_options:
  "selects (base_options shim) sp \<longleftrightarrow>
     smap_lookup (pod_Labels (snd sp)) (ShimLabelKey (GetName shim)) = Some (scope_value shim) \<and>
     (IsClusterScoped shim \<or> fst sp = GetNamespace shim)"
  by (simp add: selects_def base_options_def scope_value_def)

lemma tagged_selects:
  assumes "tagged_by ns pod shims" "shim_wf shim"
  shows "selects (base_options shim) (ns, pod) \<longleftrightarrow> records_shim shim (ns, pod)"
proof -
  have t: "shims \<noteq> []" "\<And>s. s \<in> set shims \<Longrightarrow> shim_wf s" "\<And>s. s \<in> set shims \<Longrightarrow> IsClusterScoped s \<or> GetNamespace s = ns"
    and d: "distinct (map GetName shims)"
    and a: "smap_lookup (pod_Annotations pod) ShimsAnnotation = Some (join '','' (map ShimKey shims))"
    and l: "smap_lookup (pod_Labels pod) (ShimLabelKey name) = map_of (map (\<lambda>s. (GetName s, scope_value s)) shims) name" for name
    using assms(1) by (auto simp: tagged_by_def)
  have "split_on (CHR '','') (smap_get (pod_Annotations pod) ShimsAnnotation) = map ShimKey shims"
    using shim.split_joined_keys [OF t(1,2)] a by (simp add: smap_get_def)
  then have r: "records_shim shim (ns, pod) \<longleftrightarrow> (\<exists>s\<in>set shims. ShimKey s = ShimKey shim)"
    by (simp add: records_shim_def image_iff) metis
  have "map_of (map (\<lambda>s. (GetName s, scope_value s)) shims) (GetName shim) = Some (scope_value shim) \<longleftrightarrow>
      (\<exists>s\<in>set shims. GetName s = GetName shim \<and> IsClusterScoped s = IsClusterScoped shim)"
    using d by (subst map_of_eq_Some_iff) (simp_all add: comp_def image_iff, metis)
  then have s: "selects (base_options shim) (ns, pod) \<longleftrightarrow>
      (\<exists>s\<in>set shims. GetName s = GetName shim \<and> IsClusterScoped s = IsClusterScoped shim) \<and>
      (IsClusterScoped shim \<or> ns = GetNamespace shim)"
    by (simp add: selects_base_options l)
  have key: "ShimKey s = ShimKey shim \<longleftrightarrow>
      GetName s = GetName shim \<and> IsClusterScoped s = IsClusterScoped shim \<and> (IsClusterScoped shim \<or> ns = GetNamespace shim)"
    if "s \<in> set shims" for s
  proof
    assume "ShimKey s = ShimKey shim"
    with shim.key_inj [OF t(2) [OF that] assms(2)] t(3) [OF that]
    show "GetName s = GetName shim \<and> IsClusterScoped s = IsClusterScoped shim \<and> (IsClusterScoped shim \<or> ns = GetNamespace shim)"
      by (auto simp: shim_ident_def)
  next
    assume "GetName s = GetName shim \<and> IsClusterScoped s = IsClusterScoped shim \<and> (IsClusterScoped shim \<or> ns = GetNamespace shim)"
    with t(3) [OF that] show "ShimKey s = ShimKey shim" by (cases s; cases shim) auto
  qed
  show ?thesis unfolding r s using key by blast
qed

lemma untagged_selects:
  assumes "untagged pod"
  shows "\<not> selects (base_options shim) (ns, pod)" "\<not> records_shim shim (ns, pod)"
proof -
  have "smap_get (pod_Annotations pod) ShimsAnnotation = []" using assms by (simp add: untagged_def smap_get_def)
  then show "\<not> records_shim shim (ns, pod)" by (simp add: records_shim_def)
  show "\<not> selects (base_options shim) (ns, pod)"
    using labels_of_applied [of "[]" pod "GetName shim"] assms by (simp add: selects_base_options)
qed

lemma consistent_selects:
  "consistent_tags sp \<Longrightarrow> shim_wf shim \<Longrightarrow> selects (base_options shim) sp \<longleftrightarrow> records_shim shim sp"
  using tagged_selects untagged_selects by (cases sp) (auto simp: consistent_tags_def)

section \<open>Properties\<close>

text \<open>
  (C8) The pod count tells the truth about the cluster. Whatever pods were created through the webhook and deleted
  since, in any order and with any answers of the API server in between: when the controller
  reconciles a shim and the server lists the pods it stores, the count in the status is the number of
  stored pods whose record of applied shims names that shim. A shim of the other kind, or of another
  namespace, with the same name is never mixed in.
\<close>

theorem matched_pods_are_recorded:
  assumes "cluster_reach lib decode c" "codec lib decode" "shim_wf shim"
    and "pages (w_listPods w) (base_options shim) [] listed"
    and "mset listed = mset (map snd (filter (selects (base_options shim)) c))" "length c < 2 ^ 31"
    and "reconcileShim asSel E isPrint w shim = Some out"
  shows "\<exists>m. st_MatchedPods (ShimStatus (out_Shim out)) = Some m \<and>
    sint m = int (length (filter (records_shim shim) c))"
proof -
  have "filter (selects (base_options shim)) c = filter (records_shim shim) c"
    using reach_consistent [OF assms(1,2)] consistent_selects [OF _ assms(3)]
    by (intro filter_cong) (auto simp: list_all_iff)
  then have n: "length listed = length (filter (records_shim shim) c)"
    using mset_eq_length [OF assms(5)] by simp
  then have "length listed < 2 ^ 31" using assms(6) le_less_trans [OF length_filter_le] by metis
  then have "sint (word_of_nat (length listed) :: 32 word) = int (length listed)"
    by (simp add: signed_of_nat signed_take_bit_int_eq_self)
  moreover have "countMatchedPods (w_listPods w) shim = Some (Inr (word_of_nat (length listed)))"
    using pages_count [OF assms(4), of 0] by (simp add: countMatchedPods_def)
  ultimately show ?thesis using n by (auto intro: reconcileShim_Some [OF assms(7)])
qed

definition sample_decode :: "string \<Rightarrow> Pod" where
  "sample_decode s = (if s = ''out'' then sample_out else sample_pod)"

definition lister :: "cluster \<Rightarrow> pod_reader" where
  "lister c opts = Inr \<lparr>pl_Items = map snd (filter (selects (opts\<lparr>lo_ResourceVersion := None\<rparr>)) c), pl_Continue = []\<rparr>"

lemma lister_pages: "pages (lister c) (base_options shim) [] (map snd (filter (selects (base_options shim)) c))"
proof -
  have "(page_request (base_options shim) [])\<lparr>lo_ResourceVersion := None\<rparr> = base_options shim"
    by (simp add: page_request_def base_options_def)
  then have "lister c (page_request (base_options shim) []) =
      Inr \<lparr>pl_Items = map snd (filter (selects (base_options shim)) c), pl_Continue = []\<rparr>"
    by (simp add: lister_def)
  then show ?thesis using pages.last_page [of "lister c" "base_options shim" "[]"] by fastforce
qed

lemma sample_cluster: "cluster_reach sample_lib sample_decode [(''ns'', sample_out)]"
proof -
  obtain ws where p: "Handle sample_lib sample_handler (sample_request ''in'') = Patched ''in'' ''out'' ws"
    using sample_handled by blast
  have "api_reader sample_handler"
    by (simp add: api_reader_def sample_handler_def sample_reader_def sample_shim_def shim_wf_def k8s_name_def)
  moreover have "hd_Decode sample_handler (sample_request ''in'') = Inr sample_pod"
    by (simp add: sample_handler_def sample_request_def)
  moreover have "untagged sample_pod" by (simp add: untagged_def sample_pod_def smap_lookup_def)
  ultimately have "cluster_step sample_lib sample_decode []
      [(request_namespace (sample_request ''in'') sample_pod, sample_decode ''out'')]"
    by (rule cluster_step.stored_patched [OF _ _ _ p])
  then have "cluster_step sample_lib sample_decode [] [(''ns'', sample_out)]"
    by (simp add: request_namespace_def sample_request_def sample_decode_def)
  then show ?thesis by (rule cluster_reach.next_state [OF cluster_reach.empty_cluster])
qed

lemma sample_key: "ShimKey sample_shim = ''OIDCShim/ns/gcp''"
  by (simp add: sample_shim_def)

theorem matched_pods_are_recorded_witness:
  "\<exists>out m. reconcileShim (\<lambda>_. Inl []) field_engine (\<lambda>c. True)
       (sample_world\<lparr>w_listPods := lister [(''ns'', sample_out)]\<rparr>) sample_shim = Some out \<and>
     st_MatchedPods (ShimStatus (out_Shim out)) = Some m \<and> sint m = 1"
proof -
  let ?c = "[(''ns'', sample_out)]" and ?w = "sample_world\<lparr>w_listPods := lister [(''ns'', sample_out)]\<rparr>"
  have "countMatchedPods (lister ?c) sample_shim \<noteq> None"
    using pages_count [OF lister_pages, of ?c sample_shim 0] by (simp add: countMatchedPods_def)
  then obtain out where out: "reconcileShim (\<lambda>_. Inl []) field_engine (\<lambda>c. True) ?w sample_shim = Some out"
    using reconcileShim_returns [of "\<lambda>_. Inl []" field_engine "\<lambda>c. True" ?w sample_shim] by auto
  have codec: "codec sample_lib sample_decode" by (simp add: codec_def sample_lib_def sample_decode_def same_pod_def)
  have wf: "shim_wf sample_shim" by (simp add: shim_wf_def k8s_name_def sample_shim_def)
  obtain st where st: "sample_out = apply_finish st" "a_applied st = [sample_plan]"
    using Apply_pod_finish [OF sample_applied] by auto
  have "smap_get (pod_Annotations sample_out) ShimsAnnotation = ShimKey sample_shim"
    unfolding st(1) by (simp add: frame_simps smap_get_set st(2) sample_plan_fields sample_key)
  moreover have "split_on (CHR '','') (ShimKey sample_shim) = [ShimKey sample_shim]"
    using shim.split_joined_keys [of "[sample_shim]"] wf by simp
  ultimately have "records_shim sample_shim (''ns'', sample_out)" by (simp add: records_shim_def)
  moreover have "pages (w_listPods ?w) (base_options sample_shim) [] (map snd (filter (selects (base_options sample_shim)) ?c))"
    using lister_pages [of ?c sample_shim] by (simp del: filter.simps)
  note matched_pods_are_recorded [OF sample_cluster codec wf this refl _ out]
  ultimately show ?thesis using out by auto
qed

end
