(* ===== verification/InjectionRefine.thy ===== *)
theory InjectionRefine
  imports InjectionProps
begin

text \<open>
  An abstract specification of \<open>Apply\<close> and its refinement. Abstractly, a pod is a stock of resources
  that must not be claimed twice: volume names, init container names, mount paths in each
  container, the bytes of the annotations, and one socket volume that may be shared by
  plans with the same driver. A plan is a demand for such resources, and an allocator grants the
  demands first come, first served: in full or not at all. The loop of \<open>Apply\<close> implements this
  allocator step by step (locale \<open>fold_refinement\<close>).
\<close>

section \<open>The allocator\<close>

datatype socket = NoSocket | ForeignVolume | DriverSocket string

record stock =
  sk_volumes :: "string set"
  sk_socket :: socket
  sk_inits :: "string set"
  sk_containers :: "string set"
  sk_mounts :: "string \<Rightarrow> string set"
  sk_bytes :: nat
  sk_granted :: "string list"

record demand =
  dm_key :: string
  dm_bytes :: nat
  dm_driver :: string
  dm_volumes :: "string set"
  dm_inits :: "string set"
  dm_paths :: "string set"
  dm_requested :: "string set"

definition demand_targets :: "demand \<Rightarrow> stock \<Rightarrow> string set" where
  "demand_targets d s = (if dm_requested d = {} then sk_containers s else dm_requested d \<inter> sk_containers s)"

definition grantable :: "demand \<Rightarrow> stock \<Rightarrow> bool" where
  "grantable d s \<longleftrightarrow>
     sk_bytes s + dm_bytes d \<le> MaxPodAnnotationBytes \<and>
     (dm_requested d = {} \<or> demand_targets d s \<noteq> {}) \<and>
     sk_socket s \<in> {NoSocket, DriverSocket (dm_driver d)} \<and>
     dm_volumes d \<inter> sk_volumes s = {} \<and> dm_inits d \<inter> sk_inits s = {} \<and>
     (\<forall>t\<in>demand_targets d s. dm_paths d \<inter> sk_mounts s t = {})"

definition grant :: "demand \<Rightarrow> stock \<Rightarrow> stock" where
  "grant d s =
     \<lparr>sk_volumes = insert socketVolumeName (sk_volumes s \<union> dm_volumes d),
      sk_socket = DriverSocket (dm_driver d),
      sk_inits = sk_inits s \<union> dm_inits d,
      sk_containers = sk_containers s,
      sk_mounts = (\<lambda>t. if t \<in> demand_targets d s then sk_mounts s t \<union> dm_paths d else sk_mounts s t),
      sk_bytes = sk_bytes s + dm_bytes d,
      sk_granted = sk_granted s @ [dm_key d]\<rparr>"

definition allocate :: "demand \<Rightarrow> stock \<Rightarrow> stock" where
  "allocate d s = (if grantable d s then grant d s else s)"

text \<open>Resources are only ever taken, so what cannot be granted now cannot be granted later.\<close>

definition stock_le :: "stock \<Rightarrow> stock \<Rightarrow> bool" where
  "stock_le s t \<longleftrightarrow>
     sk_volumes s \<subseteq> sk_volumes t \<and> sk_inits s \<subseteq> sk_inits t \<and> sk_containers s = sk_containers t \<and>
     sk_mounts s \<le> sk_mounts t \<and> sk_bytes s \<le> sk_bytes t \<and> sk_socket s \<in> {NoSocket, sk_socket t}"

lemma allocate_grows: "stock_le s (allocate d s)"
  by (auto simp: stock_le_def allocate_def grant_def grantable_def le_fun_def)

lemma grantable_antimono:
  assumes "stock_le s t" "grantable d t"
  shows "grantable d s"
proof -
  have ts: "demand_targets d t = demand_targets d s" using assms(1) by (simp add: demand_targets_def stock_le_def)
  have "dm_paths d \<inter> sk_mounts s x = {}" if "x \<in> demand_targets d s" for x
  proof -
    have "dm_paths d \<inter> sk_mounts t x = {}" using assms(2) that by (simp add: grantable_def ts)
    moreover have "sk_mounts s x \<subseteq> sk_mounts t x" using assms(1) by (simp add: stock_le_def le_fun_def)
    ultimately show ?thesis by blast
  qed
  moreover have "sk_bytes s + dm_bytes d \<le> MaxPodAnnotationBytes" "dm_requested d = {} \<or> demand_targets d s \<noteq> {}"
    using assms by (auto simp: stock_le_def grantable_def ts)
  moreover have "sk_socket s \<in> {NoSocket, DriverSocket (dm_driver d)}"
    using assms by (auto simp: stock_le_def grantable_def)
  moreover have "dm_volumes d \<inter> sk_volumes s = {}" "dm_inits d \<inter> sk_inits s = {}"
    using assms by (auto simp: stock_le_def grantable_def)
  ultimately show ?thesis by (simp add: grantable_def)
qed

lemma granted_not_again: "dm_volumes d \<noteq> {} \<Longrightarrow> \<not> grantable d (allocate d s)"
  by (auto simp: allocate_def grantable_def grant_def)

section \<open>The abstraction\<close>

definition socket_of :: "Pod \<Rightarrow> socket" where
  "socket_of pod =
     (case findVolume pod socketVolumeName of
        None \<Rightarrow> NoSocket
      | Some v \<Rightarrow> (case vs_CSI v of None \<Rightarrow> ForeignVolume | Some csi \<Rightarrow> DriverSocket (csi_Driver csi)))"

definition mounted :: "Container list \<Rightarrow> string \<Rightarrow> string set" where
  "mounted cs name =
     (case findContainer cs name of None \<Rightarrow> {} | Some c \<Rightarrow> vm_MountPath ` set (c_VolumeMounts c))"

definition stock_of :: "nat \<Rightarrow> string list \<Rightarrow> Pod \<Rightarrow> stock" where
  "stock_of bytes granted pod =
     \<lparr>sk_volumes = v_Name ` set (pod_Volumes pod),
      sk_socket = socket_of pod,
      sk_inits = c_Name ` set (pod_InitContainers pod),
      sk_containers = c_Name ` set (pod_Containers pod),
      sk_mounts = mounted (pod_Containers pod),
      sk_bytes = bytes,
      sk_granted = granted\<rparr>"

definition demand_of :: "Pod \<Rightarrow> Plan \<Rightarrow> demand" where
  "demand_of pod p =
     \<lparr>dm_key = p_ShimKey p,
      dm_bytes = renderedBytes p,
      dm_driver = p_CSIDriver p,
      dm_volumes = {tok_VolumeName (p_Token p), configVolumeName (p_ShimName p)},
      dm_inits = {initContainerName (p_ShimName p), refreshContainerName (p_ShimName p)},
      dm_paths = set (mountPaths p),
      dm_requested = set (requested_containers pod p)\<rparr>"

text \<open>The init containers that \<open>Apply\<close> collects are resources already while the loop runs.\<close>

definition state_stock :: "nat \<Rightarrow> apply_state \<Rightarrow> stock" where
  "state_stock existing st =
     stock_of (existing + a_addedBytes st) (map p_ShimKey (a_applied st))
       ((a_pod st)\<lparr>pod_InitContainers := a_newInits st @ pod_InitContainers (a_pod st)\<rparr>)"

section \<open>Refinement of a loop\<close>

locale fold_refinement =
  fixes concrete :: "'x \<Rightarrow> 's \<Rightarrow> 's" and start :: 's
    and abstract :: "'d \<Rightarrow> 'a \<Rightarrow> 'a" and input :: "'x \<Rightarrow> 'd" and \<alpha> :: "'s \<Rightarrow> 'a"
    and reached :: "'x list \<Rightarrow> 's \<Rightarrow> bool"
  assumes reached_start: "reached [] start"
    and reached_step: "reached xs s \<Longrightarrow> reached (xs @ [x]) (concrete x s)"
    and commutes: "reached xs s \<Longrightarrow> \<alpha> (concrete x s) = abstract (input x) (\<alpha> s)"
begin

lemma reached_run: "reached xs (fold concrete xs start)"
  by (induction xs rule: rev_induct) (simp_all add: reached_start reached_step)

lemma refines: "\<alpha> (fold concrete xs start) = fold abstract (map input xs) (\<alpha> start)"
  by (induction xs rule: rev_induct) (simp_all add: commutes [OF reached_run])

end

section \<open>Apply implements the allocator\<close>

lemma plan_mounts_path_set: "vm_MountPath ` set (plan_mounts p) = set (mountPaths p)"
  by (metis list.set_map plan_mounts_paths)

lemma findContainer_name: "findContainer cs name = Some c \<Longrightarrow> c_Name c = name"
  by (auto simp: findContainer_def dest: find_Some_in)

lemma findContainer_replace_first:
  assumes "findContainer cs name = Some c" "c_Name c' = name"
  shows "findContainer (replace_first name c' cs) n = (if n = name then Some c' else findContainer cs n)"
  using assms by (induction cs) (auto simp: findContainer_def)

lemma mounted_injectIntoContainers:
  "mounted (fst (injectIntoContainers cs p ts)) n =
     mounted cs n \<union> (if n \<in> set ts \<inter> c_Name ` set cs then set (mountPaths p) else {})"
proof (induction ts arbitrary: cs)
  case (Cons name ts)
  show ?case
  proof (cases "findContainer cs name")
    case None
    moreover from None have "name \<notin> c_Name ` set cs" by (simp add: findContainer_None)
    ultimately show ?thesis using Cons.IH [of cs] unfolding fst_injectIntoContainers_Cons by auto
  next
    case (Some c)
    let ?c = "fst (inject_container p c)"
    have name: "c_Name c = name" by (rule findContainer_name [OF Some])
    then have in_cs: "name \<in> c_Name ` set cs" using Some findContainer_None [of cs name] by force
    have names: "c_Name ` set (replace_first name ?c cs) = c_Name ` set cs"
      using extends_names [OF replace_first_extends [OF Some inject_container_extends [of c p]]]
      by (metis list.set_map)
    have "mounted (replace_first name ?c cs) n = mounted cs n \<union> (if n = name then set (mountPaths p) else {})"
      using Some name
      by (auto simp: mounted_def findContainer_replace_first inject_container_eq plan_mounts_path_set image_Un)
    with Cons.IH [of "replace_first name ?c cs"] in_cs show ?thesis
      unfolding fst_injectIntoContainers_Cons by (auto simp: Some names)
  qed
qed simp

lemma socket_of_grantable: "checkSocketVolume pod p = None \<longleftrightarrow> socket_of pod \<in> {NoSocket, DriverSocket (p_CSIDriver p)}"
  by (auto simp: checkSocketVolume_def socket_of_def split: option.splits)

lemma socket_of_injected:
  assumes "checkSocketVolume pod p = None"
  shows "socket_of (inject_pod pod p ts) = DriverSocket (p_CSIDriver p)"
  using socket_after_inject [OF assms, of ts] by (auto simp: socket_of_def)

lemma volumes_injected:
  "v_Name ` set (pod_Volumes (addVolumes pod p)) =
     insert socketVolumeName (v_Name ` set (pod_Volumes pod) \<union>
       {tok_VolumeName (p_Token p), configVolumeName (p_ShimName p)})"
  by (cases "socketVolumeName \<in> v_Name ` set (pod_Volumes pod)")
    (auto simp: pod_Volumes_addVolumes findVolume_None_iff)

lemma check_mounts_mounted:
  "check_mounts pod paths ts = None \<longleftrightarrow> (\<forall>t\<in>set ts. set paths \<inter> mounted (pod_Containers pod) t = {})"
  by (auto simp: check_mounts_None mounted_def split: option.split)

lemma state_stock_frame [simp]:
  "socket_of (pod\<lparr>pod_InitContainers := is\<rparr>) = socket_of pod"
  by (simp add: socket_of_def findVolume_def)

lemma demand_targets_state:
  "demand_targets (demand_of (a_pod st) p) (state_stock n st) = set (plan_targets (a_pod st) p)"
  by (auto simp: demand_targets_def demand_of_def state_stock_def stock_of_def plan_targets_eq)

lemma grantable_iff:
  "grantable (demand_of (a_pod st) p) (state_stock n st) \<longleftrightarrow>
     n + a_addedBytes st + renderedBytes p \<le> MaxPodAnnotationBytes \<and>
     (requested_containers (a_pod st) p = [] \<or> plan_targets (a_pod st) p \<noteq> []) \<and>
     checkCollisions (a_pod st) p (a_newInits st) (plan_targets (a_pod st) p) = None"
  unfolding grantable_def demand_targets_state checkCollisions_None socket_of_grantable check_mounts_mounted
    check_inits_None findVolume_None_iff
  by (auto simp: demand_of_def state_stock_def stock_of_def)

lemma apply_plan_outcome:
  "\<exists>ws. apply_plan n p st =
     (if grantable (demand_of (a_pod st) p) (state_stock n st)
      then \<lparr>a_pod = inject_pod (a_pod st) p (plan_targets (a_pod st) p),
            a_newInits = a_newInits st @ helpers p,
            a_addedBytes = a_addedBytes st + renderedBytes p,
            a_applied = a_applied st @ [p],
            a_warnings = ws\<rparr>
      else st\<lparr>a_warnings := ws\<rparr>)"
proof -
  obtain tws where r: "resolveTargets (a_pod st) p = (plan_targets (a_pod st) p, requested_containers (a_pod st) p, tws)"
    using resolveTargets_parts by blast
  show ?thesis
    unfolding grantable_iff
    by (auto simp: apply_plan_def Let_def r inject_pod_def frame_simps helpers_def split: option.split prod.split)
qed

lemma demand_of_fields [simp]:
  "dm_bytes (demand_of pod p) = renderedBytes p" "dm_key (demand_of pod p) = p_ShimKey p"
  "dm_driver (demand_of pod p) = p_CSIDriver p"
  "dm_volumes (demand_of pod p) = {tok_VolumeName (p_Token p), configVolumeName (p_ShimName p)}"
  "dm_inits (demand_of pod p) = {initContainerName (p_ShimName p), refreshContainerName (p_ShimName p)}"
  "dm_paths (demand_of pod p) = set (mountPaths p)"
  by (simp_all add: demand_of_def)

lemma apply_plan_allocates:
  "state_stock n (apply_plan n p st) = allocate (demand_of (a_pod st) p) (state_stock n st)"
proof (cases "grantable (demand_of (a_pod st) p) (state_stock n st)")
  case False
  with apply_plan_outcome [of n p st] show ?thesis by (auto simp: allocate_def state_stock_def)
next
  case True
  then have c: "checkSocketVolume (a_pod st) p = None" by (simp add: grantable_iff checkCollisions_None)
  have ts: "set (plan_targets (a_pod st) p) \<inter> c_Name ` set (pod_Containers (a_pod st)) = set (plan_targets (a_pod st) p)"
    by (auto simp: plan_targets_eq)
  have names: "c_Name ` set (fst (injectIntoContainers cs p ts)) = c_Name ` set cs" for cs ts
    by (metis list.set_map names_injectIntoContainers)
  from True obtain ws where "apply_plan n p st =
      \<lparr>a_pod = inject_pod (a_pod st) p (plan_targets (a_pod st) p), a_newInits = a_newInits st @ helpers p,
       a_addedBytes = a_addedBytes st + renderedBytes p, a_applied = a_applied st @ [p], a_warnings = ws\<rparr>"
    using apply_plan_outcome [of n p st] by auto
  with True show ?thesis
    by (simp add: allocate_def grant_def demand_targets_state)
      (auto simp: state_stock_def stock_of_def frame_simps volumes_injected socket_of_injected [OF c] names helpers_def
        mounted_injectIntoContainers ts fun_eq_iff)
qed

interpretation alloc: fold_refinement "apply_plan (annotationBytes pod)" "apply_start pod" allocate "demand_of pod"
  "state_stock (annotationBytes pod)" "apply_reach pod" for pod
proof unfold_locales
  fix xs s x
  assume r: "apply_reach pod xs s"
  then show "apply_reach pod (xs @ [x]) (apply_plan (annotationBytes pod) x s)"
    by (rule apply_reach.step [OF _ apply_plan_step])
  have "demand_of (a_pod s) x = demand_of pod x" by (simp add: demand_of_def reach_targets_same(2) [OF r])
  then show "state_stock (annotationBytes pod) (apply_plan (annotationBytes pod) x s) =
      allocate (demand_of pod x) (state_stock (annotationBytes pod) s)"
    by (simp add: apply_plan_allocates)
qed (rule apply_reach.start)

lemma state_stock_start: "state_stock (annotationBytes pod) (apply_start pod) = stock_of (annotationBytes pod) [] pod"
  by (simp add: state_stock_def apply_start_def)

lemma stock_of_finish:
  "stock_of n ks (apply_finish st) = stock_of n ks ((a_pod st)\<lparr>pod_InitContainers := a_newInits st @ pod_InitContainers (a_pod st)\<rparr>)"
  by (simp add: stock_of_def frame_simps socket_of_def findVolume_def)

lemma returned_stock:
  assumes "smap_get (pod_Annotations pod) StatusAnnotation \<noteq> StatusInjected"
    and "Apply_pod pod plans = (pod', applied, ws)"
  shows "stock_of (annotationBytes pod + sum_list (map renderedBytes applied)) (map p_ShimKey applied) pod' =
    state_stock (annotationBytes pod) (fold (apply_plan (annotationBytes pod)) plans (apply_start pod))"
proof -
  let ?n = "annotationBytes pod"
  let ?st = "fold (apply_plan ?n) plans (apply_start pod)"
  have r: "apply_reach pod plans ?st" by (rule alloc.reached_run)
  have e: "a_addedBytes ?st = sum_list (map renderedBytes (a_applied ?st))"
      "a_newInits ?st = concat (map helpers (a_applied ?st))"
    using reach_effect [OF r] by (simp_all add: effect_inv_def)
  have a: "applied = a_applied ?st" "pod' = (if applied = [] then a_pod ?st else apply_finish ?st)"
    using assms by (auto simp: Apply_pod_def Let_def split: if_splits)
  show ?thesis using a e by (auto simp: state_stock_def stock_of_finish)
qed

lemma allocation_of_pod:
  assumes "smap_get (pod_Annotations pod) StatusAnnotation \<noteq> StatusInjected"
    and "Apply_pod pod plans = (pod', applied, ws)"
  shows "stock_of (annotationBytes pod + sum_list (map renderedBytes applied)) (map p_ShimKey applied) pod' =
    fold allocate (map (demand_of pod) plans) (stock_of (annotationBytes pod) [] pod)"
  by (simp add: returned_stock [OF assms] alloc.refines state_stock_start)

text \<open>The warnings with which a plan is refused.\<close>

fun refuses :: "Plan \<Rightarrow> apply_warning \<Rightarrow> bool" where
  "refuses p (BudgetExceeded k _) = (k = p_ShimKey p)"
| "refuses p (NoRequestedContainer n _) = (n = p_ShimName p)"
| "refuses p (CollisionFound n _) = (n = p_ShimName p)"
| "refuses p _ = False"

lemma apply_plan_warns:
  "\<exists>ws. a_warnings (apply_plan n p st) = a_warnings st @ ws"
  "a_applied (apply_plan n p st) = a_applied st \<Longrightarrow>
   \<exists>ws w. apply_plan n p st = st\<lparr>a_warnings := a_warnings st @ ws @ [w]\<rparr> \<and> refuses p w"
proof -
  obtain tws where r: "resolveTargets (a_pod st) p = (plan_targets (a_pod st) p, requested_containers (a_pod st) p, tws)"
    using resolveTargets_parts by blast
  show "\<exists>ws. a_warnings (apply_plan n p st) = a_warnings st @ ws"
    by (auto simp: apply_plan_def Let_def r split: option.split prod.split)
  assume "a_applied (apply_plan n p st) = a_applied st"
  then have "apply_plan n p st = st\<lparr>a_warnings := a_warnings st @ [] @ [BudgetExceeded (p_ShimKey p) (n + a_addedBytes st + renderedBytes p)]\<rparr> \<or>
      apply_plan n p st = st\<lparr>a_warnings := a_warnings st @ tws @ [NoRequestedContainer (p_ShimName p) (requested_containers (a_pod st) p)]\<rparr> \<or>
      (\<exists>reason. apply_plan n p st = st\<lparr>a_warnings := a_warnings st @ tws @ [CollisionFound (p_ShimName p) reason]\<rparr>)"
    by (auto simp: apply_plan_def Let_def r split: option.splits prod.splits if_splits)
  then show "\<exists>ws w. apply_plan n p st = st\<lparr>a_warnings := a_warnings st @ ws @ [w]\<rparr> \<and> refuses p w"
    by (elim disjE exE) (metis refuses.simps(1), metis refuses.simps(2), metis refuses.simps(3))
qed

section \<open>Properties\<close>

text \<open>
  (C4) \<open>Apply\<close> implements the allocator. On a pod that was not injected before, the keys of the applied plans
  are those the allocator grants, and the pod returned holds exactly the resources that the
  allocator says are taken: the volume names, the socket, the init container names, the containers
  and the paths mounted in each.
\<close>

theorem Apply_refines_allocator:
  assumes "smap_get (pod_Annotations pod) StatusAnnotation \<noteq> StatusInjected"
    and "Apply_pod pod plans = (pod', applied, ws)"
  shows "stock_of (annotationBytes pod + sum_list (map renderedBytes applied)) (map p_ShimKey applied) pod' =
    fold allocate (map (demand_of pod) plans) (stock_of (annotationBytes pod) [] pod)"
  by (rule allocation_of_pod [OF assms])

lemma sample_not_injected: "smap_get (pod_Annotations sample_pod) StatusAnnotation \<noteq> StatusInjected"
  by (simp add: sample_pod_def smap_get_def smap_lookup_def StatusInjected_def)

theorem Apply_refines_allocator_witness:
  "sk_granted (fold allocate (map (demand_of sample_pod) [sample_plan])
     (stock_of (annotationBytes sample_pod) [] sample_pod)) = [''OIDCShim/ns/gcp''] \<and>
   sk_mounts (fold allocate (map (demand_of sample_pod) [sample_plan])
     (stock_of (annotationBytes sample_pod) [] sample_pod)) ''app'' = mounted (pod_Containers sample_out) ''app''"
  using Apply_refines_allocator [OF sample_not_injected sample_applied, symmetric]
  by (simp add: stock_of_def sample_plan_fields)

text \<open>
  (C19) When a plan is applied, in any list of plans. Behind any plans, a plan is applied exactly if the pod was not
  injected before and the pod that those plans lead to, with the bytes they added, still has what the plan demands:
  bytes of the budget, a requested container, a socket volume that is absent or served by the same
  driver, free names for its volumes and init containers, and free mount paths in its target containers. The
  plans before it are applied as without it. A plan that is not applied leaves the pod as it was, and
  leaves a warning that names its shim.
\<close>

theorem Apply_applies:
  "case Apply_pod pod plans of (pod1, applied1, ws1) \<Rightarrow>
   case Apply_pod pod (plans @ [p]) of (pod2, applied2, ws2) \<Rightarrow>
     if smap_get (pod_Annotations pod) StatusAnnotation = StatusInjected
     then pod2 = pod \<and> applied2 = [] \<and> ws2 = [PodAlreadyInjected]
     else if grantable (demand_of pod p)
       (stock_of (annotationBytes pod + sum_list (map renderedBytes applied1)) (map p_ShimKey applied1) pod1)
     then applied2 = applied1 @ [p] \<and> (\<exists>ws. ws2 = ws1 @ ws)
     else applied2 = applied1 \<and> pod2 = pod1 \<and> (\<exists>ws w. ws2 = ws1 @ ws @ [w] \<and> refuses p w)"
proof (cases "smap_get (pod_Annotations pod) StatusAnnotation = StatusInjected")
  case True
  then show ?thesis by (simp add: Apply_pod_def)
next
  case False
  let ?n = "annotationBytes pod"
  let ?st = "fold (apply_plan ?n) plans (apply_start pod)"
  obtain pod1 applied1 ws1 where A: "Apply_pod pod plans = (pod1, applied1, ws1)" by (metis prod.exhaust)
  obtain pod2 applied2 ws2 where B: "Apply_pod pod (plans @ [p]) = (pod2, applied2, ws2)" by (metis prod.exhaust)
  have a: "applied1 = a_applied ?st" "ws1 = a_warnings ?st" "pod1 = (if a_applied ?st = [] then a_pod ?st else apply_finish ?st)"
    using A False by (auto simp: Apply_pod_def Let_def split: if_splits)
  have b: "applied2 = a_applied (apply_plan ?n p ?st)" "ws2 = a_warnings (apply_plan ?n p ?st)"
    "pod2 = (if a_applied (apply_plan ?n p ?st) = [] then a_pod (apply_plan ?n p ?st) else apply_finish (apply_plan ?n p ?st))"
    using B False by (auto simp: Apply_pod_def Let_def split: if_splits)
  have r: "apply_reach pod plans ?st" by (rule alloc.reached_run)
  let ?g = "grantable (demand_of pod p)
      (stock_of (?n + sum_list (map renderedBytes applied1)) (map p_ShimKey applied1) pod1)"
  have d: "demand_of pod p = demand_of (a_pod ?st) p" by (simp add: demand_of_def reach_targets_same(2) [OF r])
  have g: "applied2 = (if ?g then applied1 @ [p] else applied1)"
    unfolding returned_stock [OF False A] unfolding d grantable_iff a(1) b(1) by (rule applied_iff)
  have skip: "pod2 = pod1 \<and> (\<exists>ws w. ws2 = ws1 @ ws @ [w] \<and> refuses p w)" if same: "applied2 = applied1"
  proof -
    obtain ws w where w: "apply_plan ?n p ?st = ?st\<lparr>a_warnings := a_warnings ?st @ ws @ [w]\<rparr>" "refuses p w"
      using apply_plan_warns(2) [of ?n p ?st] same by (auto simp: a(1) b(1))
    then show ?thesis unfolding a b w(1) by (simp add: apply_finish_def)
  qed
  obtain ws where ws: "ws2 = ws1 @ ws" using apply_plan_warns(1) [of ?n p ?st] unfolding a b by blast
  show ?thesis using False skip g ws by (cases ?g) (simp_all add: A B)
qed

lemma skipped_not_grantable:
  "p \<in> set plans \<Longrightarrow>
   \<not> grantable (demand_of pod p) (fold allocate (map (demand_of pod) plans) s)"
proof (induction plans rule: rev_induct)
  case (snoc q plans)
  let ?s = "fold allocate (map (demand_of pod) plans) s"
  show ?case
  proof (cases "p = q")
    case True
    then show ?thesis using granted_not_again [of "demand_of pod q" ?s] by simp
  next
    case False
    with snoc have "\<not> grantable (demand_of pod p) ?s" by simp
    then show ?thesis using grantable_antimono [OF allocate_grows] by auto
  qed
qed simp

lemma applied_extends: "prefix (a_applied (fold (apply_plan n) plans st)) (a_applied (fold (apply_plan n) (plans @ later) st))"
proof (induction later rule: rev_induct)
  case (snoc q later)
  then show ?case by (auto simp: applied_iff simp flip: append_assoc)
qed simp

text \<open>
  (C16) First come, first served, and no plan is left out without need. Plans further back in the list never
  change which of the plans before them are applied. And the selection is maximal: the pod returned
  has no room left for any plan that was skipped, so every skipped plan is refused by a resource of the
  pod that was taken already.
\<close>

theorem Apply_greedy_maximal:
  assumes "smap_get (pod_Annotations pod) StatusAnnotation \<noteq> StatusInjected"
    and "Apply_pod pod plans = (pod', applied, ws)"
  shows "prefix applied (fst (snd (Apply_pod pod (plans @ later)))) \<and>
    (\<forall>p\<in>set plans. \<not> grantable (demand_of pod p)
       (stock_of (annotationBytes pod + sum_list (map renderedBytes applied)) (map p_ShimKey applied) pod'))"
proof
  show "prefix applied (fst (snd (Apply_pod pod (plans @ later))))"
    using assms applied_extends [of "annotationBytes pod" plans "apply_start pod" later]
    by (auto simp: Apply_pod_def Let_def split: if_splits)
  show "\<forall>p\<in>set plans. \<not> grantable (demand_of pod p)
       (stock_of (annotationBytes pod + sum_list (map renderedBytes applied)) (map p_ShimKey applied) pod')"
    using skipped_not_grantable allocation_of_pod [OF assms] by metis
qed

theorem Apply_greedy_maximal_witness:
  "\<not> grantable (demand_of sample_pod sample_plan)
     (stock_of (annotationBytes sample_pod + renderedBytes sample_plan) [''OIDCShim/ns/gcp''] sample_out)"
  using Apply_greedy_maximal [OF sample_not_injected sample_applied, of "[]"] by (simp add: sample_plan_fields)

end
