(* ===== verification/PodTyping.thy ===== *)
theory PodTyping
  imports InjectionRefine
begin

text \<open>
  A type system for pods, as far as the injection can break it: labels and annotations are maps (no key
  twice), and every volume mount of a container or an init container names a volume that the
  pod declares. \<open>Apply\<close> (\<open>internal/injection/mutate.go\<close>) takes typed pods to typed pods.
\<close>

definition mounts_declared :: "string set \<Rightarrow> Container \<Rightarrow> bool" where
  "mounts_declared names c = list_all (\<lambda>m. vm_Name m \<in> names) (c_VolumeMounts c)"

definition pod_typed :: "Pod \<Rightarrow> bool" where
  "pod_typed pod \<longleftrightarrow>
     smap_wf (pod_Annotations pod) \<and> smap_wf (pod_Labels pod) \<and>
     list_all (mounts_declared (v_Name ` set (pod_Volumes pod))) (pod_InitContainers pod @ pod_Containers pod)"

lemma mounts_declared_mono: "mounts_declared names c \<Longrightarrow> names \<subseteq> names' \<Longrightarrow> mounts_declared names' c"
  by (auto simp: mounts_declared_def list_all_iff)

lemma smap_wf_store_all: "smap_wf m \<Longrightarrow> smap_wf (store_all kvs m)"
  unfolding store_all_def by (rule sm.wf_store_all)

text \<open>What a plan mounts, it also adds.\<close>

definition plan_volume_names :: "Plan \<Rightarrow> string set" where
  "plan_volume_names p = {socketVolumeName, tok_VolumeName (p_Token p), configVolumeName (p_ShimName p)}"

lemma plan_mounts_declared: "m \<in> set (plan_mounts p) \<Longrightarrow> vm_Name m \<in> plan_volume_names p"
proof -
  have "vm_Name ` set (file_mounts shim i fs) \<subseteq> {configVolumeName shim}" for shim i fs
    by (induction fs arbitrary: i) auto
  then show "m \<in> set (plan_mounts p) \<Longrightarrow> vm_Name m \<in> plan_volume_names p"
    by (fastforce simp: plan_mounts_def plain_mount_def plan_volume_names_def)
qed

lemma helpers_declared: "c \<in> set (helpers p) \<Longrightarrow> mounts_declared (plan_volume_names p) c"
  by (auto simp: helpers_def helperContainer_def mounts_declared_def plain_mount_def plan_volume_names_def)

lemma injected_declared:
  assumes "list_all (mounts_declared names) cs" "plan_volume_names p \<subseteq> names"
  shows "list_all (mounts_declared names) (fst (injectIntoContainers cs p ts))"
  using assms
proof (induction ts arbitrary: cs)
  case (Cons name ts)
  show ?case
  proof (cases "findContainer cs name")
    case None
    with Cons show ?thesis by (simp add: fst_injectIntoContainers_Cons)
  next
    case (Some c)
    then have "mounts_declared names c" using Cons.prems(1) by (auto simp: findContainer_def list_all_iff dest: find_Some_in)
    then have c: "mounts_declared names (fst (inject_container p c))"
      using plan_mounts_declared [of _ p] Cons.prems(2)
      by (auto simp: mounts_declared_def inject_container_eq list_all_iff)
    have "list_all (mounts_declared names) (replace_first name c' xs)"
      if "list_all (mounts_declared names) xs" "mounts_declared names c'" for c' xs
      using that by (induction xs) auto
    with Cons c Some show ?thesis unfolding fst_injectIntoContainers_Cons by simp
  qed
qed simp

definition typed_inv :: "Pod \<Rightarrow> apply_state \<Rightarrow> bool" where
  "typed_inv pod st \<longleftrightarrow>
     (pod_typed pod \<longrightarrow>
      pod_typed ((a_pod st)\<lparr>pod_InitContainers := a_newInits st @ pod_InitContainers (a_pod st)\<rparr>))"

interpretation wty: apply_invariant typed_inv "\<lambda>_ _. True"
proof unfold_locales
  fix pod :: Pod and plans st p targets requested tws ws
  assume inv: "typed_inv pod st"
  let ?names = "v_Name ` set (pod_Volumes (a_pod st))"
  let ?names' = "v_Name ` set (pod_Volumes (addVolumes (a_pod st) p))"
  have sub: "?names \<subseteq> ?names'" "plan_volume_names p \<subseteq> ?names'"
    by (auto simp: volumes_injected plan_volume_names_def)
  let ?st = "\<lparr>a_pod = inject_pod (a_pod st) p targets,
       a_newInits = a_newInits st @ [helperContainer p False, helperContainer p True],
       a_addedBytes = a_addedBytes st + renderedBytes p, a_applied = a_applied st @ [p], a_warnings = ws\<rparr>"
  show "typed_inv pod ?st"
    unfolding typed_inv_def
  proof
    assume "pod_typed pod"
    with inv have t: "smap_wf (pod_Annotations (a_pod st))" "smap_wf (pod_Labels (a_pod st))"
      "list_all (mounts_declared ?names) (a_newInits st @ pod_InitContainers (a_pod st))"
      "list_all (mounts_declared ?names) (pod_Containers (a_pod st))"
      by (simp_all add: typed_inv_def pod_typed_def)
    have grow: "list_all (mounts_declared ?names') cs" if "list_all (mounts_declared ?names) cs" for cs
      using that sub(1) mounts_declared_mono unfolding list_all_iff by blast
    have "list_all (mounts_declared ?names') (helpers p)"
      using helpers_declared sub(2) mounts_declared_mono unfolding list_all_iff by blast
    with grow [OF t(3)] injected_declared [OF grow [OF t(4)] sub(2), of targets] t(1,2)
    show "pod_typed ((a_pod ?st)\<lparr>pod_InitContainers := a_newInits ?st @ pod_InitContainers (a_pod ?st)\<rparr>)"
      by (simp add: pod_typed_def frame_simps helpers_def smap_wf_store_all sm.wf_store)
  qed
qed (auto simp: typed_inv_def apply_start_def)

text \<open>
  (C17) Pods stay typed. If the labels and annotations of a pod are maps and every mount of its containers names
  a declared volume, the same holds of the pod \<open>Apply\<close> returns, for all plans, the mounts of the injected
  containers and of the containers injected into included.
\<close>

theorem Apply_pod_typed:
  assumes "pod_typed pod" "Apply_pod pod plans = (pod', applied, ws)"
  shows "pod_typed pod'"
proof (cases "applied = []")
  case True
  with assms(2) have "pod' = pod"
    using apply_reach_unchanged [OF apply_reach_fold] by (auto simp: Apply_pod_def Let_def split: if_splits)
  with assms(1) show ?thesis by simp
next
  case False
  with assms(2) obtain st where st: "apply_reach pod plans st" "pod' = apply_finish st"
    using Apply_pod_injected by metis
  from wty.holds [OF st(1)] assms(1) show ?thesis
    by (simp add: typed_inv_def pod_typed_def st(2) frame_simps sm.wf_store list.pred_True)
qed

theorem Apply_pod_typed_witness: "pod_typed sample_pod \<and> pod_typed sample_out"
proof -
  have "pod_typed sample_pod"
    by (simp add: pod_typed_def sample_pod_def smap_wf_def mounts_declared_def sample_container_def)
  with Apply_pod_typed [OF this sample_applied] show ?thesis by simp
qed

end
