(* ===== verification/GoHeap.thy ===== *)
theory GoHeap
  imports Prelude "HOL-Library.Sublist"
begin

text \<open>
  Memory for the code whose meaning depends on what is shared: an explicit store of cells, addressed by
  position, in which allocation appends a cell. A pointer is an address or nil; a slice is a window of
  an array in the store, or nil. The locale \<open>deep_copier\<close> is the contract of a deep copy of one type of
  values in memory: the copy reads as the original, only fresh memory was written, and the copy
  reaches nothing but fresh memory. The contract is closed under the ways Go types are put
  together: pointers, slices and structs.
\<close>

section \<open>Cells, pointers and slices\<close>

type_synonym addr = nat
type_synonym ptr = "addr option"

record GoSlice =
  sl_Array :: addr
  sl_Offset :: nat
  sl_Len :: nat

type_synonym slice = "GoSlice option"

text \<open>A load from an address that holds no cell of the expected type gives none; Go never does it.\<close>

definition load :: "('c \<Rightarrow> 'a option) \<Rightarrow> 'c list \<Rightarrow> addr \<Rightarrow> 'a option" where
  "load prj h a = (if a < length h then prj (h ! a) else None)"

definition window :: "GoSlice \<Rightarrow> 'a list \<Rightarrow> 'a list option" where
  "window s xs =
     (if sl_Offset s + sl_Len s \<le> length xs then Some (take (sl_Len s) (drop (sl_Offset s) xs)) else None)"

definition elements :: "('c \<Rightarrow> 'a list option) \<Rightarrow> 'c list \<Rightarrow> GoSlice \<Rightarrow> 'a list option" where
  "elements prj h s = Option.bind (load prj h (sl_Array s)) (window s)"

section \<open>Values and what they reach\<close>

definition flat_value :: "'c list \<Rightarrow> 'a \<Rightarrow> 'a option" where "flat_value h x = Some x"
definition flat_foot :: "'c list \<Rightarrow> 'a \<Rightarrow> addr set" where "flat_foot h x = {}"
definition flat_copy :: "'c list \<Rightarrow> 'a \<Rightarrow> 'c list \<times> 'a" where "flat_copy h x = (h, x)"

definition ptr_value ::
  "('c \<Rightarrow> 'a option) \<Rightarrow> ('c list \<Rightarrow> 'a \<Rightarrow> 'v option) \<Rightarrow> 'c list \<Rightarrow> ptr \<Rightarrow> 'v option option" where
  "ptr_value prj val h p =
     (case p of None \<Rightarrow> Some None
      | Some a \<Rightarrow> map_option Some (Option.bind (load prj h a) (val h)))"

definition ptr_foot ::
  "('c \<Rightarrow> 'a option) \<Rightarrow> ('c list \<Rightarrow> 'a \<Rightarrow> addr set) \<Rightarrow> 'c list \<Rightarrow> ptr \<Rightarrow> addr set" where
  "ptr_foot prj foot h p =
     (case p of None \<Rightarrow> {}
      | Some a \<Rightarrow> insert a (case load prj h a of None \<Rightarrow> {} | Some x \<Rightarrow> foot h x))"

definition slice_value ::
  "('c \<Rightarrow> 'a list option) \<Rightarrow> ('c list \<Rightarrow> 'a \<Rightarrow> 'v option) \<Rightarrow> 'c list \<Rightarrow> slice \<Rightarrow> 'v list option" where
  "slice_value prj val h s =
     (case s of None \<Rightarrow> Some []
      | Some sl \<Rightarrow> Option.bind (elements prj h sl) (\<lambda>xs. those (map (val h) xs)))"

definition slice_foot ::
  "('c \<Rightarrow> 'a list option) \<Rightarrow> ('c list \<Rightarrow> 'a \<Rightarrow> addr set) \<Rightarrow> 'c list \<Rightarrow> slice \<Rightarrow> addr set" where
  "slice_foot prj foot h s =
     (case s of None \<Rightarrow> {}
      | Some sl \<Rightarrow> insert (sl_Array sl)
          (case elements prj h sl of None \<Rightarrow> {} | Some xs \<Rightarrow> \<Union> (set (map (foot h) xs))))"

section \<open>Copying\<close>

text \<open>
  \<open>new(T)\<close> followed by a copy into it: the cell is allocated, holds a shallow copy while the fields are
  copied, and then the result. A nil pointer is copied as nil.
\<close>

definition alloc_copy :: "('a \<Rightarrow> 'c) \<Rightarrow> ('c list \<Rightarrow> 'a \<Rightarrow> 'c list \<times> 'a) \<Rightarrow> 'c list \<Rightarrow> 'a \<Rightarrow> 'c list \<times> addr" where
  "alloc_copy mk cp h x =
     (let a = length h in
      case cp (h @ [mk x]) x of (h1, x') \<Rightarrow> (h1[a := mk x'], a))"

definition new_copy ::
  "('c \<Rightarrow> 'a option) \<Rightarrow> ('a \<Rightarrow> 'c) \<Rightarrow> ('c list \<Rightarrow> 'a \<Rightarrow> 'c list \<times> 'a) \<Rightarrow> 'c list \<Rightarrow> ptr \<Rightarrow> 'c list \<times> ptr" where
  "new_copy prj mk cp h p =
     (case Option.bind p (load prj h) of
        None \<Rightarrow> (h, None)
      | Some x \<Rightarrow> (case alloc_copy mk cp h x of (h', a) \<Rightarrow> (h', Some a)))"

text \<open>
  \<open>make\<close> of a slice of the same length, followed by the loop that copies the elements into it, one
  after the other.
\<close>

fun copy_loop ::
  "('c \<Rightarrow> 'a list option) \<Rightarrow> ('a list \<Rightarrow> 'c) \<Rightarrow> ('c list \<Rightarrow> 'a \<Rightarrow> 'c list \<times> 'a) \<Rightarrow> addr \<Rightarrow> nat \<Rightarrow> 'a list \<Rightarrow> 'c list \<Rightarrow> 'c list" where
  "copy_loop prj mk cp a i [] h = h"
| "copy_loop prj mk cp a i (x # xs) h =
     (case cp h x of (h1, x') \<Rightarrow>
        (case load prj h1 a of
           None \<Rightarrow> h1
         | Some ys \<Rightarrow> copy_loop prj mk cp a (Suc i) xs (h1[a := mk (ys[i := x'])])))"

definition make_copy ::
  "('c \<Rightarrow> 'a list option) \<Rightarrow> ('a list \<Rightarrow> 'c) \<Rightarrow> 'a \<Rightarrow> ('c list \<Rightarrow> 'a \<Rightarrow> 'c list \<times> 'a) \<Rightarrow> 'c list \<Rightarrow> slice \<Rightarrow> 'c list \<times> slice" where
  "make_copy prj mk zero cp h s =
     (case Option.bind s (elements prj h) of
        None \<Rightarrow> (h, None)
      | Some xs \<Rightarrow>
          (let a = length h in
           (copy_loop prj mk cp a 0 xs (h @ [mk (replicate (length xs) zero)]),
            Some \<lparr>sl_Array = a, sl_Offset = 0, sl_Len = length xs\<rparr>)))"

section \<open>The contract of a deep copy\<close>

definition agree :: "'c list \<Rightarrow> 'c list \<Rightarrow> addr set \<Rightarrow> bool" where
  "agree h h' A \<longleftrightarrow> (\<forall>a\<in>A. a < length h' \<and> h' ! a = h ! a)"

lemma agree_prefix: "prefix h h' \<Longrightarrow> A \<subseteq> {..<length h} \<Longrightarrow> agree h h' A"
  by (auto simp: agree_def prefix_def nth_append)

lemma agree_update: "A \<subseteq> {..<length h} \<Longrightarrow> a \<notin> A \<Longrightarrow> agree h (h[a := c]) A"
  by (auto simp: agree_def) (metis nth_list_update_neq)

lemma agree_subset: "agree h h' B \<Longrightarrow> A \<subseteq> B \<Longrightarrow> agree h h' A"
  by (auto simp: agree_def)

lemma load_agree: "load prj h a = Some x \<Longrightarrow> agree h h' A \<Longrightarrow> a \<in> A \<Longrightarrow> load prj h' a = Some x"
  by (auto simp: load_def agree_def split: if_splits)

locale deep_copier =
  fixes val :: "'c list \<Rightarrow> 'a \<Rightarrow> 'v option"
    and foot :: "'c list \<Rightarrow> 'a \<Rightarrow> addr set"
    and cp :: "'c list \<Rightarrow> 'a \<Rightarrow> 'c list \<times> 'a"
  assumes allocated: "val h x = Some v \<Longrightarrow> foot h x \<subseteq> {..<length h}"
    and local: "val h x = Some v \<Longrightarrow> agree h h' (foot h x) \<Longrightarrow> val h' x = Some v \<and> foot h' x = foot h x"
    and copied: "val h x = Some v \<Longrightarrow> cp h x = (h', x') \<Longrightarrow>
      prefix h h' \<and> val h' x' = Some v \<and> foot h' x' \<subseteq> {length h..<length h'}"
begin

lemma allocated_less: "a \<in> foot h x \<Longrightarrow> val h x = Some v \<Longrightarrow> a < length h"
  using allocated by blast

lemma stable: "val h x = Some v \<Longrightarrow> prefix h h' \<Longrightarrow> val h' x = Some v \<and> foot h' x = foot h x"
  using local [OF _ agree_prefix] allocated by blast

lemma stable_update:
  "val h x = Some v \<Longrightarrow> a \<notin> foot h x \<Longrightarrow> val (h[a := c]) x = Some v \<and> foot (h[a := c]) x = foot h x"
  using local [OF _ agree_update] allocated by blast

text \<open>The copy and the original are independent: what is written where one reaches, the other does not see.\<close>

lemma independent:
  assumes "val h x = Some v" "cp h x = (h', x')"
  shows "foot h' x \<inter> foot h' x' = {}"
    and "agree h' h'' (- foot h' x \<inter> {..<length h'}) \<Longrightarrow> val h'' x' = Some v"
    and "agree h' h'' (- foot h' x' \<inter> {..<length h'}) \<Longrightarrow> val h'' x = Some v"
proof -
  note c = copied [OF assms] and s = stable [OF assms(1), of h'] and al = allocated [OF assms(1)]
  from c s al show d: "foot h' x \<inter> foot h' x' = {}" by fastforce
  have x: "foot h' x \<subseteq> {..<length h'}" and x': "foot h' x' \<subseteq> {..<length h'}"
    using c s allocated [of h' x v] allocated [of h' x' v] by auto
  show "val h'' x' = Some v" if "agree h' h'' (- foot h' x \<inter> {..<length h'})"
    using local [of h' x' v h''] agree_subset [OF that, of "foot h' x'"] c d x' by auto
  show "val h'' x = Some v" if "agree h' h'' (- foot h' x' \<inter> {..<length h'})"
    using local [of h' x v h''] agree_subset [OF that, of "foot h' x"] s c d x by auto
qed

end

section \<open>Closure of the contract\<close>

lemma flat_copier: "deep_copier flat_value flat_foot flat_copy"
  by unfold_locales (auto simp: flat_value_def flat_foot_def flat_copy_def)

lemma prefix_update: "prefix h h' \<Longrightarrow> length h \<le> a \<Longrightarrow> prefix h (h'[a := c])"
  by (auto simp: prefix_def list_update_append)

lemma load_update [simp]: "a < length h \<Longrightarrow> load prj (h[a := c]) a = prj c"
  by (simp add: load_def)

lemma load_Some: "load prj h a = Some x \<longleftrightarrow> a < length h \<and> prj (h ! a) = Some x"
  by (auto simp: load_def)

lemma ptr_value_Some:
  "ptr_value prj val h p = Some w \<longleftrightarrow>
     (p = None \<and> w = None \<or> (\<exists>a x v. p = Some a \<and> load prj h a = Some x \<and> val h x = Some v \<and> w = Some v))"
  by (auto simp: ptr_value_def bind_eq_Some_conv split: option.split)

lemma those_Some: "those ys = Some vs \<longleftrightarrow> ys = map Some vs"
  by (induction ys arbitrary: vs) (auto split: option.splits)

lemma those_map_Some: "those (map f xs) = Some vs \<longleftrightarrow> list_all2 (\<lambda>x v. f x = Some v) xs vs"
  by (auto simp: those_Some list_all2_conv_all_nth list_eq_iff_nth_eq)

context deep_copier
begin

lemma alloc_copied:
  assumes mk: "\<And>x. prj (mk x) = Some x" and v: "val h x = Some v" and c: "alloc_copy mk cp h x = (h', a')"
  shows "prefix h h' \<and> ptr_value prj val h' (Some a') = Some (Some v) \<and>
    ptr_foot prj foot h' (Some a') \<subseteq> {length h..<length h'}"
proof -
  let ?h = "h @ [mk x]" and ?a = "length h"
  obtain h1 x' where x': "cp ?h x = (h1, x')" by force
  note k = copied [OF stable [OF v, of ?h, THEN conjunct1] x']
  have r: "h' = h1[?a := mk x']" "a' = ?a" using c x' by (auto simp: alloc_copy_def Let_def)
  have len: "?a < length h1" using k by (auto dest: prefix_length_le)
  have "?a \<notin> foot h1 x'" using k by auto
  then have v: "val h' x' = Some v" "foot h' x' = foot h1 x'" using stable_update k r(1) by auto
  have l: "load prj h' ?a = Some x'" using len mk by (simp add: r(1))
  have "prefix h h'" unfolding r(1) using k prefix_order.trans [of h ?h h1] by (intro prefix_update) auto
  moreover have "ptr_value prj val h' (Some a') = Some (Some v)" using v l by (simp add: r(2) ptr_value_def)
  moreover have "ptr_foot prj foot h' (Some a') \<subseteq> {length h..<length h'}"
    using v l k len by (auto simp: r ptr_foot_def)
  ultimately show ?thesis by blast
qed

lemma ptr_copier:
  assumes mk: "\<And>x. prj (mk x) = Some x"
  shows "deep_copier (ptr_value prj val) (ptr_foot prj foot) (new_copy prj mk cp)"
proof
  fix h h' :: "'c list" and p w
  assume p: "ptr_value prj val h p = Some w"
  then consider (nil) "p = None" "w = None"
    | (cell) a x v where "p = Some a" "load prj h a = Some x" "val h x = Some v" "w = Some v"
    unfolding ptr_value_Some by blast
  note cases = this
  show "ptr_foot prj foot h p \<subseteq> {..<length h}"
    using cases
  proof cases
    case cell
    then show ?thesis using allocated [OF cell(3)] load_Some [of prj h a x] by (simp add: ptr_foot_def)
  qed (simp add: ptr_foot_def)
  show "ptr_value prj val h' p = Some w \<and> ptr_foot prj foot h' p = ptr_foot prj foot h p"
    if ag: "agree h h' (ptr_foot prj foot h p)"
    using cases
  proof cases
    case cell
    then have "load prj h' a = Some x" "agree h h' (foot h x)"
      using ag load_agree [of prj h a x h'] by (auto simp: ptr_foot_def agree_def)
    then show ?thesis using local [of h x v h'] cell by (simp add: ptr_value_def ptr_foot_def)
  qed (simp add: ptr_value_def ptr_foot_def)
  show "prefix h h' \<and> ptr_value prj val h' p' = Some w \<and> ptr_foot prj foot h' p' \<subseteq> {length h..<length h'}"
    if c: "new_copy prj mk cp h p = (h', p')" for p'
    using cases
  proof cases
    case cell
    obtain a' where "alloc_copy mk cp h x = (h', a')" "p' = Some a'"
      using c cell(1,2) by (auto simp: new_copy_def split: prod.splits)
    then show ?thesis using alloc_copied [OF mk cell(3)] cell(4) by simp
  qed (use c in \<open>auto simp: new_copy_def ptr_value_def ptr_foot_def\<close>)
qed

text \<open>
  The invariant of the loop over the elements: those copied so far read as their originals and reach
  only memory behind the array; those still to be copied reach only memory before it.
\<close>

definition copied_to :: "'c list \<Rightarrow> addr \<Rightarrow> 'a list \<Rightarrow> 'v list \<Rightarrow> bool" where
  "copied_to h a ys vs \<longleftrightarrow> list_all2 (\<lambda>y v. val h y = Some v \<and> foot h y \<subseteq> {a<..<length h}) ys vs"

lemma copied_to_step:
  assumes "copied_to h a ys vs" "a < length h" "val h x = Some v" "cp h x = (h1, x')"
  shows "copied_to (h1[a := c]) a (ys @ [x']) (vs @ [v])"
proof -
  note k = copied [OF assms(3,4)]
  have keep: "val (h1[a := c]) y = Some w \<and> foot (h1[a := c]) y = foot h y"
    if "val h y = Some w" "foot h y \<subseteq> {a<..<length h}" for y w
  proof -
    have "val h1 y = Some w \<and> foot h1 y = foot h y" using stable [OF that(1)] k by blast
    moreover have "a \<notin> foot h y" using that(2) by auto
    ultimately show ?thesis using stable_update [of h1 y w a c] by simp
  qed
  have len: "length h \<le> length h1" using k by (auto dest: prefix_length_le)
  then have "copied_to (h1[a := c]) a ys vs"
    using assms(1) unfolding copied_to_def by (rule_tac list_all2_mono) (use keep in fastforce)+
  moreover have "val (h1[a := c]) x' = Some v \<and> foot (h1[a := c]) x' \<subseteq> {a<..<length h1}"
  proof -
    have "a \<notin> foot h1 x'" using k assms(2) by auto
    then show ?thesis using stable_update [of h1 x' v a c] k assms(2) by auto
  qed
  ultimately show ?thesis by (simp add: copied_to_def list_all2_appendI)
qed

lemma copy_loop_copies:
  assumes mk: "\<And>xs. prj (mk xs) = Some xs"
    and "load prj h a = Some ys" "length ys = i + length xs"
    and "copied_to h a (take i ys) ws"
    and "list_all2 (\<lambda>x v. val h x = Some v \<and> foot h x \<subseteq> {..<a}) xs vs"
  shows "\<exists>zs. prefix (take a h) (copy_loop prj mk cp a i xs h) \<and>
    load prj (copy_loop prj mk cp a i xs h) a = Some zs \<and> length zs = length ys \<and>
    copied_to (copy_loop prj mk cp a i xs h) a zs (ws @ vs)"
  using assms(2-)
proof (induction xs arbitrary: h i ys ws vs)
  case Nil
  then show ?case by (auto simp: take_is_prefix)
next
  case (Cons x xs)
  from Cons.prems(4) obtain v us where v: "vs = v # us" "val h x = Some v"
      "list_all2 (\<lambda>x v. val h x = Some v \<and> foot h x \<subseteq> {..<a}) xs us"
    by (auto simp: list_all2_Cons1)
  obtain h1 x' where x': "cp h x = (h1, x')" by force
  let ?h = "h1[a := mk (ys[i := x'])]"
  note k = copied [OF v(2) x']
  have a: "a < length h" "a < length h1" using Cons.prems(1) k by (auto simp: load_Some dest: prefix_length_le)
  have l: "load prj h1 a = Some ys" using Cons.prems(1) k a by (auto simp: load_Some prefix_def nth_append)
  have i: "i < length ys" using Cons.prems(2) by simp
  have "load prj ?h a = Some (ys[i := x'])" using a mk by simp
  moreover have "copied_to ?h a (take (Suc i) (ys[i := x'])) (ws @ [v])"
    using copied_to_step [OF Cons.prems(3) a(1) v(2) x'] i by (simp add: take_Suc_conv_app_nth)
  moreover have "list_all2 (\<lambda>x v. val ?h x = Some v \<and> foot ?h x \<subseteq> {..<a}) xs us"
    using v(3)
  proof (rule list_all2_mono)
    fix y w
    assume y: "val h y = Some w \<and> foot h y \<subseteq> {..<a}"
    with stable [of h y w h1] stable_update [of h1 y w a] k
    show "val ?h y = Some w \<and> foot ?h y \<subseteq> {..<a}" by auto
  qed
  ultimately obtain zs where zs: "prefix (take a ?h) (copy_loop prj mk cp a (Suc i) xs ?h)"
      "load prj (copy_loop prj mk cp a (Suc i) xs ?h) a = Some zs" "length zs = length ys"
      "copied_to (copy_loop prj mk cp a (Suc i) xs ?h) a zs ((ws @ [v]) @ us)"
    using Cons.IH [of ?h "ys[i := x']" "Suc i" "ws @ [v]" us] Cons.prems(2) by auto
  have "take a ?h = take a h" using k a by (auto simp: prefix_def)
  with zs show ?case by (simp add: x' l v(1))
qed

lemma slice_value_Some:
  "slice_value prj val h s = Some vs \<longleftrightarrow>
     (s = None \<and> vs = [] \<or>
      (\<exists>sl xs. s = Some sl \<and> elements prj h sl = Some xs \<and> list_all2 (\<lambda>x v. val h x = Some v) xs vs))"
  by (auto simp: slice_value_def bind_eq_Some_conv those_map_Some split: option.split)

text \<open>
  A nil slice and an empty one read as the same list; the copy of a slice is nil exactly when the slice is.
\<close>

lemma make_copy_nil:
  assumes "slice_value prj val h s = Some vs" "make_copy prj mk zero cp h s = (h', s')"
  shows "s' = None \<longleftrightarrow> s = None"
  using assms unfolding slice_value_Some by (auto simp: make_copy_def Let_def)

lemma slice_cells:
  assumes "slice_value prj val h s = Some vs"
  obtains (nil) "s = None" "vs = []"
    | (cells) sl xs where "s = Some sl" "elements prj h sl = Some xs" "list_all2 (\<lambda>x v. val h x = Some v) xs vs"
      "slice_foot prj foot h s = insert (sl_Array sl) (\<Union> (foot h ` set xs))" "sl_Array sl < length h"
      "\<And>x. x \<in> set xs \<Longrightarrow> \<exists>v. val h x = Some v"
  using assms unfolding slice_value_Some
proof (elim disjE exE conjE)
  fix sl xs
  assume x: "s = Some sl" "elements prj h sl = Some xs" "list_all2 (\<lambda>x v. val h x = Some v) xs vs"
  have "slice_foot prj foot h s = insert (sl_Array sl) (\<Union> (foot h ` set xs))" using x by (simp add: slice_foot_def)
  moreover have "sl_Array sl < length h" using x(2) by (auto simp: elements_def bind_eq_Some_conv load_Some)
  moreover have "\<exists>v. val h x = Some v" if "x \<in> set xs" for x
    using x(3) that by (auto simp: list_all2_conv_all_nth in_set_conv_nth)
  ultimately show thesis by (rule cells [OF x])
qed (rule nil)

lemma slice_copied:
  assumes mk: "\<And>xs. prj (mk xs) = Some xs"
    and x: "elements prj h sl = Some xs" "list_all2 (\<lambda>x v. val h x = Some v) xs vs"
    and c: "make_copy prj mk zero cp h (Some sl) = (h', s')"
  shows "prefix h h' \<and> slice_value prj val h' s' = Some vs \<and> slice_foot prj foot h' s' \<subseteq> {length h..<length h'}"
proof -
  let ?a = "length h" and ?h = "h @ [mk (replicate (length xs) zero)]"
  have h': "h' = copy_loop prj mk cp ?a 0 xs ?h" and s': "s' = Some \<lparr>sl_Array = ?a, sl_Offset = 0, sl_Len = length xs\<rparr>"
    using c x(1) by (auto simp: make_copy_def Let_def)
  have "list_all2 (\<lambda>x v. val ?h x = Some v \<and> foot ?h x \<subseteq> {..<?a}) xs vs"
    using x(2)
  proof (rule list_all2_mono)
    fix y w
    assume "val h y = Some w"
    then show "val ?h y = Some w \<and> foot ?h y \<subseteq> {..<?a}" using stable [of h y w ?h] allocated by auto
  qed
  then obtain zs where p: "prefix h h'" and l: "load prj h' ?a = Some zs" "length zs = length xs" and z: "copied_to h' ?a zs vs"
    using copy_loop_copies [where mk = mk and h = ?h and i = 0 and ws = "[]" and a = ?a and xs = xs and vs = vs, OF mk, of "replicate (length xs) zero"] mk
    unfolding h' by (auto simp: load_def copied_to_def)
  have e: "elements prj h' \<lparr>sl_Array = ?a, sl_Offset = 0, sl_Len = length xs\<rparr> = Some zs"
    using l by (simp add: elements_def window_def)
  have "list_all2 (\<lambda>x v. val h' x = Some v) zs vs"
    using z unfolding copied_to_def by (rule list_all2_mono) simp
  moreover have "foot h' y \<subseteq> {?a<..<length h'}" if "y \<in> set zs" for y
    using z that by (auto simp: copied_to_def list_all2_conv_all_nth in_set_conv_nth)
  ultimately show ?thesis
    using p e l(1) unfolding s' slice_value_Some by (auto simp: slice_foot_def load_Some subset_iff less_imp_le)
qed

lemma slice_copier:
  assumes mk: "\<And>xs. prj (mk xs) = Some xs"
  shows "deep_copier (slice_value prj val) (slice_foot prj foot) (make_copy prj mk zero cp)"
proof
  fix h h' :: "'c list" and s vs
  assume s: "slice_value prj val h s = Some vs"
  show "slice_foot prj foot h s \<subseteq> {..<length h}"
    using s by (cases rule: slice_cells) (auto simp: slice_foot_def dest: allocated_less)
  show "slice_value prj val h' s = Some vs \<and> slice_foot prj foot h' s = slice_foot prj foot h s"
    if ag: "agree h h' (slice_foot prj foot h s)"
    using s
  proof (cases rule: slice_cells)
    case (cells sl xs)
    have e: "elements prj h' sl = Some xs"
      using cells(2) ag load_agree [of prj h "sl_Array sl" _ h' "slice_foot prj foot h s"]
      by (auto simp: cells(4) elements_def bind_eq_Some_conv)
    have each: "val h' x = Some v \<and> foot h' x = foot h x" if "x \<in> set xs" "val h x = Some v" for x v
      using local [OF that(2), of h'] agree_subset [OF ag, of "foot h x"] that(1) by (auto simp: cells(4))
    have "list_all2 (\<lambda>x v. val h' x = Some v) xs vs"
      using cells(3) each by (auto simp: list_all2_conv_all_nth)
    moreover have "\<forall>x\<in>set xs. foot h' x = foot h x" using each cells(6) by blast
    ultimately show ?thesis using e cells(1,4) by (auto simp: slice_value_Some slice_foot_def)
  qed (simp add: slice_value_def slice_foot_def)
  show "prefix h h' \<and> slice_value prj val h' s' = Some vs \<and> slice_foot prj foot h' s' \<subseteq> {length h..<length h'}"
    if c: "make_copy prj mk zero cp h s = (h', s')" for s'
    using s
  proof (cases rule: slice_cells)
    case (cells sl xs)
    then show ?thesis using slice_copied [OF mk cells(2,3)] c by simp
  qed (use c in \<open>auto simp: make_copy_def slice_value_def slice_foot_def\<close>)
qed

text \<open>A struct whose references are the part \<open>get\<close> of it, and whose other fields are copied as they are.\<close>

lemma struct_copier:
  assumes "\<And>h s. V h s = map_option (build s) (val h (get s))" "\<And>h s. F h s = foot h (get s)"
    and "\<And>h s. C h s = (case cp h (get s) of (h', x') \<Rightarrow> (h', put x' s))"
    and "\<And>x s. get (put x s) = x" "\<And>x s. build (put x s) = build s"
  shows "deep_copier V F C"
proof
  fix h h' :: "'c list" and s w
  assume "V h s = Some w"
  then obtain v where v: "val h (get s) = Some v" "w = build s v" by (auto simp: assms(1))
  show "F h s \<subseteq> {..<length h}" using allocated [OF v(1)] by (simp add: assms(2))
  show "V h' s = Some w \<and> F h' s = F h s" if "agree h h' (F h s)"
    using local [OF v(1), of h'] that v(2) by (simp add: assms(1,2))
  show "prefix h h' \<and> V h' s' = Some w \<and> F h' s' \<subseteq> {length h..<length h'}" if "C h s = (h', s')" for s'
    using copied [OF v(1), of h'] that v(2) by (auto simp: assms split: prod.splits)
qed

end

text \<open>Two fields, copied one after the other.\<close>

definition pair_value where
  "pair_value f g h xy = Option.bind (f h (fst xy)) (\<lambda>a. Option.bind (g h (snd xy)) (\<lambda>b. Some (a, b)))"

definition pair_foot :: "('h \<Rightarrow> 'a \<Rightarrow> addr set) \<Rightarrow> ('h \<Rightarrow> 'b \<Rightarrow> addr set) \<Rightarrow> 'h \<Rightarrow> 'a \<times> 'b \<Rightarrow> addr set" where
  "pair_foot f g h xy = f h (fst xy) \<union> g h (snd xy)"

definition pair_copy where
  "pair_copy f g h xy = (case f h (fst xy) of (h1, x) \<Rightarrow> (case g h1 (snd xy) of (h2, y) \<Rightarrow> (h2, (x, y))))"

lemmas pair_defs = pair_value_def pair_foot_def pair_copy_def

lemma two_copies:
  assumes 1: "deep_copier v1 f1 c1" and 2: "deep_copier v2 f2 c2" and v: "v1 h x = Some a" "v2 h y = Some b"
    and c: "c1 h x = (h1, x')" "c2 h1 y = (h2, y')"
  shows "prefix h h1" "prefix h1 h2" "v1 h2 x' = Some a" "v2 h2 y' = Some b"
    "f1 h2 x' \<subseteq> {length h..<length h1}" "f2 h2 y' \<subseteq> {length h1..<length h2}"
proof -
  note k1 = deep_copier.copied [OF 1 v(1) c(1)]
  have "v2 h1 y = Some b" using deep_copier.stable [OF 2 v(2)] k1 by blast
  note k2 = deep_copier.copied [OF 2 this c(2)]
  have "v1 h2 x' = Some a \<and> f1 h2 x' = f1 h1 x'" using deep_copier.stable [OF 1] k1 k2 by blast
  with k1 k2 show "prefix h h1" "prefix h1 h2" "v1 h2 x' = Some a" "v2 h2 y' = Some b"
    "f1 h2 x' \<subseteq> {length h..<length h1}" "f2 h2 y' \<subseteq> {length h1..<length h2}" by simp_all
qed

lemma pair_copier:
  assumes 1: "deep_copier v1 f1 c1" and 2: "deep_copier v2 f2 c2"
  shows "deep_copier (pair_value v1 v2) (pair_foot f1 f2) (pair_copy c1 c2)"
proof
  fix h h' xy w
  assume "pair_value v1 v2 h xy = Some w"
  then obtain x y a b where xy: "xy = (x, y)" "w = (a, b)" "v1 h x = Some a" "v2 h y = Some b"
    by (cases xy) (auto simp: pair_value_def bind_eq_Some_conv)
  show "pair_foot f1 f2 h xy \<subseteq> {..<length h}"
    using deep_copier.allocated [OF 1 xy(3)] deep_copier.allocated [OF 2 xy(4)] by (simp add: xy(1) pair_foot_def)
  show "pair_value v1 v2 h' xy = Some w \<and> pair_foot f1 f2 h' xy = pair_foot f1 f2 h xy"
    if "agree h h' (pair_foot f1 f2 h xy)"
    using that deep_copier.local [OF 1 xy(3), of h'] deep_copier.local [OF 2 xy(4), of h']
    by (auto simp: xy(1,2) pair_foot_def pair_value_def agree_def)
  show "prefix h h' \<and> pair_value v1 v2 h' xy' = Some w \<and> pair_foot f1 f2 h' xy' \<subseteq> {length h..<length h'}"
    if c: "pair_copy c1 c2 h xy = (h', xy')" for xy'
  proof -
    from c obtain h1 x' y' where c1: "c1 h x = (h1, x')" and c2: "c2 h1 y = (h', y')" and xy': "xy' = (x', y')"
      by (auto simp: xy(1) pair_copy_def split: prod.splits)
    note k = two_copies [OF 1 2 xy(3,4) c1 c2]
    have "length h \<le> length h1" "length h1 \<le> length h'" using k(1,2) by (auto dest: prefix_length_le)
    then have "pair_foot f1 f2 h' xy' \<subseteq> {length h..<length h'}" using k(5,6) by (auto simp: xy' pair_foot_def subset_iff)
    then show ?thesis using k prefix_order.trans by (auto simp: xy' xy(2) pair_value_def)
  qed
qed

end
