(* ===== verification/DeepCopy.thy ===== *)
theory DeepCopy
  imports GoHeap ApiTypes "HOL-Library.Monad_Syntax"
begin

text \<open>
  The deep copies of the API types, \<open>api/v1alpha1/zz_generated.deepcopy.go\<close>. Here the types have the layout
  they have in memory: a pointer field is an address or nil, a slice field a window of an array. The
  record of a type \<open>T\<close> in memory is \<open>T_m\<close>; types without references are those of \<open>ApiTypes\<close>.
  \<open>T_DeepCopyInto\<close> returns the struct it writes to its argument \<open>out\<close>, and the memory. Structs of other
  packages (conditions, label selectors, object metadata) have the type parameter, and their
  deep copies are parameters, bundled in the record \<open>foreign\<close>. \<open>T_value\<close> reads a struct as the value of
  \<open>ApiTypes\<close> that the rest of the development works with; \<open>T_foot\<close> is the memory it reaches.
\<close>

section \<open>Structs in memory\<close>

record EnrollmentSpec_m =
  enm_Namespaces :: ptr
  enm_ServiceAccounts :: ptr
  enm_Pods :: ptr

record SelectionSpec_m =
  selm_Enrollment :: ptr
  selm_NamespaceSelector :: ptr
  selm_ServiceAccountSelector :: ptr
  selm_PodSelector :: ptr

record ParameterSource_m =
  srcm_Static :: ptr
  srcm_Annotation :: string
  srcm_Label :: string
  srcm_ConfigMapKeyRef :: ptr
  srcm_Template :: string

record Parameter_m =
  parm_Name :: string
  parm_ValueFrom :: ParameterSource_m
  parm_Default :: ptr
  parm_Required :: bool

record InjectSpec_m =
  injm_Env :: slice
  injm_Files :: slice
  injm_Containers :: slice

record HelperSpec_m =
  hm_Image :: string
  hm_ImagePullPolicy :: string
  hm_Resources :: ptr
  hm_SecurityContext :: ptr

record OIDCShimSpec_m =
  specm_Provider :: string
  specm_Selection :: SelectionSpec_m
  specm_Parameters :: slice
  specm_Audience :: string
  specm_ExtraAudiences :: slice
  specm_Token :: TokenSpec
  specm_Inject :: InjectSpec_m
  specm_SPIFFE :: ptr
  specm_Helper :: ptr

record OIDCShimStatus_m =
  stm_Conditions :: slice
  stm_ObservedGeneration :: int
  stm_MatchedPods :: ptr

record ClusterOIDCShimSpec_m =
  cosm_OIDCShimSpec :: OIDCShimSpec_m
  cosm_ConfigMapNamespace :: string

record TypeMeta =
  tm_Kind :: string
  tm_APIVersion :: string

record 'x OIDCShim_m =
  osm_TypeMeta :: TypeMeta
  osm_ObjectMeta :: 'x
  osm_Spec :: OIDCShimSpec_m
  osm_Status :: OIDCShimStatus_m

record 'x ClusterOIDCShim_m =
  csm_TypeMeta :: TypeMeta
  csm_ObjectMeta :: 'x
  csm_Spec :: ClusterOIDCShimSpec_m
  csm_Status :: OIDCShimStatus_m

record 'x OIDCShimList_m =
  olm_TypeMeta :: TypeMeta
  olm_ListMeta :: 'x
  olm_Items :: slice

record 'x ClusterOIDCShimList_m =
  clm_TypeMeta :: TypeMeta
  clm_ListMeta :: 'x
  clm_Items :: slice

section \<open>Memory\<close>

text \<open>What an address can hold: a value a pointer points to, or the array behind a slice.\<close>

datatype 'x cell =
    CBool bool
  | CString string
  | CInt32 "32 word"
  | CStrings "string list"
  | CEnvVars "EnvVarSpec list"
  | CFiles "FileSpec list"
  | CParameters "Parameter_m list"
  | CConditions "'x list"
  | CForeign 'x
  | CShims "'x OIDCShim_m list"
  | CClusterShims "'x ClusterOIDCShim_m list"
  | CConfigMapKeySelector ConfigMapKeySelector
  | CEnrollmentSpec EnrollmentSpec_m
  | CEnvVar EnvVarSpec
  | CFileSpec FileSpec
  | CHelperSpec HelperSpec_m
  | CInjectSpec InjectSpec_m
  | CParameter Parameter_m
  | CParameterSource ParameterSource_m
  | CSPIFFESpec SPIFFESpec
  | CSelectionSpec SelectionSpec_m
  | CTokenSpec TokenSpec
  | COIDCShimSpec OIDCShimSpec_m
  | CClusterOIDCShimSpec ClusterOIDCShimSpec_m
  | COIDCShimStatus OIDCShimStatus_m
  | COIDCShim "'x OIDCShim_m"
  | CClusterOIDCShim "'x ClusterOIDCShim_m"
  | COIDCShimList "'x OIDCShimList_m"
  | CClusterOIDCShimList "'x ClusterOIDCShimList_m"

type_synonym 'x mem = "'x cell list"

definition as_bool :: "'x cell \<Rightarrow> bool option" where
  "as_bool c = (case c of CBool x \<Rightarrow> Some x | _ \<Rightarrow> None)"

definition as_string :: "'x cell \<Rightarrow> string option" where
  "as_string c = (case c of CString x \<Rightarrow> Some x | _ \<Rightarrow> None)"

definition as_int32 :: "'x cell \<Rightarrow> (32 word) option" where
  "as_int32 c = (case c of CInt32 x \<Rightarrow> Some x | _ \<Rightarrow> None)"

definition as_strings :: "'x cell \<Rightarrow> (string list) option" where
  "as_strings c = (case c of CStrings x \<Rightarrow> Some x | _ \<Rightarrow> None)"

definition as_envs :: "'x cell \<Rightarrow> (EnvVarSpec list) option" where
  "as_envs c = (case c of CEnvVars x \<Rightarrow> Some x | _ \<Rightarrow> None)"

definition as_files :: "'x cell \<Rightarrow> (FileSpec list) option" where
  "as_files c = (case c of CFiles x \<Rightarrow> Some x | _ \<Rightarrow> None)"

definition as_parameters :: "'x cell \<Rightarrow> (Parameter_m list) option" where
  "as_parameters c = (case c of CParameters x \<Rightarrow> Some x | _ \<Rightarrow> None)"

definition as_conditions :: "'x cell \<Rightarrow> ('x list) option" where
  "as_conditions c = (case c of CConditions x \<Rightarrow> Some x | _ \<Rightarrow> None)"

definition as_foreign :: "'x cell \<Rightarrow> 'x option" where
  "as_foreign c = (case c of CForeign x \<Rightarrow> Some x | _ \<Rightarrow> None)"

definition as_shims :: "'x cell \<Rightarrow> ('x OIDCShim_m list) option" where
  "as_shims c = (case c of CShims x \<Rightarrow> Some x | _ \<Rightarrow> None)"

definition as_cluster_shims :: "'x cell \<Rightarrow> ('x ClusterOIDCShim_m list) option" where
  "as_cluster_shims c = (case c of CClusterShims x \<Rightarrow> Some x | _ \<Rightarrow> None)"

definition as_ConfigMapKeySelector :: "'x cell \<Rightarrow> ConfigMapKeySelector option" where
  "as_ConfigMapKeySelector c = (case c of CConfigMapKeySelector x \<Rightarrow> Some x | _ \<Rightarrow> None)"

definition as_EnrollmentSpec :: "'x cell \<Rightarrow> EnrollmentSpec_m option" where
  "as_EnrollmentSpec c = (case c of CEnrollmentSpec x \<Rightarrow> Some x | _ \<Rightarrow> None)"

definition as_EnvVar :: "'x cell \<Rightarrow> EnvVarSpec option" where
  "as_EnvVar c = (case c of CEnvVar x \<Rightarrow> Some x | _ \<Rightarrow> None)"

definition as_FileSpec :: "'x cell \<Rightarrow> FileSpec option" where
  "as_FileSpec c = (case c of CFileSpec x \<Rightarrow> Some x | _ \<Rightarrow> None)"

definition as_HelperSpec :: "'x cell \<Rightarrow> HelperSpec_m option" where
  "as_HelperSpec c = (case c of CHelperSpec x \<Rightarrow> Some x | _ \<Rightarrow> None)"

definition as_InjectSpec :: "'x cell \<Rightarrow> InjectSpec_m option" where
  "as_InjectSpec c = (case c of CInjectSpec x \<Rightarrow> Some x | _ \<Rightarrow> None)"

definition as_Parameter :: "'x cell \<Rightarrow> Parameter_m option" where
  "as_Parameter c = (case c of CParameter x \<Rightarrow> Some x | _ \<Rightarrow> None)"

definition as_ParameterSource :: "'x cell \<Rightarrow> ParameterSource_m option" where
  "as_ParameterSource c = (case c of CParameterSource x \<Rightarrow> Some x | _ \<Rightarrow> None)"

definition as_SPIFFESpec :: "'x cell \<Rightarrow> SPIFFESpec option" where
  "as_SPIFFESpec c = (case c of CSPIFFESpec x \<Rightarrow> Some x | _ \<Rightarrow> None)"

definition as_SelectionSpec :: "'x cell \<Rightarrow> SelectionSpec_m option" where
  "as_SelectionSpec c = (case c of CSelectionSpec x \<Rightarrow> Some x | _ \<Rightarrow> None)"

definition as_TokenSpec :: "'x cell \<Rightarrow> TokenSpec option" where
  "as_TokenSpec c = (case c of CTokenSpec x \<Rightarrow> Some x | _ \<Rightarrow> None)"

definition as_OIDCShimSpec :: "'x cell \<Rightarrow> OIDCShimSpec_m option" where
  "as_OIDCShimSpec c = (case c of COIDCShimSpec x \<Rightarrow> Some x | _ \<Rightarrow> None)"

definition as_ClusterOIDCShimSpec :: "'x cell \<Rightarrow> ClusterOIDCShimSpec_m option" where
  "as_ClusterOIDCShimSpec c = (case c of CClusterOIDCShimSpec x \<Rightarrow> Some x | _ \<Rightarrow> None)"

definition as_OIDCShimStatus :: "'x cell \<Rightarrow> OIDCShimStatus_m option" where
  "as_OIDCShimStatus c = (case c of COIDCShimStatus x \<Rightarrow> Some x | _ \<Rightarrow> None)"

definition as_OIDCShim :: "'x cell \<Rightarrow> ('x OIDCShim_m) option" where
  "as_OIDCShim c = (case c of COIDCShim x \<Rightarrow> Some x | _ \<Rightarrow> None)"

definition as_ClusterOIDCShim :: "'x cell \<Rightarrow> ('x ClusterOIDCShim_m) option" where
  "as_ClusterOIDCShim c = (case c of CClusterOIDCShim x \<Rightarrow> Some x | _ \<Rightarrow> None)"

definition as_OIDCShimList :: "'x cell \<Rightarrow> ('x OIDCShimList_m) option" where
  "as_OIDCShimList c = (case c of COIDCShimList x \<Rightarrow> Some x | _ \<Rightarrow> None)"

definition as_ClusterOIDCShimList :: "'x cell \<Rightarrow> ('x ClusterOIDCShimList_m) option" where
  "as_ClusterOIDCShimList c = (case c of CClusterOIDCShimList x \<Rightarrow> Some x | _ \<Rightarrow> None)"

lemmas as_defs = as_bool_def as_string_def as_int32_def as_strings_def as_envs_def as_files_def as_parameters_def as_conditions_def as_foreign_def as_shims_def as_cluster_shims_def as_ConfigMapKeySelector_def as_EnrollmentSpec_def as_EnvVar_def as_FileSpec_def as_HelperSpec_def as_InjectSpec_def as_Parameter_def as_ParameterSource_def as_SPIFFESpec_def as_SelectionSpec_def as_TokenSpec_def as_OIDCShimSpec_def as_ClusterOIDCShimSpec_def as_OIDCShimStatus_def as_OIDCShim_def as_ClusterOIDCShim_def as_OIDCShimList_def as_ClusterOIDCShimList_def

section \<open>Structs of other packages\<close>

text \<open>
  The deep copy of a type of another package, with how its structs read and what they reach. The zero
  values are what \<open>make\<close> puts into a new array.
\<close>

record ObjectMeta =
  om_Namespace :: string
  om_Name :: string
  om_Generation :: int
  om_Rest :: string

record ('x, 'v) ops =
  ops_value :: "'x mem \<Rightarrow> 'x \<Rightarrow> 'v option"
  ops_foot :: "'x mem \<Rightarrow> 'x \<Rightarrow> addr set"
  ops_copy :: "'x mem \<Rightarrow> 'x \<Rightarrow> 'x mem \<times> 'x"

record 'x foreign =
  fo_Condition :: "('x, Condition) ops"
  fo_LabelSelector :: "('x, LabelSelector) ops"
  fo_ResourceRequirements :: "('x, ResourceRequirements) ops"
  fo_SecurityContext :: "('x, SecurityContext) ops"
  fo_ObjectMeta :: "('x, ObjectMeta) ops"
  fo_ListMeta :: "('x, string) ops"
  fo_zero :: 'x

definition ops_ok :: "('x, 'v) ops \<Rightarrow> bool" where
  "ops_ok f \<longleftrightarrow> deep_copier (ops_value f) (ops_foot f) (ops_copy f)"

definition foreign_ok :: "'x foreign \<Rightarrow> bool" where
  "foreign_ok fo \<longleftrightarrow>
     ops_ok (fo_Condition fo) \<and> ops_ok (fo_LabelSelector fo) \<and> ops_ok (fo_ResourceRequirements fo) \<and>
     ops_ok (fo_SecurityContext fo) \<and> ops_ok (fo_ObjectMeta fo) \<and> ops_ok (fo_ListMeta fo)"

section \<open>Values\<close>

definition EnrollmentSpec_value :: "'x mem \<Rightarrow> EnrollmentSpec_m \<Rightarrow> EnrollmentSpec option" where
  "EnrollmentSpec_value h s =
     do {
       ns \<leftarrow> ptr_value as_bool flat_value h (enm_Namespaces s);
       sa \<leftarrow> ptr_value as_bool flat_value h (enm_ServiceAccounts s);
       pods \<leftarrow> ptr_value as_bool flat_value h (enm_Pods s);
       Some \<lparr>en_Namespaces = ns, en_ServiceAccounts = sa, en_Pods = pods\<rparr>
     }"

definition SelectionSpec_value :: "'x foreign \<Rightarrow> 'x mem \<Rightarrow> SelectionSpec_m \<Rightarrow> SelectionSpec option" where
  "SelectionSpec_value fo h s =
     do {
       en \<leftarrow> ptr_value as_EnrollmentSpec EnrollmentSpec_value h (selm_Enrollment s);
       ns \<leftarrow> ptr_value as_foreign (ops_value (fo_LabelSelector fo)) h (selm_NamespaceSelector s);
       sa \<leftarrow> ptr_value as_foreign (ops_value (fo_LabelSelector fo)) h (selm_ServiceAccountSelector s);
       pods \<leftarrow> ptr_value as_foreign (ops_value (fo_LabelSelector fo)) h (selm_PodSelector s);
       Some \<lparr>sel_Enrollment = en, sel_NamespaceSelector = ns, sel_ServiceAccountSelector = sa, sel_PodSelector = pods\<rparr>
     }"

definition ParameterSource_value :: "'x mem \<Rightarrow> ParameterSource_m \<Rightarrow> ParameterSource option" where
  "ParameterSource_value h s =
     do {
       static \<leftarrow> ptr_value as_string flat_value h (srcm_Static s);
       ref \<leftarrow> ptr_value as_ConfigMapKeySelector flat_value h (srcm_ConfigMapKeyRef s);
       Some \<lparr>src_Static = static, src_Annotation = srcm_Annotation s, src_Label = srcm_Label s,
             src_ConfigMapKeyRef = ref, src_Template = srcm_Template s\<rparr>
     }"

definition Parameter_value :: "'x mem \<Rightarrow> Parameter_m \<Rightarrow> Parameter option" where
  "Parameter_value h s =
     do {
       source \<leftarrow> ParameterSource_value h (parm_ValueFrom s);
       dflt \<leftarrow> ptr_value as_string flat_value h (parm_Default s);
       Some \<lparr>par_Name = parm_Name s, par_ValueFrom = source, par_Default = dflt, par_Required = parm_Required s\<rparr>
     }"

definition InjectSpec_value :: "'x mem \<Rightarrow> InjectSpec_m \<Rightarrow> InjectSpec option" where
  "InjectSpec_value h s =
     do {
       env \<leftarrow> slice_value as_envs flat_value h (injm_Env s);
       files \<leftarrow> slice_value as_files flat_value h (injm_Files s);
       containers \<leftarrow> slice_value as_strings flat_value h (injm_Containers s);
       Some \<lparr>inj_Env = env, inj_Files = files, inj_Containers = containers\<rparr>
     }"

definition HelperSpec_value :: "'x foreign \<Rightarrow> 'x mem \<Rightarrow> HelperSpec_m \<Rightarrow> HelperSpec option" where
  "HelperSpec_value fo h s =
     do {
       res \<leftarrow> ptr_value as_foreign (ops_value (fo_ResourceRequirements fo)) h (hm_Resources s);
       sc \<leftarrow> ptr_value as_foreign (ops_value (fo_SecurityContext fo)) h (hm_SecurityContext s);
       Some \<lparr>h_Image = hm_Image s, h_ImagePullPolicy = hm_ImagePullPolicy s, h_Resources = res, h_SecurityContext = sc\<rparr>
     }"

definition OIDCShimSpec_value :: "'x foreign \<Rightarrow> 'x mem \<Rightarrow> OIDCShimSpec_m \<Rightarrow> OIDCShimSpec option" where
  "OIDCShimSpec_value fo h s =
     do {
       sel \<leftarrow> SelectionSpec_value fo h (specm_Selection s);
       params \<leftarrow> slice_value as_parameters Parameter_value h (specm_Parameters s);
       extra \<leftarrow> slice_value as_strings flat_value h (specm_ExtraAudiences s);
       inject \<leftarrow> InjectSpec_value h (specm_Inject s);
       spiffe \<leftarrow> ptr_value as_SPIFFESpec flat_value h (specm_SPIFFE s);
       helper \<leftarrow> ptr_value as_HelperSpec (HelperSpec_value fo) h (specm_Helper s);
       Some \<lparr>spec_Provider = specm_Provider s, spec_Selection = sel, spec_Parameters = params,
             spec_Audience = specm_Audience s, spec_ExtraAudiences = extra, spec_Token = specm_Token s,
             spec_Inject = inject, spec_SPIFFE = spiffe, spec_Helper = helper\<rparr>
     }"

definition OIDCShimStatus_value :: "'x foreign \<Rightarrow> 'x mem \<Rightarrow> OIDCShimStatus_m \<Rightarrow> OIDCShimStatus option" where
  "OIDCShimStatus_value fo h s =
     do {
       conds \<leftarrow> slice_value as_conditions (ops_value (fo_Condition fo)) h (stm_Conditions s);
       matched \<leftarrow> ptr_value as_int32 flat_value h (stm_MatchedPods s);
       Some \<lparr>st_Conditions = conds, st_ObservedGeneration = stm_ObservedGeneration s, st_MatchedPods = matched\<rparr>
     }"

definition ClusterOIDCShimSpec_value :: "'x foreign \<Rightarrow> 'x mem \<Rightarrow> ClusterOIDCShimSpec_m \<Rightarrow> ClusterOIDCShimSpec option" where
  "ClusterOIDCShimSpec_value fo h s =
     map_option (\<lambda>spec. \<lparr>cos_OIDCShimSpec = spec, cos_ConfigMapNamespace = cosm_ConfigMapNamespace s\<rparr>)
       (OIDCShimSpec_value fo h (cosm_OIDCShimSpec s))"

text \<open>An object also carries its type and the metadata that the values of \<open>ApiTypes\<close> leave out.\<close>

type_synonym 's object_value = "TypeMeta \<times> ObjectMeta \<times> 's \<times> OIDCShimStatus"

definition OIDCShim_value :: "'x foreign \<Rightarrow> 'x mem \<Rightarrow> 'x OIDCShim_m \<Rightarrow> OIDCShimSpec object_value option" where
  "OIDCShim_value fo h s =
     do {
       meta \<leftarrow> ops_value (fo_ObjectMeta fo) h (osm_ObjectMeta s);
       spec \<leftarrow> OIDCShimSpec_value fo h (osm_Spec s);
       status \<leftarrow> OIDCShimStatus_value fo h (osm_Status s);
       Some (osm_TypeMeta s, meta, spec, status)
     }"

definition ClusterOIDCShim_value ::
  "'x foreign \<Rightarrow> 'x mem \<Rightarrow> 'x ClusterOIDCShim_m \<Rightarrow> ClusterOIDCShimSpec object_value option" where
  "ClusterOIDCShim_value fo h s =
     do {
       meta \<leftarrow> ops_value (fo_ObjectMeta fo) h (csm_ObjectMeta s);
       spec \<leftarrow> ClusterOIDCShimSpec_value fo h (csm_Spec s);
       status \<leftarrow> OIDCShimStatus_value fo h (csm_Status s);
       Some (csm_TypeMeta s, meta, spec, status)
     }"

definition OIDCShimList_value ::
  "'x foreign \<Rightarrow> 'x mem \<Rightarrow> 'x OIDCShimList_m \<Rightarrow> (TypeMeta \<times> string \<times> OIDCShimSpec object_value list) option" where
  "OIDCShimList_value fo h s =
     do {
       meta \<leftarrow> ops_value (fo_ListMeta fo) h (olm_ListMeta s);
       items \<leftarrow> slice_value as_shims (OIDCShim_value fo) h (olm_Items s);
       Some (olm_TypeMeta s, meta, items)
     }"

definition ClusterOIDCShimList_value ::
  "'x foreign \<Rightarrow> 'x mem \<Rightarrow> 'x ClusterOIDCShimList_m \<Rightarrow>
     (TypeMeta \<times> string \<times> ClusterOIDCShimSpec object_value list) option" where
  "ClusterOIDCShimList_value fo h s =
     do {
       meta \<leftarrow> ops_value (fo_ListMeta fo) h (clm_ListMeta s);
       items \<leftarrow> slice_value as_cluster_shims (ClusterOIDCShim_value fo) h (clm_Items s);
       Some (clm_TypeMeta s, meta, items)
     }"

section \<open>Footprints\<close>

definition EnrollmentSpec_foot :: "'x mem \<Rightarrow> EnrollmentSpec_m \<Rightarrow> addr set" where
  "EnrollmentSpec_foot h s =
     ptr_foot as_bool flat_foot h (enm_Namespaces s) \<union> ptr_foot as_bool flat_foot h (enm_ServiceAccounts s) \<union>
     ptr_foot as_bool flat_foot h (enm_Pods s)"

definition SelectionSpec_foot :: "'x foreign \<Rightarrow> 'x mem \<Rightarrow> SelectionSpec_m \<Rightarrow> addr set" where
  "SelectionSpec_foot fo h s =
     ptr_foot as_EnrollmentSpec EnrollmentSpec_foot h (selm_Enrollment s) \<union>
     ptr_foot as_foreign (ops_foot (fo_LabelSelector fo)) h (selm_NamespaceSelector s) \<union>
     ptr_foot as_foreign (ops_foot (fo_LabelSelector fo)) h (selm_ServiceAccountSelector s) \<union>
     ptr_foot as_foreign (ops_foot (fo_LabelSelector fo)) h (selm_PodSelector s)"

definition ParameterSource_foot :: "'x mem \<Rightarrow> ParameterSource_m \<Rightarrow> addr set" where
  "ParameterSource_foot h s =
     ptr_foot as_string flat_foot h (srcm_Static s) \<union>
     ptr_foot as_ConfigMapKeySelector flat_foot h (srcm_ConfigMapKeyRef s)"

definition Parameter_foot :: "'x mem \<Rightarrow> Parameter_m \<Rightarrow> addr set" where
  "Parameter_foot h s = ParameterSource_foot h (parm_ValueFrom s) \<union> ptr_foot as_string flat_foot h (parm_Default s)"

definition InjectSpec_foot :: "'x mem \<Rightarrow> InjectSpec_m \<Rightarrow> addr set" where
  "InjectSpec_foot h s =
     slice_foot as_envs flat_foot h (injm_Env s) \<union> slice_foot as_files flat_foot h (injm_Files s) \<union>
     slice_foot as_strings flat_foot h (injm_Containers s)"

definition HelperSpec_foot :: "'x foreign \<Rightarrow> 'x mem \<Rightarrow> HelperSpec_m \<Rightarrow> addr set" where
  "HelperSpec_foot fo h s =
     ptr_foot as_foreign (ops_foot (fo_ResourceRequirements fo)) h (hm_Resources s) \<union>
     ptr_foot as_foreign (ops_foot (fo_SecurityContext fo)) h (hm_SecurityContext s)"

definition OIDCShimSpec_foot :: "'x foreign \<Rightarrow> 'x mem \<Rightarrow> OIDCShimSpec_m \<Rightarrow> addr set" where
  "OIDCShimSpec_foot fo h s =
     SelectionSpec_foot fo h (specm_Selection s) \<union> slice_foot as_parameters Parameter_foot h (specm_Parameters s) \<union>
     slice_foot as_strings flat_foot h (specm_ExtraAudiences s) \<union> InjectSpec_foot h (specm_Inject s) \<union>
     ptr_foot as_SPIFFESpec flat_foot h (specm_SPIFFE s) \<union>
     ptr_foot as_HelperSpec (HelperSpec_foot fo) h (specm_Helper s)"

definition OIDCShimStatus_foot :: "'x foreign \<Rightarrow> 'x mem \<Rightarrow> OIDCShimStatus_m \<Rightarrow> addr set" where
  "OIDCShimStatus_foot fo h s =
     slice_foot as_conditions (ops_foot (fo_Condition fo)) h (stm_Conditions s) \<union>
     ptr_foot as_int32 flat_foot h (stm_MatchedPods s)"

definition ClusterOIDCShimSpec_foot :: "'x foreign \<Rightarrow> 'x mem \<Rightarrow> ClusterOIDCShimSpec_m \<Rightarrow> addr set" where
  "ClusterOIDCShimSpec_foot fo h s = OIDCShimSpec_foot fo h (cosm_OIDCShimSpec s)"

definition OIDCShim_foot :: "'x foreign \<Rightarrow> 'x mem \<Rightarrow> 'x OIDCShim_m \<Rightarrow> addr set" where
  "OIDCShim_foot fo h s =
     ops_foot (fo_ObjectMeta fo) h (osm_ObjectMeta s) \<union> OIDCShimSpec_foot fo h (osm_Spec s) \<union>
     OIDCShimStatus_foot fo h (osm_Status s)"

definition ClusterOIDCShim_foot :: "'x foreign \<Rightarrow> 'x mem \<Rightarrow> 'x ClusterOIDCShim_m \<Rightarrow> addr set" where
  "ClusterOIDCShim_foot fo h s =
     ops_foot (fo_ObjectMeta fo) h (csm_ObjectMeta s) \<union> ClusterOIDCShimSpec_foot fo h (csm_Spec s) \<union>
     OIDCShimStatus_foot fo h (csm_Status s)"

definition OIDCShimList_foot :: "'x foreign \<Rightarrow> 'x mem \<Rightarrow> 'x OIDCShimList_m \<Rightarrow> addr set" where
  "OIDCShimList_foot fo h s =
     ops_foot (fo_ListMeta fo) h (olm_ListMeta s) \<union> slice_foot as_shims (OIDCShim_foot fo) h (olm_Items s)"

definition ClusterOIDCShimList_foot :: "'x foreign \<Rightarrow> 'x mem \<Rightarrow> 'x ClusterOIDCShimList_m \<Rightarrow> addr set" where
  "ClusterOIDCShimList_foot fo h s =
     ops_foot (fo_ListMeta fo) h (clm_ListMeta s) \<union>
     slice_foot as_cluster_shims (ClusterOIDCShim_foot fo) h (clm_Items s)"

section \<open>DeepCopyInto\<close>

definition ConfigMapKeySelector_DeepCopyInto :: "'x mem \<Rightarrow> ConfigMapKeySelector \<Rightarrow> 'x mem \<times> ConfigMapKeySelector" where
  "ConfigMapKeySelector_DeepCopyInto h s = (h, s)"

definition EnvVar_DeepCopyInto :: "'x mem \<Rightarrow> EnvVarSpec \<Rightarrow> 'x mem \<times> EnvVarSpec" where
  "EnvVar_DeepCopyInto h s = (h, s)"

definition FileSpec_DeepCopyInto :: "'x mem \<Rightarrow> FileSpec \<Rightarrow> 'x mem \<times> FileSpec" where
  "FileSpec_DeepCopyInto h s = (h, s)"

definition SPIFFESpec_DeepCopyInto :: "'x mem \<Rightarrow> SPIFFESpec \<Rightarrow> 'x mem \<times> SPIFFESpec" where
  "SPIFFESpec_DeepCopyInto h s = (h, s)"

definition TokenSpec_DeepCopyInto :: "'x mem \<Rightarrow> TokenSpec \<Rightarrow> 'x mem \<times> TokenSpec" where
  "TokenSpec_DeepCopyInto h s = (h, s)"

definition EnrollmentSpec_DeepCopyInto :: "'x mem \<Rightarrow> EnrollmentSpec_m \<Rightarrow> 'x mem \<times> EnrollmentSpec_m" where
  "EnrollmentSpec_DeepCopyInto h s =
     (case new_copy as_bool CBool flat_copy h (enm_Namespaces s) of (h1, ns) \<Rightarrow>
     (case new_copy as_bool CBool flat_copy h1 (enm_ServiceAccounts s) of (h2, sa) \<Rightarrow>
     (case new_copy as_bool CBool flat_copy h2 (enm_Pods s) of (h3, pods) \<Rightarrow>
        (h3, s\<lparr>enm_Namespaces := ns, enm_ServiceAccounts := sa, enm_Pods := pods\<rparr>))))"

definition SelectionSpec_DeepCopyInto :: "'x foreign \<Rightarrow> 'x mem \<Rightarrow> SelectionSpec_m \<Rightarrow> 'x mem \<times> SelectionSpec_m" where
  "SelectionSpec_DeepCopyInto fo h s =
     (case new_copy as_EnrollmentSpec CEnrollmentSpec EnrollmentSpec_DeepCopyInto h (selm_Enrollment s) of (h1, en) \<Rightarrow>
     (case new_copy as_foreign CForeign (ops_copy (fo_LabelSelector fo)) h1 (selm_NamespaceSelector s) of (h2, ns) \<Rightarrow>
     (case new_copy as_foreign CForeign (ops_copy (fo_LabelSelector fo)) h2 (selm_ServiceAccountSelector s) of (h3, sa) \<Rightarrow>
     (case new_copy as_foreign CForeign (ops_copy (fo_LabelSelector fo)) h3 (selm_PodSelector s) of (h4, pods) \<Rightarrow>
        (h4, s\<lparr>selm_Enrollment := en, selm_NamespaceSelector := ns, selm_ServiceAccountSelector := sa,
               selm_PodSelector := pods\<rparr>)))))"

definition ParameterSource_DeepCopyInto :: "'x mem \<Rightarrow> ParameterSource_m \<Rightarrow> 'x mem \<times> ParameterSource_m" where
  "ParameterSource_DeepCopyInto h s =
     (case new_copy as_string CString flat_copy h (srcm_Static s) of (h1, static) \<Rightarrow>
     (case new_copy as_ConfigMapKeySelector CConfigMapKeySelector flat_copy h1 (srcm_ConfigMapKeyRef s) of (h2, ref) \<Rightarrow>
        (h2, s\<lparr>srcm_Static := static, srcm_ConfigMapKeyRef := ref\<rparr>)))"

definition Parameter_DeepCopyInto :: "'x mem \<Rightarrow> Parameter_m \<Rightarrow> 'x mem \<times> Parameter_m" where
  "Parameter_DeepCopyInto h s =
     (case ParameterSource_DeepCopyInto h (parm_ValueFrom s) of (h1, source) \<Rightarrow>
     (case new_copy as_string CString flat_copy h1 (parm_Default s) of (h2, dflt) \<Rightarrow>
        (h2, s\<lparr>parm_ValueFrom := source, parm_Default := dflt\<rparr>)))"

definition zero_EnvVar :: EnvVarSpec where "zero_EnvVar = \<lparr>es_Name = [], es_Value = []\<rparr>"
definition zero_FileSpec :: FileSpec where "zero_FileSpec = \<lparr>fs_Path = [], fs_Content = [], fs_Mode = []\<rparr>"

definition InjectSpec_DeepCopyInto :: "'x mem \<Rightarrow> InjectSpec_m \<Rightarrow> 'x mem \<times> InjectSpec_m" where
  "InjectSpec_DeepCopyInto h s =
     (case make_copy as_envs CEnvVars zero_EnvVar flat_copy h (injm_Env s) of (h1, env) \<Rightarrow>
     (case make_copy as_files CFiles zero_FileSpec flat_copy h1 (injm_Files s) of (h2, files) \<Rightarrow>
     (case make_copy as_strings CStrings [] flat_copy h2 (injm_Containers s) of (h3, containers) \<Rightarrow>
        (h3, s\<lparr>injm_Env := env, injm_Files := files, injm_Containers := containers\<rparr>))))"

definition HelperSpec_DeepCopyInto :: "'x foreign \<Rightarrow> 'x mem \<Rightarrow> HelperSpec_m \<Rightarrow> 'x mem \<times> HelperSpec_m" where
  "HelperSpec_DeepCopyInto fo h s =
     (case new_copy as_foreign CForeign (ops_copy (fo_ResourceRequirements fo)) h (hm_Resources s) of (h1, res) \<Rightarrow>
     (case new_copy as_foreign CForeign (ops_copy (fo_SecurityContext fo)) h1 (hm_SecurityContext s) of (h2, sc) \<Rightarrow>
        (h2, s\<lparr>hm_Resources := res, hm_SecurityContext := sc\<rparr>)))"

definition zero_Parameter :: Parameter_m where
  "zero_Parameter =
     \<lparr>parm_Name = [],
      parm_ValueFrom = \<lparr>srcm_Static = None, srcm_Annotation = [], srcm_Label = [], srcm_ConfigMapKeyRef = None, srcm_Template = []\<rparr>,
      parm_Default = None, parm_Required = False\<rparr>"

definition OIDCShimSpec_DeepCopyInto :: "'x foreign \<Rightarrow> 'x mem \<Rightarrow> OIDCShimSpec_m \<Rightarrow> 'x mem \<times> OIDCShimSpec_m" where
  "OIDCShimSpec_DeepCopyInto fo h s =
     (case SelectionSpec_DeepCopyInto fo h (specm_Selection s) of (h1, sel) \<Rightarrow>
     (case make_copy as_parameters CParameters zero_Parameter Parameter_DeepCopyInto h1 (specm_Parameters s) of (h2, params) \<Rightarrow>
     (case make_copy as_strings CStrings [] flat_copy h2 (specm_ExtraAudiences s) of (h3, extra) \<Rightarrow>
     (case InjectSpec_DeepCopyInto h3 (specm_Inject s) of (h4, inject) \<Rightarrow>
     (case new_copy as_SPIFFESpec CSPIFFESpec flat_copy h4 (specm_SPIFFE s) of (h5, spiffe) \<Rightarrow>
     (case new_copy as_HelperSpec CHelperSpec (HelperSpec_DeepCopyInto fo) h5 (specm_Helper s) of (h6, helper) \<Rightarrow>
        (h6, s\<lparr>specm_Selection := sel, specm_Parameters := params, specm_ExtraAudiences := extra,
               specm_Token := specm_Token s, specm_Inject := inject, specm_SPIFFE := spiffe, specm_Helper := helper\<rparr>)))))))"

definition OIDCShimStatus_DeepCopyInto :: "'x foreign \<Rightarrow> 'x mem \<Rightarrow> OIDCShimStatus_m \<Rightarrow> 'x mem \<times> OIDCShimStatus_m" where
  "OIDCShimStatus_DeepCopyInto fo h s =
     (case make_copy as_conditions CConditions (fo_zero fo) (ops_copy (fo_Condition fo)) h (stm_Conditions s) of (h1, conds) \<Rightarrow>
     (case new_copy as_int32 CInt32 flat_copy h1 (stm_MatchedPods s) of (h2, matched) \<Rightarrow>
        (h2, s\<lparr>stm_Conditions := conds, stm_MatchedPods := matched\<rparr>)))"

definition ClusterOIDCShimSpec_DeepCopyInto ::
  "'x foreign \<Rightarrow> 'x mem \<Rightarrow> ClusterOIDCShimSpec_m \<Rightarrow> 'x mem \<times> ClusterOIDCShimSpec_m" where
  "ClusterOIDCShimSpec_DeepCopyInto fo h s =
     (case OIDCShimSpec_DeepCopyInto fo h (cosm_OIDCShimSpec s) of (h1, spec) \<Rightarrow> (h1, s\<lparr>cosm_OIDCShimSpec := spec\<rparr>))"

definition OIDCShim_DeepCopyInto :: "'x foreign \<Rightarrow> 'x mem \<Rightarrow> 'x OIDCShim_m \<Rightarrow> 'x mem \<times> 'x OIDCShim_m" where
  "OIDCShim_DeepCopyInto fo h s =
     (case ops_copy (fo_ObjectMeta fo) h (osm_ObjectMeta s) of (h1, meta) \<Rightarrow>
     (case OIDCShimSpec_DeepCopyInto fo h1 (osm_Spec s) of (h2, spec) \<Rightarrow>
     (case OIDCShimStatus_DeepCopyInto fo h2 (osm_Status s) of (h3, status) \<Rightarrow>
        (h3, s\<lparr>osm_TypeMeta := osm_TypeMeta s, osm_ObjectMeta := meta, osm_Spec := spec, osm_Status := status\<rparr>))))"

definition ClusterOIDCShim_DeepCopyInto ::
  "'x foreign \<Rightarrow> 'x mem \<Rightarrow> 'x ClusterOIDCShim_m \<Rightarrow> 'x mem \<times> 'x ClusterOIDCShim_m" where
  "ClusterOIDCShim_DeepCopyInto fo h s =
     (case ops_copy (fo_ObjectMeta fo) h (csm_ObjectMeta s) of (h1, meta) \<Rightarrow>
     (case ClusterOIDCShimSpec_DeepCopyInto fo h1 (csm_Spec s) of (h2, spec) \<Rightarrow>
     (case OIDCShimStatus_DeepCopyInto fo h2 (csm_Status s) of (h3, status) \<Rightarrow>
        (h3, s\<lparr>csm_TypeMeta := csm_TypeMeta s, csm_ObjectMeta := meta, csm_Spec := spec, csm_Status := status\<rparr>))))"

definition zero_OIDCShimSpec :: OIDCShimSpec_m where
  "zero_OIDCShimSpec =
     \<lparr>specm_Provider = [],
      specm_Selection = \<lparr>selm_Enrollment = None, selm_NamespaceSelector = None, selm_ServiceAccountSelector = None, selm_PodSelector = None\<rparr>,
      specm_Parameters = None, specm_Audience = [], specm_ExtraAudiences = None,
      specm_Token = \<lparr>tk_VolumeName = [], tk_MountPath = [], tk_FileName = [], tk_FileMode = []\<rparr>,
      specm_Inject = \<lparr>injm_Env = None, injm_Files = None, injm_Containers = None\<rparr>,
      specm_SPIFFE = None, specm_Helper = None\<rparr>"

definition zero_OIDCShimStatus :: OIDCShimStatus_m where
  "zero_OIDCShimStatus = \<lparr>stm_Conditions = None, stm_ObservedGeneration = 0, stm_MatchedPods = None\<rparr>"

definition zero_OIDCShim :: "'x foreign \<Rightarrow> 'x OIDCShim_m" where
  "zero_OIDCShim fo =
     \<lparr>osm_TypeMeta = \<lparr>tm_Kind = [], tm_APIVersion = []\<rparr>, osm_ObjectMeta = fo_zero fo,
      osm_Spec = zero_OIDCShimSpec, osm_Status = zero_OIDCShimStatus\<rparr>"

definition zero_ClusterOIDCShim :: "'x foreign \<Rightarrow> 'x ClusterOIDCShim_m" where
  "zero_ClusterOIDCShim fo =
     \<lparr>csm_TypeMeta = \<lparr>tm_Kind = [], tm_APIVersion = []\<rparr>, csm_ObjectMeta = fo_zero fo,
      csm_Spec = \<lparr>cosm_OIDCShimSpec = zero_OIDCShimSpec, cosm_ConfigMapNamespace = []\<rparr>, csm_Status = zero_OIDCShimStatus\<rparr>"

definition OIDCShimList_DeepCopyInto :: "'x foreign \<Rightarrow> 'x mem \<Rightarrow> 'x OIDCShimList_m \<Rightarrow> 'x mem \<times> 'x OIDCShimList_m" where
  "OIDCShimList_DeepCopyInto fo h s =
     (case ops_copy (fo_ListMeta fo) h (olm_ListMeta s) of (h1, meta) \<Rightarrow>
     (case make_copy as_shims CShims (zero_OIDCShim fo) (OIDCShim_DeepCopyInto fo) h1 (olm_Items s) of (h2, items) \<Rightarrow>
        (h2, s\<lparr>olm_TypeMeta := olm_TypeMeta s, olm_ListMeta := meta, olm_Items := items\<rparr>)))"

definition ClusterOIDCShimList_DeepCopyInto ::
  "'x foreign \<Rightarrow> 'x mem \<Rightarrow> 'x ClusterOIDCShimList_m \<Rightarrow> 'x mem \<times> 'x ClusterOIDCShimList_m" where
  "ClusterOIDCShimList_DeepCopyInto fo h s =
     (case ops_copy (fo_ListMeta fo) h (clm_ListMeta s) of (h1, meta) \<Rightarrow>
     (case make_copy as_cluster_shims CClusterShims (zero_ClusterOIDCShim fo) (ClusterOIDCShim_DeepCopyInto fo) h1
             (clm_Items s) of (h2, items) \<Rightarrow>
        (h2, s\<lparr>clm_TypeMeta := clm_TypeMeta s, clm_ListMeta := meta, clm_Items := items\<rparr>)))"

section \<open>DeepCopy and DeepCopyObject\<close>

definition ConfigMapKeySelector_DeepCopy :: "'x mem \<Rightarrow> ptr \<Rightarrow> 'x mem \<times> ptr" where
  "ConfigMapKeySelector_DeepCopy h p = new_copy as_ConfigMapKeySelector CConfigMapKeySelector ConfigMapKeySelector_DeepCopyInto h p"

definition EnvVar_DeepCopy :: "'x mem \<Rightarrow> ptr \<Rightarrow> 'x mem \<times> ptr" where
  "EnvVar_DeepCopy h p = new_copy as_EnvVar CEnvVar EnvVar_DeepCopyInto h p"

definition FileSpec_DeepCopy :: "'x mem \<Rightarrow> ptr \<Rightarrow> 'x mem \<times> ptr" where
  "FileSpec_DeepCopy h p = new_copy as_FileSpec CFileSpec FileSpec_DeepCopyInto h p"

definition SPIFFESpec_DeepCopy :: "'x mem \<Rightarrow> ptr \<Rightarrow> 'x mem \<times> ptr" where
  "SPIFFESpec_DeepCopy h p = new_copy as_SPIFFESpec CSPIFFESpec SPIFFESpec_DeepCopyInto h p"

definition TokenSpec_DeepCopy :: "'x mem \<Rightarrow> ptr \<Rightarrow> 'x mem \<times> ptr" where
  "TokenSpec_DeepCopy h p = new_copy as_TokenSpec CTokenSpec TokenSpec_DeepCopyInto h p"

definition EnrollmentSpec_DeepCopy :: "'x mem \<Rightarrow> ptr \<Rightarrow> 'x mem \<times> ptr" where
  "EnrollmentSpec_DeepCopy h p = new_copy as_EnrollmentSpec CEnrollmentSpec EnrollmentSpec_DeepCopyInto h p"

definition SelectionSpec_DeepCopy :: "'x foreign \<Rightarrow> 'x mem \<Rightarrow> ptr \<Rightarrow> 'x mem \<times> ptr" where
  "SelectionSpec_DeepCopy fo h p = new_copy as_SelectionSpec CSelectionSpec (SelectionSpec_DeepCopyInto fo) h p"

definition ParameterSource_DeepCopy :: "'x mem \<Rightarrow> ptr \<Rightarrow> 'x mem \<times> ptr" where
  "ParameterSource_DeepCopy h p = new_copy as_ParameterSource CParameterSource ParameterSource_DeepCopyInto h p"

definition Parameter_DeepCopy :: "'x mem \<Rightarrow> ptr \<Rightarrow> 'x mem \<times> ptr" where
  "Parameter_DeepCopy h p = new_copy as_Parameter CParameter Parameter_DeepCopyInto h p"

definition InjectSpec_DeepCopy :: "'x mem \<Rightarrow> ptr \<Rightarrow> 'x mem \<times> ptr" where
  "InjectSpec_DeepCopy h p = new_copy as_InjectSpec CInjectSpec InjectSpec_DeepCopyInto h p"

definition HelperSpec_DeepCopy :: "'x foreign \<Rightarrow> 'x mem \<Rightarrow> ptr \<Rightarrow> 'x mem \<times> ptr" where
  "HelperSpec_DeepCopy fo h p = new_copy as_HelperSpec CHelperSpec (HelperSpec_DeepCopyInto fo) h p"

definition OIDCShimSpec_DeepCopy :: "'x foreign \<Rightarrow> 'x mem \<Rightarrow> ptr \<Rightarrow> 'x mem \<times> ptr" where
  "OIDCShimSpec_DeepCopy fo h p = new_copy as_OIDCShimSpec COIDCShimSpec (OIDCShimSpec_DeepCopyInto fo) h p"

definition OIDCShimStatus_DeepCopy :: "'x foreign \<Rightarrow> 'x mem \<Rightarrow> ptr \<Rightarrow> 'x mem \<times> ptr" where
  "OIDCShimStatus_DeepCopy fo h p = new_copy as_OIDCShimStatus COIDCShimStatus (OIDCShimStatus_DeepCopyInto fo) h p"

definition ClusterOIDCShimSpec_DeepCopy :: "'x foreign \<Rightarrow> 'x mem \<Rightarrow> ptr \<Rightarrow> 'x mem \<times> ptr" where
  "ClusterOIDCShimSpec_DeepCopy fo h p = new_copy as_ClusterOIDCShimSpec CClusterOIDCShimSpec (ClusterOIDCShimSpec_DeepCopyInto fo) h p"

definition OIDCShim_DeepCopy :: "'x foreign \<Rightarrow> 'x mem \<Rightarrow> ptr \<Rightarrow> 'x mem \<times> ptr" where
  "OIDCShim_DeepCopy fo h p = new_copy as_OIDCShim COIDCShim (OIDCShim_DeepCopyInto fo) h p"

definition ClusterOIDCShim_DeepCopy :: "'x foreign \<Rightarrow> 'x mem \<Rightarrow> ptr \<Rightarrow> 'x mem \<times> ptr" where
  "ClusterOIDCShim_DeepCopy fo h p = new_copy as_ClusterOIDCShim CClusterOIDCShim (ClusterOIDCShim_DeepCopyInto fo) h p"

definition OIDCShimList_DeepCopy :: "'x foreign \<Rightarrow> 'x mem \<Rightarrow> ptr \<Rightarrow> 'x mem \<times> ptr" where
  "OIDCShimList_DeepCopy fo h p = new_copy as_OIDCShimList COIDCShimList (OIDCShimList_DeepCopyInto fo) h p"

definition ClusterOIDCShimList_DeepCopy :: "'x foreign \<Rightarrow> 'x mem \<Rightarrow> ptr \<Rightarrow> 'x mem \<times> ptr" where
  "ClusterOIDCShimList_DeepCopy fo h p = new_copy as_ClusterOIDCShimList CClusterOIDCShimList (ClusterOIDCShimList_DeepCopyInto fo) h p"

text \<open>
  \<open>DeepCopyObject\<close> returns the copy as an interface value, and a nil pointer as a nil interface rather than as
  an interface that holds a nil pointer.
\<close>

datatype runtime_object = ObjOIDCShim ptr | ObjOIDCShimList ptr | ObjClusterOIDCShim ptr | ObjClusterOIDCShimList ptr

definition OIDCShim_DeepCopyObject :: "'x foreign \<Rightarrow> 'x mem \<Rightarrow> ptr \<Rightarrow> 'x mem \<times> runtime_object option" where
  "OIDCShim_DeepCopyObject fo h p =
     (case OIDCShim_DeepCopy fo h p of (h', c) \<Rightarrow> (h', if c \<noteq> None then Some (ObjOIDCShim c) else None))"

definition ClusterOIDCShim_DeepCopyObject :: "'x foreign \<Rightarrow> 'x mem \<Rightarrow> ptr \<Rightarrow> 'x mem \<times> runtime_object option" where
  "ClusterOIDCShim_DeepCopyObject fo h p =
     (case ClusterOIDCShim_DeepCopy fo h p of (h', c) \<Rightarrow> (h', if c \<noteq> None then Some (ObjClusterOIDCShim c) else None))"

definition OIDCShimList_DeepCopyObject :: "'x foreign \<Rightarrow> 'x mem \<Rightarrow> ptr \<Rightarrow> 'x mem \<times> runtime_object option" where
  "OIDCShimList_DeepCopyObject fo h p =
     (case OIDCShimList_DeepCopy fo h p of (h', c) \<Rightarrow> (h', if c \<noteq> None then Some (ObjOIDCShimList c) else None))"

definition ClusterOIDCShimList_DeepCopyObject :: "'x foreign \<Rightarrow> 'x mem \<Rightarrow> ptr \<Rightarrow> 'x mem \<times> runtime_object option" where
  "ClusterOIDCShimList_DeepCopyObject fo h p =
     (case ClusterOIDCShimList_DeepCopy fo h p of (h', c) \<Rightarrow> (h', if c \<noteq> None then Some (ObjClusterOIDCShimList c) else None))"

end
