(* ===== verification/DeepCopyCorrect.thy ===== *)
theory DeepCopyCorrect
  imports DeepCopy
begin

text \<open>
  The deep copies of \<open>DeepCopy\<close> meet the contract \<open>deep_copier\<close>, one lemma per type, each from those of the
  types of its fields; and the properties of the copies of whole objects.
\<close>

section \<open>Every type is copied deeply\<close>

lemma as_simps [simp]:
  "as_bool (CBool b) = Some b" "as_string (CString t) = Some t" "as_int32 (CInt32 n) = Some n"
  "as_strings (CStrings ts) = Some ts" "as_envs (CEnvVars es) = Some es" "as_files (CFiles fs) = Some fs"
  "as_parameters (CParameters ps) = Some ps" "as_conditions (CConditions cs) = Some cs" "as_foreign (CForeign x) = Some x"
  "as_shims (CShims ss) = Some ss" "as_cluster_shims (CClusterShims cs') = Some cs'"
  "as_ConfigMapKeySelector (CConfigMapKeySelector k) = Some k" "as_EnrollmentSpec (CEnrollmentSpec en) = Some en"
  "as_HelperSpec (CHelperSpec hs) = Some hs" "as_SPIFFESpec (CSPIFFESpec sp) = Some sp"
  "as_OIDCShimStatus (COIDCShimStatus st) = Some st" "as_OIDCShim (COIDCShim sh) = Some sh"
  "as_ClusterOIDCShim (CClusterOIDCShim csh) = Some csh" "as_OIDCShimList (COIDCShimList ol) = Some ol"
  "as_ClusterOIDCShimList (CClusterOIDCShimList cl) = Some cl"
  by (simp_all add: as_defs)

lemmas flat_ptr =
  deep_copier.ptr_copier [OF flat_copier, of as_bool CBool, OF as_simps(1)]
  deep_copier.ptr_copier [OF flat_copier, of as_string CString, OF as_simps(2)]
  deep_copier.ptr_copier [OF flat_copier, of as_int32 CInt32, OF as_simps(3)]
  deep_copier.ptr_copier [OF flat_copier, of as_ConfigMapKeySelector CConfigMapKeySelector, OF as_simps(12)]
  deep_copier.ptr_copier [OF flat_copier, of as_SPIFFESpec CSPIFFESpec, OF as_simps(15)]

lemmas flat_slice =
  deep_copier.slice_copier [OF flat_copier, of as_strings CStrings "[]", OF as_simps(4)]
  deep_copier.slice_copier [OF flat_copier, of as_envs CEnvVars zero_EnvVar, OF as_simps(5)]
  deep_copier.slice_copier [OF flat_copier, of as_files CFiles zero_FileSpec, OF as_simps(6)]

lemma EnrollmentSpec_copier:
  "deep_copier EnrollmentSpec_value EnrollmentSpec_foot EnrollmentSpec_DeepCopyInto"
  by (rule deep_copier.struct_copier
      [OF pair_copier [OF flat_ptr(1) pair_copier [OF flat_ptr(1) flat_ptr(1)]],
       where get = "\<lambda>s. (enm_Namespaces s, enm_ServiceAccounts s, enm_Pods s)"
       and put = "\<lambda>(a, b, c) s. s\<lparr>enm_Namespaces := a, enm_ServiceAccounts := b, enm_Pods := c\<rparr>"
       and build = "\<lambda>s (a, b, c). \<lparr>en_Namespaces = a, en_ServiceAccounts = b, en_Pods = c\<rparr>"])
    (auto simp: EnrollmentSpec_value_def EnrollmentSpec_foot_def EnrollmentSpec_DeepCopyInto_def pair_defs
      split: prod.split bind_splits)

lemma ParameterSource_copier:
  "deep_copier ParameterSource_value ParameterSource_foot ParameterSource_DeepCopyInto"
  by (rule deep_copier.struct_copier
      [OF pair_copier [OF flat_ptr(2) flat_ptr(4)],
       where get = "\<lambda>s. (srcm_Static s, srcm_ConfigMapKeyRef s)"
       and put = "\<lambda>(a, b) s. s\<lparr>srcm_Static := a, srcm_ConfigMapKeyRef := b\<rparr>"
       and build = "\<lambda>s (a, b). \<lparr>src_Static = a, src_Annotation = srcm_Annotation s, src_Label = srcm_Label s,
         src_ConfigMapKeyRef = b, src_Template = srcm_Template s\<rparr>"])
    (auto simp: ParameterSource_value_def ParameterSource_foot_def ParameterSource_DeepCopyInto_def pair_defs
      split: prod.split bind_splits)

lemma Parameter_copier:
  "deep_copier Parameter_value Parameter_foot Parameter_DeepCopyInto"
  by (rule deep_copier.struct_copier
      [OF pair_copier [OF ParameterSource_copier flat_ptr(2)],
       where get = "\<lambda>s. (parm_ValueFrom s, parm_Default s)"
       and put = "\<lambda>(a, b) s. s\<lparr>parm_ValueFrom := a, parm_Default := b\<rparr>"
       and build = "\<lambda>s (a, b). \<lparr>par_Name = parm_Name s, par_ValueFrom = a, par_Default = b, par_Required = parm_Required s\<rparr>"])
    (auto simp: Parameter_value_def Parameter_foot_def Parameter_DeepCopyInto_def pair_defs
      split: prod.split bind_splits)

lemma InjectSpec_copier:
  "deep_copier InjectSpec_value InjectSpec_foot InjectSpec_DeepCopyInto"
  by (rule deep_copier.struct_copier
      [OF pair_copier [OF flat_slice(2) pair_copier [OF flat_slice(3) flat_slice(1)]],
       where get = "\<lambda>s. (injm_Env s, injm_Files s, injm_Containers s)"
       and put = "\<lambda>(a, b, c) s. s\<lparr>injm_Env := a, injm_Files := b, injm_Containers := c\<rparr>"
       and build = "\<lambda>s (a, b, c). \<lparr>inj_Env = a, inj_Files = b, inj_Containers = c\<rparr>"])
    (auto simp: InjectSpec_value_def InjectSpec_foot_def InjectSpec_DeepCopyInto_def pair_defs
      split: prod.split bind_splits)

lemma foreign_copiers:
  assumes "foreign_ok fo"
  shows "deep_copier (ops_value (fo_Condition fo)) (ops_foot (fo_Condition fo)) (ops_copy (fo_Condition fo))"
    "deep_copier (ops_value (fo_ObjectMeta fo)) (ops_foot (fo_ObjectMeta fo)) (ops_copy (fo_ObjectMeta fo))"
    "deep_copier (ops_value (fo_ListMeta fo)) (ops_foot (fo_ListMeta fo)) (ops_copy (fo_ListMeta fo))"
    "deep_copier (ptr_value as_foreign (ops_value (fo_LabelSelector fo))) (ptr_foot as_foreign (ops_foot (fo_LabelSelector fo)))
       (new_copy as_foreign CForeign (ops_copy (fo_LabelSelector fo)))"
    "deep_copier (ptr_value as_foreign (ops_value (fo_ResourceRequirements fo)))
       (ptr_foot as_foreign (ops_foot (fo_ResourceRequirements fo)))
       (new_copy as_foreign CForeign (ops_copy (fo_ResourceRequirements fo)))"
    "deep_copier (ptr_value as_foreign (ops_value (fo_SecurityContext fo)))
       (ptr_foot as_foreign (ops_foot (fo_SecurityContext fo)))
       (new_copy as_foreign CForeign (ops_copy (fo_SecurityContext fo)))"
  using assms by (auto simp: foreign_ok_def ops_ok_def intro: deep_copier.ptr_copier)

lemmas EnrollmentSpec_ptr = deep_copier.ptr_copier [OF EnrollmentSpec_copier, of as_EnrollmentSpec CEnrollmentSpec, OF as_simps(13)]
lemmas Parameter_slice = deep_copier.slice_copier [OF Parameter_copier, of as_parameters CParameters zero_Parameter, OF as_simps(7)]

lemma SelectionSpec_copier:
  "foreign_ok fo \<Longrightarrow> deep_copier (SelectionSpec_value fo) (SelectionSpec_foot fo) (SelectionSpec_DeepCopyInto fo)"
  by (rule deep_copier.struct_copier
      [OF pair_copier [OF EnrollmentSpec_ptr pair_copier [OF foreign_copiers(4) pair_copier
         [OF foreign_copiers(4) foreign_copiers(4)]]],
       where get = "\<lambda>s. (selm_Enrollment s, selm_NamespaceSelector s, selm_ServiceAccountSelector s, selm_PodSelector s)"
       and put = "\<lambda>(a, b, c, d) s. s\<lparr>selm_Enrollment := a, selm_NamespaceSelector := b,
         selm_ServiceAccountSelector := c, selm_PodSelector := d\<rparr>"
       and build = "\<lambda>s (a, b, c, d). \<lparr>sel_Enrollment = a, sel_NamespaceSelector = b,
         sel_ServiceAccountSelector = c, sel_PodSelector = d\<rparr>"])
    (auto simp: SelectionSpec_value_def SelectionSpec_foot_def SelectionSpec_DeepCopyInto_def pair_defs
      split: prod.split bind_splits)

lemma HelperSpec_copier:
  "foreign_ok fo \<Longrightarrow> deep_copier (HelperSpec_value fo) (HelperSpec_foot fo) (HelperSpec_DeepCopyInto fo)"
  by (rule deep_copier.struct_copier
      [OF pair_copier [OF foreign_copiers(5) foreign_copiers(6)],
       where get = "\<lambda>s. (hm_Resources s, hm_SecurityContext s)"
       and put = "\<lambda>(a, b) s. s\<lparr>hm_Resources := a, hm_SecurityContext := b\<rparr>"
       and build = "\<lambda>s (a, b). \<lparr>h_Image = hm_Image s, h_ImagePullPolicy = hm_ImagePullPolicy s,
         h_Resources = a, h_SecurityContext = b\<rparr>"])
    (auto simp: HelperSpec_value_def HelperSpec_foot_def HelperSpec_DeepCopyInto_def pair_defs
      split: prod.split bind_splits)

lemma HelperSpec_ptr:
  "foreign_ok fo \<Longrightarrow> deep_copier (ptr_value as_HelperSpec (HelperSpec_value fo)) (ptr_foot as_HelperSpec (HelperSpec_foot fo))
     (new_copy as_HelperSpec CHelperSpec (HelperSpec_DeepCopyInto fo))"
  by (rule deep_copier.ptr_copier [OF HelperSpec_copier]) simp_all

lemma Condition_slice:
  "foreign_ok fo \<Longrightarrow> deep_copier (slice_value as_conditions (ops_value (fo_Condition fo)))
     (slice_foot as_conditions (ops_foot (fo_Condition fo)))
     (make_copy as_conditions CConditions (fo_zero fo) (ops_copy (fo_Condition fo)))"
  by (rule deep_copier.slice_copier [OF foreign_copiers(1)]) simp_all

lemma OIDCShimSpec_copier:
  "foreign_ok fo \<Longrightarrow> deep_copier (OIDCShimSpec_value fo) (OIDCShimSpec_foot fo) (OIDCShimSpec_DeepCopyInto fo)"
  by (rule deep_copier.struct_copier
      [OF pair_copier [OF SelectionSpec_copier pair_copier [OF Parameter_slice pair_copier [OF flat_slice(1)
         pair_copier [OF InjectSpec_copier pair_copier [OF flat_ptr(5) HelperSpec_ptr]]]]],
       where get = "\<lambda>s. (specm_Selection s, specm_Parameters s, specm_ExtraAudiences s, specm_Inject s, specm_SPIFFE s, specm_Helper s)"
       and put = "\<lambda>(a, b, c, d, e, f) s. s\<lparr>specm_Selection := a, specm_Parameters := b, specm_ExtraAudiences := c,
         specm_Token := specm_Token s, specm_Inject := d, specm_SPIFFE := e, specm_Helper := f\<rparr>"
       and build = "\<lambda>s (a, b, c, d, e, f). \<lparr>spec_Provider = specm_Provider s, spec_Selection = a, spec_Parameters = b,
         spec_Audience = specm_Audience s, spec_ExtraAudiences = c, spec_Token = specm_Token s,
         spec_Inject = d, spec_SPIFFE = e, spec_Helper = f\<rparr>"])
    (auto simp: OIDCShimSpec_value_def OIDCShimSpec_foot_def OIDCShimSpec_DeepCopyInto_def pair_defs
      split: prod.split bind_splits)

lemma OIDCShimStatus_copier:
  "foreign_ok fo \<Longrightarrow> deep_copier (OIDCShimStatus_value fo) (OIDCShimStatus_foot fo) (OIDCShimStatus_DeepCopyInto fo)"
  by (rule deep_copier.struct_copier
      [OF pair_copier [OF Condition_slice flat_ptr(3)],
       where get = "\<lambda>s. (stm_Conditions s, stm_MatchedPods s)"
       and put = "\<lambda>(a, b) s. s\<lparr>stm_Conditions := a, stm_MatchedPods := b\<rparr>"
       and build = "\<lambda>s (a, b). \<lparr>st_Conditions = a, st_ObservedGeneration = stm_ObservedGeneration s, st_MatchedPods = b\<rparr>"])
    (auto simp: OIDCShimStatus_value_def OIDCShimStatus_foot_def OIDCShimStatus_DeepCopyInto_def pair_defs
      split: prod.split bind_splits)

lemma ClusterOIDCShimSpec_copier:
  "foreign_ok fo \<Longrightarrow> deep_copier (ClusterOIDCShimSpec_value fo) (ClusterOIDCShimSpec_foot fo) (ClusterOIDCShimSpec_DeepCopyInto fo)"
  by (rule deep_copier.struct_copier
      [OF OIDCShimSpec_copier,
       where get = "cosm_OIDCShimSpec"
       and put = "\<lambda>a s. s\<lparr>cosm_OIDCShimSpec := a\<rparr>"
       and build = "\<lambda>s a. \<lparr>cos_OIDCShimSpec = a, cos_ConfigMapNamespace = cosm_ConfigMapNamespace s\<rparr>"])
    (auto simp: ClusterOIDCShimSpec_value_def ClusterOIDCShimSpec_foot_def ClusterOIDCShimSpec_DeepCopyInto_def pair_defs
      split: prod.split bind_splits)

lemma OIDCShim_copier:
  "foreign_ok fo \<Longrightarrow> deep_copier (OIDCShim_value fo) (OIDCShim_foot fo) (OIDCShim_DeepCopyInto fo)"
  by (rule deep_copier.struct_copier
      [OF pair_copier [OF foreign_copiers(2) pair_copier [OF OIDCShimSpec_copier OIDCShimStatus_copier]],
       where get = "\<lambda>s. (osm_ObjectMeta s, osm_Spec s, osm_Status s)"
       and put = "\<lambda>(a, b, c) s. s\<lparr>osm_TypeMeta := osm_TypeMeta s, osm_ObjectMeta := a, osm_Spec := b, osm_Status := c\<rparr>"
       and build = "\<lambda>s (a, b, c). (osm_TypeMeta s, a, b, c)"])
    (auto simp: OIDCShim_value_def OIDCShim_foot_def OIDCShim_DeepCopyInto_def pair_defs
      split: prod.split bind_splits)

lemma ClusterOIDCShim_copier:
  "foreign_ok fo \<Longrightarrow> deep_copier (ClusterOIDCShim_value fo) (ClusterOIDCShim_foot fo) (ClusterOIDCShim_DeepCopyInto fo)"
  by (rule deep_copier.struct_copier
      [OF pair_copier [OF foreign_copiers(2) pair_copier [OF ClusterOIDCShimSpec_copier OIDCShimStatus_copier]],
       where get = "\<lambda>s. (csm_ObjectMeta s, csm_Spec s, csm_Status s)"
       and put = "\<lambda>(a, b, c) s. s\<lparr>csm_TypeMeta := csm_TypeMeta s, csm_ObjectMeta := a, csm_Spec := b, csm_Status := c\<rparr>"
       and build = "\<lambda>s (a, b, c). (csm_TypeMeta s, a, b, c)"])
    (auto simp: ClusterOIDCShim_value_def ClusterOIDCShim_foot_def ClusterOIDCShim_DeepCopyInto_def pair_defs
      split: prod.split bind_splits)

lemma OIDCShim_slice:
  "foreign_ok fo \<Longrightarrow> deep_copier (slice_value as_shims (OIDCShim_value fo)) (slice_foot as_shims (OIDCShim_foot fo))
     (make_copy as_shims CShims (zero_OIDCShim fo) (OIDCShim_DeepCopyInto fo))"
  by (rule deep_copier.slice_copier [OF OIDCShim_copier]) simp_all

lemma OIDCShimList_copier:
  "foreign_ok fo \<Longrightarrow> deep_copier (OIDCShimList_value fo) (OIDCShimList_foot fo) (OIDCShimList_DeepCopyInto fo)"
  by (rule deep_copier.struct_copier
      [OF pair_copier [OF foreign_copiers(3) OIDCShim_slice],
       where get = "\<lambda>s. (olm_ListMeta s, olm_Items s)"
       and put = "\<lambda>(a, b) s. s\<lparr>olm_TypeMeta := olm_TypeMeta s, olm_ListMeta := a, olm_Items := b\<rparr>"
       and build = "\<lambda>s (a, b). (olm_TypeMeta s, a, b)"])
    (auto simp: OIDCShimList_value_def OIDCShimList_foot_def OIDCShimList_DeepCopyInto_def pair_defs
      split: prod.split bind_splits)

lemma ClusterOIDCShim_slice:
  "foreign_ok fo \<Longrightarrow> deep_copier (slice_value as_cluster_shims (ClusterOIDCShim_value fo)) (slice_foot as_cluster_shims (ClusterOIDCShim_foot fo))
     (make_copy as_cluster_shims CClusterShims (zero_ClusterOIDCShim fo) (ClusterOIDCShim_DeepCopyInto fo))"
  by (rule deep_copier.slice_copier [OF ClusterOIDCShim_copier]) simp_all

lemma ClusterOIDCShimList_copier:
  "foreign_ok fo \<Longrightarrow> deep_copier (ClusterOIDCShimList_value fo) (ClusterOIDCShimList_foot fo) (ClusterOIDCShimList_DeepCopyInto fo)"
  by (rule deep_copier.struct_copier
      [OF pair_copier [OF foreign_copiers(3) ClusterOIDCShim_slice],
       where get = "\<lambda>s. (clm_ListMeta s, clm_Items s)"
       and put = "\<lambda>(a, b) s. s\<lparr>clm_TypeMeta := clm_TypeMeta s, clm_ListMeta := a, clm_Items := b\<rparr>"
       and build = "\<lambda>s (a, b). (clm_TypeMeta s, a, b)"])
    (auto simp: ClusterOIDCShimList_value_def ClusterOIDCShimList_foot_def ClusterOIDCShimList_DeepCopyInto_def pair_defs
      split: prod.split bind_splits)

interpretation en: deep_copier EnrollmentSpec_value EnrollmentSpec_foot EnrollmentSpec_DeepCopyInto
  by (rule EnrollmentSpec_copier)

interpretation par: deep_copier Parameter_value Parameter_foot Parameter_DeepCopyInto
  by (rule Parameter_copier)

interpretation ins: deep_copier InjectSpec_value InjectSpec_foot InjectSpec_DeepCopyInto
  by (rule InjectSpec_copier)

section \<open>Objects behind the interface\<close>

text \<open>
  An object as the clients of \<open>runtime.Object\<close> see it: its dynamic type decides which methods are called.
\<close>

datatype object_val =
    VOIDCShim "OIDCShimSpec object_value"
  | VClusterOIDCShim "ClusterOIDCShimSpec object_value"
  | VOIDCShimList "TypeMeta \<times> string \<times> OIDCShimSpec object_value list"
  | VClusterOIDCShimList "TypeMeta \<times> string \<times> ClusterOIDCShimSpec object_value list"

fun object_value :: "'x foreign \<Rightarrow> 'x mem \<Rightarrow> runtime_object \<Rightarrow> object_val option option" where
  "object_value fo h (ObjOIDCShim p) = map_option (map_option VOIDCShim) (ptr_value as_OIDCShim (OIDCShim_value fo) h p)"
| "object_value fo h (ObjClusterOIDCShim p) =
     map_option (map_option VClusterOIDCShim) (ptr_value as_ClusterOIDCShim (ClusterOIDCShim_value fo) h p)"
| "object_value fo h (ObjOIDCShimList p) =
     map_option (map_option VOIDCShimList) (ptr_value as_OIDCShimList (OIDCShimList_value fo) h p)"
| "object_value fo h (ObjClusterOIDCShimList p) =
     map_option (map_option VClusterOIDCShimList) (ptr_value as_ClusterOIDCShimList (ClusterOIDCShimList_value fo) h p)"

fun object_foot :: "'x foreign \<Rightarrow> 'x mem \<Rightarrow> runtime_object \<Rightarrow> addr set" where
  "object_foot fo h (ObjOIDCShim p) = ptr_foot as_OIDCShim (OIDCShim_foot fo) h p"
| "object_foot fo h (ObjClusterOIDCShim p) = ptr_foot as_ClusterOIDCShim (ClusterOIDCShim_foot fo) h p"
| "object_foot fo h (ObjOIDCShimList p) = ptr_foot as_OIDCShimList (OIDCShimList_foot fo) h p"
| "object_foot fo h (ObjClusterOIDCShimList p) = ptr_foot as_ClusterOIDCShimList (ClusterOIDCShimList_foot fo) h p"

fun DeepCopyObject :: "'x foreign \<Rightarrow> 'x mem \<Rightarrow> runtime_object \<Rightarrow> 'x mem \<times> runtime_object option" where
  "DeepCopyObject fo h (ObjOIDCShim p) = OIDCShim_DeepCopyObject fo h p"
| "DeepCopyObject fo h (ObjClusterOIDCShim p) = ClusterOIDCShim_DeepCopyObject fo h p"
| "DeepCopyObject fo h (ObjOIDCShimList p) = OIDCShimList_DeepCopyObject fo h p"
| "DeepCopyObject fo h (ObjClusterOIDCShimList p) = ClusterOIDCShimList_DeepCopyObject fo h p"

text \<open>What a copy guarantees, whatever is written to memory afterwards.\<close>

definition independent_copy ::
  "('c list \<Rightarrow> 'a \<Rightarrow> 'v option) \<Rightarrow> ('c list \<Rightarrow> 'a \<Rightarrow> addr set) \<Rightarrow> 'c list \<Rightarrow> 'a \<Rightarrow> 'c list \<Rightarrow> 'a \<Rightarrow> bool" where
  "independent_copy val foot h x h' x' \<longleftrightarrow>
     prefix h h' \<and> val h' x' = val h x \<and> foot h' x \<inter> foot h' x' = {} \<and>
     (\<forall>h''. agree h' h'' ({..<length h'} - foot h' x) \<longrightarrow> val h'' x' = val h x) \<and>
     (\<forall>h''. agree h' h'' ({..<length h'} - foot h' x') \<longrightarrow> val h'' x = val h x)"

lemma independent_copyI:
  assumes "deep_copier val foot cp" "val h x = Some v" "cp h x = (h', x')"
  shows "independent_copy val foot h x h' x'"
  using deep_copier.independent [OF assms] deep_copier.copied [OF assms] assms(2)
  by (auto simp: independent_copy_def Diff_eq Int_commute)

lemma object_copies:
  assumes fo: "foreign_ok fo"
  shows "deep_copier (ptr_value as_OIDCShim (OIDCShim_value fo)) (ptr_foot as_OIDCShim (OIDCShim_foot fo)) (OIDCShim_DeepCopy fo)"
    "deep_copier (ptr_value as_ClusterOIDCShim (ClusterOIDCShim_value fo)) (ptr_foot as_ClusterOIDCShim (ClusterOIDCShim_foot fo))
       (ClusterOIDCShim_DeepCopy fo)"
    "deep_copier (ptr_value as_OIDCShimList (OIDCShimList_value fo)) (ptr_foot as_OIDCShimList (OIDCShimList_foot fo))
       (OIDCShimList_DeepCopy fo)"
    "deep_copier (ptr_value as_ClusterOIDCShimList (ClusterOIDCShimList_value fo))
       (ptr_foot as_ClusterOIDCShimList (ClusterOIDCShimList_foot fo)) (ClusterOIDCShimList_DeepCopy fo)"
  using fo unfolding OIDCShim_DeepCopy_def [abs_def] ClusterOIDCShim_DeepCopy_def [abs_def]
    OIDCShimList_DeepCopy_def [abs_def] ClusterOIDCShimList_DeepCopy_def [abs_def]
  by (auto intro!: deep_copier.ptr_copier OIDCShim_copier ClusterOIDCShim_copier OIDCShimList_copier ClusterOIDCShimList_copier)

text \<open>A copy of a pointer, seen through the constructor of the interface value that carries it.\<close>

definition boxed :: "(ptr \<Rightarrow> runtime_object) \<Rightarrow> 'x mem \<times> ptr \<Rightarrow> 'x mem \<times> runtime_object option" where
  "boxed K = (\<lambda>(h, c). (h, if c \<noteq> None then Some (K c) else None))"

lemma DeepCopyObject_boxed:
  "DeepCopyObject fo h (ObjOIDCShim p) = boxed ObjOIDCShim (OIDCShim_DeepCopy fo h p)"
  "DeepCopyObject fo h (ObjClusterOIDCShim p) = boxed ObjClusterOIDCShim (ClusterOIDCShim_DeepCopy fo h p)"
  "DeepCopyObject fo h (ObjOIDCShimList p) = boxed ObjOIDCShimList (OIDCShimList_DeepCopy fo h p)"
  "DeepCopyObject fo h (ObjClusterOIDCShimList p) = boxed ObjClusterOIDCShimList (ClusterOIDCShimList_DeepCopy fo h p)"
  by (simp_all add: boxed_def OIDCShim_DeepCopyObject_def ClusterOIDCShim_DeepCopyObject_def
      OIDCShimList_DeepCopyObject_def ClusterOIDCShimList_DeepCopyObject_def)

lemma DeepCopy_nil:
  "OIDCShim_DeepCopy fo h None = (h, None)" "ClusterOIDCShim_DeepCopy fo h None = (h, None)"
  "OIDCShimList_DeepCopy fo h None = (h, None)" "ClusterOIDCShimList_DeepCopy fo h None = (h, None)"
  by (simp_all add: new_copy_def OIDCShim_DeepCopy_def ClusterOIDCShim_DeepCopy_def OIDCShimList_DeepCopy_def
      ClusterOIDCShimList_DeepCopy_def)

lemma boxed_copy:
  assumes C: "deep_copier (ptr_value prj val) (ptr_foot prj foot) cp"
    and nil: "\<And>h. cp h None = (h, None)"
    and V: "\<And>h p. V h (K p) = map_option (map_option B) (ptr_value prj val h p)" "\<And>h p. F h (K p) = ptr_foot prj foot h p"
    and v: "V h (K p) = Some w" and c: "boxed K (cp h p) = (h', r)"
  shows "case w of
      None \<Rightarrow> r = None \<and> h' = h
    | Some v \<Rightarrow> \<exists>obj'. r = Some obj' \<and> independent_copy V F h (K p) h' obj'"
proof -
  obtain p' where p': "cp h p = (h', p')" "r = (if p' \<noteq> None then Some (K p') else None)"
    using c by (auto simp: boxed_def split: prod.splits)
  obtain u where u: "ptr_value prj val h p = Some u" "w = map_option B u" using v by (auto simp: V)
  have "ptr_value prj val h' p' = Some u" using deep_copier.copied [OF C u(1) p'(1)] by simp
  then have "p' = None \<longleftrightarrow> u = None" by (auto simp: ptr_value_Some)
  moreover have "independent_copy V F h (K p) h' (K p')"
    using independent_copyI [OF C u(1) p'(1)] by (simp add: independent_copy_def V)
  moreover have "p = None" if "u = None" using u(1) that by (auto simp: ptr_value_Some)
  ultimately show ?thesis using u(2) p' nil by (cases u) auto
qed

section \<open>A foreign package, in the small\<close>

text \<open>
  An instance of the parameters, in which a label selector holds a reference: its labels are a map behind
  a pointer. The other structs hold none.
\<close>

datatype sample_struct =
    SCondition Condition
  | SSelector ptr
  | SLabels smap
  | SResources ResourceRequirements
  | SSecurity SecurityContext
  | SMeta ObjectMeta
  | SListMeta string

definition sample_ops :: "(sample_struct \<Rightarrow> 'v option) \<Rightarrow> (sample_struct, 'v) ops" where
  "sample_ops prj = \<lparr>ops_value = (\<lambda>h. prj), ops_foot = flat_foot, ops_copy = flat_copy\<rparr>"

definition sample_labels :: "sample_struct \<Rightarrow> smap option" where
  "sample_labels x = (case x of SLabels m \<Rightarrow> Some m | _ \<Rightarrow> None)"

definition selector_ptr :: "sample_struct \<Rightarrow> ptr" where
  "selector_ptr x = (case x of SSelector p \<Rightarrow> p | _ \<Rightarrow> None)"

definition sample_selector :: "(sample_struct, LabelSelector) ops" where
  "sample_selector =
     \<lparr>ops_value = (\<lambda>h x. map_option
        (\<lambda>m. \<lparr>ls_MatchLabels = (case m of None \<Rightarrow> [] | Some ls \<Rightarrow> ls), ls_MatchExpressions = []\<rparr>)
        (ptr_value as_foreign (\<lambda>h. sample_labels) h (selector_ptr x))),
      ops_foot = (\<lambda>h x. ptr_foot as_foreign flat_foot h (selector_ptr x)),
      ops_copy = (\<lambda>h x. case new_copy as_foreign CForeign flat_copy h (selector_ptr x) of (h', p) \<Rightarrow> (h', SSelector p))\<rparr>"

definition sample_foreign :: "sample_struct foreign" where
  "sample_foreign =
     \<lparr>fo_Condition = sample_ops (\<lambda>x. case x of SCondition c \<Rightarrow> Some c | _ \<Rightarrow> None),
      fo_LabelSelector = sample_selector,
      fo_ResourceRequirements = sample_ops (\<lambda>x. case x of SResources r \<Rightarrow> Some r | _ \<Rightarrow> None),
      fo_SecurityContext = sample_ops (\<lambda>x. case x of SSecurity s \<Rightarrow> Some s | _ \<Rightarrow> None),
      fo_ObjectMeta = sample_ops (\<lambda>x. case x of SMeta m \<Rightarrow> Some m | _ \<Rightarrow> None),
      fo_ListMeta = sample_ops (\<lambda>x. case x of SListMeta m \<Rightarrow> Some m | _ \<Rightarrow> None),
      fo_zero = SListMeta []\<rparr>"

lemma sample_flat_copier: "deep_copier (\<lambda>h. prj) flat_foot flat_copy"
  by unfold_locales (auto simp: flat_foot_def flat_copy_def)

lemma sample_selector_ok: "ops_ok sample_selector"
  unfolding ops_ok_def
  by (rule deep_copier.struct_copier
      [OF deep_copier.ptr_copier [OF sample_flat_copier [where prj = sample_labels], of as_foreign CForeign, OF as_simps(9)],
       where get = selector_ptr and put = "\<lambda>p x. SSelector p"
       and build = "\<lambda>x m. \<lparr>ls_MatchLabels = (case m of None \<Rightarrow> [] | Some ls \<Rightarrow> ls), ls_MatchExpressions = []\<rparr>"])
    (simp_all add: sample_selector_def selector_ptr_def)

lemma sample_foreign_ok: "foreign_ok sample_foreign"
  using sample_selector_ok
  by (simp add: foreign_ok_def sample_foreign_def ops_ok_def sample_ops_def sample_flat_copier)

text \<open>
  A shim in memory: at 5, with a namespace selector (2, its labels at 0), a pod selector that shares those
  labels (3), extra audiences in the window from 1 of the array at 1, and a count at 4.
\<close>

definition sample_shim_m :: "sample_struct OIDCShim_m" where
  "sample_shim_m =
     (zero_OIDCShim sample_foreign)
       \<lparr>osm_ObjectMeta := SMeta \<lparr>om_Namespace = ''team'', om_Name = ''gcp'', om_Generation = 3, om_Rest = []\<rparr>,
        osm_Spec := zero_OIDCShimSpec
          \<lparr>specm_Selection := \<lparr>selm_Enrollment = None, selm_NamespaceSelector = Some 2,
             selm_ServiceAccountSelector = None, selm_PodSelector = Some 3\<rparr>,
           specm_ExtraAudiences := Some \<lparr>sl_Array = 1, sl_Offset = 1, sl_Len = 1\<rparr>\<rparr>,
        osm_Status := zero_OIDCShimStatus\<lparr>stm_MatchedPods := Some 4\<rparr>\<rparr>"

definition sample_mem :: "sample_struct mem" where
  "sample_mem =
     [CForeign (SLabels [(''env'', ''prod'')]), CStrings [''x'', ''aud''], CForeign (SSelector (Some 0)),
      CForeign (SSelector (Some 0)), CInt32 7, COIDCShim sample_shim_m]"

section \<open>Properties\<close>

text \<open>
  (C10) \<open>DeepCopyObject\<close> of any object of the group is an independent copy: of a nil pointer it returns a nil
  interface and touches nothing; otherwise it returns an object of the same dynamic type that
  reads as the original, having written only memory that was free before, and whatever is written
  later where one of the two reaches, through pointers and slices at any depth, the other one reads as before.
\<close>

theorem DeepCopyObject_deep:
  assumes "foreign_ok fo" "object_value fo h obj = Some w" "DeepCopyObject fo h obj = (h', r)"
  shows "case w of
      None \<Rightarrow> r = None \<and> h' = h
    | Some v \<Rightarrow> \<exists>obj'. r = Some obj' \<and> independent_copy (object_value fo) (object_foot fo) h obj h' obj'"
  using assms(2,3)
  by (cases obj; simp only: DeepCopyObject_boxed)
    (blast intro: boxed_copy [OF object_copies(1) [OF assms(1)] DeepCopy_nil(1) object_value.simps(1) object_foot.simps(1)]
      boxed_copy [OF object_copies(2) [OF assms(1)] DeepCopy_nil(2) object_value.simps(2) object_foot.simps(2)]
      boxed_copy [OF object_copies(3) [OF assms(1)] DeepCopy_nil(3) object_value.simps(3) object_foot.simps(3)]
      boxed_copy [OF object_copies(4) [OF assms(1)] DeepCopy_nil(4) object_value.simps(4) object_foot.simps(4)])+

text \<open>At the shim of \<open>sample_mem\<close>: the copy is at 6, in memory that the original does not reach.\<close>

theorem DeepCopyObject_deep_witness:
  "case DeepCopyObject sample_foreign sample_mem (ObjOIDCShim (Some 5)) of (h', r) \<Rightarrow>
     r = Some (ObjOIDCShim (Some 6)) \<and>
     independent_copy (object_value sample_foreign) (object_foot sample_foreign) sample_mem (ObjOIDCShim (Some 5)) h'
       (ObjOIDCShim (Some 6))"
proof -
  obtain h' r where c: "DeepCopyObject sample_foreign sample_mem (ObjOIDCShim (Some 5)) = (h', r)" by force
  have "case object_value sample_foreign sample_mem (ObjOIDCShim (Some 5)) of Some (Some v) \<Rightarrow> True | _ \<Rightarrow> False"
    by code_simp
  then obtain v where v: "object_value sample_foreign sample_mem (ObjOIDCShim (Some 5)) = Some (Some v)"
    by (auto split: option.splits)
  have "snd (DeepCopyObject sample_foreign sample_mem (ObjOIDCShim (Some 5))) = Some (ObjOIDCShim (Some 6))" by code_simp
  with DeepCopyObject_deep [OF sample_foreign_ok v c] c show ?thesis by simp
qed

end
