(* ===== verification/StatusMemory.thy ===== *)
theory StatusMemory
  imports DeepCopyCorrect Controller
begin

text \<open>
  \<open>reconcileShim\<close> (\<open>internal/controller/shim_reconcile.go\<close>) as it runs in memory. The function keeps
  \<open>before := status.DeepCopy()\<close>, writes through the pointer \<open>status\<close> into the object it was given, and at the
  end compares the two. The model of \<open>Controller\<close> works on values; here the object is in memory, its
  conditions are a slice that is changed in place, and the snapshot is the deep copy of \<open>DeepCopy\<close>. The
  refinement says that the two agree, so that the snapshot sees none of the writes, and that nothing
  outside the object is written, so that an object handed out by a cache as a deep copy leaves
  the cache as it was.
\<close>

section \<open>Shims in memory\<close>

datatype shim_ref = RefOIDCShim addr | RefClusterOIDCShim addr

fun ref_addr :: "shim_ref \<Rightarrow> addr" where
  "ref_addr (RefOIDCShim a) = a"
| "ref_addr (RefClusterOIDCShim a) = a"

text \<open>What a shim in memory says apart from its status, as a function of the status.\<close>

fun rest_value :: "'x foreign \<Rightarrow> 'x mem \<Rightarrow> shim_ref \<Rightarrow> (OIDCShimStatus \<Rightarrow> Shim) option" where
  "rest_value fo h (RefOIDCShim a) =
     do {
       s \<leftarrow> load as_OIDCShim h a;
       meta \<leftarrow> ops_value (fo_ObjectMeta fo) h (osm_ObjectMeta s);
       spec \<leftarrow> OIDCShimSpec_value fo h (osm_Spec s);
       Some (\<lambda>st. Namespaced \<lparr>os_Namespace = om_Namespace meta, os_Name = om_Name meta,
         os_Generation = om_Generation meta, os_Spec = spec, os_Status = st\<rparr>)
     }"
| "rest_value fo h (RefClusterOIDCShim a) =
     do {
       s \<leftarrow> load as_ClusterOIDCShim h a;
       meta \<leftarrow> ops_value (fo_ObjectMeta fo) h (csm_ObjectMeta s);
       spec \<leftarrow> ClusterOIDCShimSpec_value fo h (csm_Spec s);
       Some (\<lambda>st. ClusterScoped \<lparr>cs_Name = om_Name meta, cs_Generation = om_Generation meta,
         cs_Spec = spec, cs_Status = st\<rparr>)
     }"

text \<open>\<open>ShimStatus()\<close> returns a pointer into the object; reading and writing through it:\<close>

fun status_at :: "'x mem \<Rightarrow> shim_ref \<Rightarrow> OIDCShimStatus_m option" where
  "status_at h (RefOIDCShim a) = map_option osm_Status (load as_OIDCShim h a)"
| "status_at h (RefClusterOIDCShim a) = map_option csm_Status (load as_ClusterOIDCShim h a)"

fun modify_status :: "'x mem \<Rightarrow> shim_ref \<Rightarrow> (OIDCShimStatus_m \<Rightarrow> OIDCShimStatus_m) \<Rightarrow> 'x mem" where
  "modify_status h (RefOIDCShim a) f =
     (case load as_OIDCShim h a of
        None \<Rightarrow> h
      | Some s \<Rightarrow> h[a := COIDCShim (s\<lparr>osm_Status := f (osm_Status s)\<rparr>)])"
| "modify_status h (RefClusterOIDCShim a) f =
     (case load as_ClusterOIDCShim h a of
        None \<Rightarrow> h
      | Some s \<Rightarrow> h[a := CClusterOIDCShim (s\<lparr>csm_Status := f (csm_Status s)\<rparr>)])"

definition read_shim :: "'x foreign \<Rightarrow> 'x mem \<Rightarrow> shim_ref \<Rightarrow> Shim option" where
  "read_shim fo h r =
     do {
       mk \<leftarrow> rest_value fo h r;
       st \<leftarrow> status_at h r;
       v \<leftarrow> OIDCShimStatus_value fo h st;
       Some (mk v)
     }"

section \<open>The function\<close>

text \<open>
  \<open>meta.SetStatusCondition\<close> is a parameter that takes the memory and the slice its first argument points to,
  and returns the memory and the slice it leaves there.
\<close>

type_synonym 'x set_condition = "'x mem \<Rightarrow> slice \<Rightarrow> Condition \<Rightarrow> 'x mem \<times> slice"

definition reconcile_mem ::
  "'x foreign \<Rightarrow> 'x set_condition \<Rightarrow> as_selector \<Rightarrow> engine \<Rightarrow> (nat \<Rightarrow> bool) \<Rightarrow> world \<Rightarrow> 'x mem \<Rightarrow> shim_ref \<Rightarrow>
     ('x mem \<times> outcome) option" where
  "reconcile_mem fo setc asSel E isPrint w h r =
     do {
       shim \<leftarrow> read_shim fo h r;
       status \<leftarrow> status_at h r;
       (h1, before) \<leftarrow> Some (alloc_copy COIDCShimStatus (OIDCShimStatus_DeepCopyInto fo) h status);
       condition \<leftarrow> Some (ready_condition w (validateShim asSel E isPrint (ShimSpec shim) (GetName shim))
         (GetGeneration shim));
       (h2, conds) \<leftarrow> Some (setc h1 (stm_Conditions status) condition);
       h3 \<leftarrow> Some (modify_status h2 r (\<lambda>st. st\<lparr>stm_Conditions := conds\<rparr>));
       h4 \<leftarrow> Some (modify_status h3 r (\<lambda>st. st\<lparr>stm_ObservedGeneration := GetGeneration shim\<rparr>));
       counted \<leftarrow> countMatchedPods (w_listPods w) shim;
       h5 \<leftarrow> Some (case counted of
           Inr matched \<Rightarrow>
             modify_status (h4 @ [CInt32 matched]) r (\<lambda>st. st\<lparr>stm_MatchedPods := Some (length h4)\<rparr>)
         | Inl _ \<Rightarrow> h4);
       old \<leftarrow> Option.bind (load as_OIDCShimStatus h5 before) (OIDCShimStatus_value fo h5);
       shim' \<leftarrow> read_shim fo h5 r;
       changed \<leftarrow> Some (\<not> w_deepEqual w old (ShimStatus shim'));
       Some (h5,
         \<lparr>out_Shim = shim', out_Written = (if changed then Some shim' else None),
          out_Result =
            (case (if changed then w_updateStatus w shim' else None) of
               Some err \<Rightarrow> Inl (UpdatingStatus (ShimKey shim') err)
             | None \<Rightarrow>
                 (case counted of
                    Inl err \<Rightarrow> Inl (ListingPods (ShimKey shim') err)
                  | Inr _ \<Rightarrow> Inr requeueInterval))\<rparr>)
     }"

section \<open>What the object reaches\<close>

fun rest_foot :: "'x foreign \<Rightarrow> 'x mem \<Rightarrow> shim_ref \<Rightarrow> addr set" where
  "rest_foot fo h (RefOIDCShim a) =
     (case load as_OIDCShim h a of
        None \<Rightarrow> {}
      | Some s \<Rightarrow> ops_foot (fo_ObjectMeta fo) h (osm_ObjectMeta s) \<union> OIDCShimSpec_foot fo h (osm_Spec s))"
| "rest_foot fo h (RefClusterOIDCShim a) =
     (case load as_ClusterOIDCShim h a of
        None \<Rightarrow> {}
      | Some s \<Rightarrow> ops_foot (fo_ObjectMeta fo) h (csm_ObjectMeta s) \<union> ClusterOIDCShimSpec_foot fo h (csm_Spec s))"

abbreviation conditions_value where
  "conditions_value fo \<equiv> slice_value as_conditions (ops_value (fo_Condition fo))"

abbreviation conditions_foot where
  "conditions_foot fo \<equiv> slice_foot as_conditions (ops_foot (fo_Condition fo))"

abbreviation matched_foot where
  "matched_foot \<equiv> ptr_foot as_int32 flat_foot"

definition shim_foot :: "'x foreign \<Rightarrow> 'x mem \<Rightarrow> shim_ref \<Rightarrow> addr set" where
  "shim_foot fo h r =
     insert (ref_addr r) (rest_foot fo h r \<union>
       (case status_at h r of None \<Rightarrow> {} | Some st \<Rightarrow> OIDCShimStatus_foot fo h st))"

text \<open>
  The conditions share no memory with the other parts of the object, and none of the parts refers back
  to the object itself. Every object that a deep copy returns has this form.
\<close>

definition separated :: "'x foreign \<Rightarrow> 'x mem \<Rightarrow> shim_ref \<Rightarrow> bool" where
  "separated fo h r \<longleftrightarrow>
     (case status_at h r of
        None \<Rightarrow> True
      | Some st \<Rightarrow>
          (let other = rest_foot fo h r \<union> matched_foot h (stm_MatchedPods st) in
           ref_addr r \<notin> other \<and> conditions_foot fo h (stm_Conditions st) \<inter> insert (ref_addr r) other = {}))"

text \<open>
  The contract of \<open>SetStatusCondition\<close> in memory: the slice it leaves reads as the conditions with the
  new one set; it writes only to the memory of the old conditions and to new memory, and its slice reaches
  nothing else.
\<close>

definition set_ok :: "'x foreign \<Rightarrow> (Condition list \<Rightarrow> Condition \<Rightarrow> Condition list) \<Rightarrow> 'x set_condition \<Rightarrow> bool" where
  "set_ok fo f setc \<longleftrightarrow>
     (\<forall>h s c cs h' s'. conditions_value fo h s = Some cs \<longrightarrow> setc h s c = (h', s') \<longrightarrow>
        length h \<le> length h' \<and> conditions_value fo h' s' = Some (f cs c) \<and>
        agree h h' ({..<length h} - conditions_foot fo h s) \<and>
        conditions_foot fo h' s' \<subseteq> conditions_foot fo h s \<union> {length h..<length h'})"

section \<open>Reads and writes of the object\<close>

lemma modify_status_update: "\<exists>c. modify_status h r f = h[ref_addr r := c]"
  by (cases r) (auto split: option.split intro: exI [of _ "h ! ref_addr r"])

lemma rest_value_mk:
  assumes "rest_value fo h r = Some mk"
  shows "ShimStatus (mk v) = v" "with_ShimStatus v' (mk v) = mk v'"
  using assms by (cases r; auto simp: bind_eq_Some_conv)+

lemma rest_value_addr: "rest_value fo h r = Some mk \<Longrightarrow> ref_addr r < length h"
  by (cases r) (auto simp: bind_eq_Some_conv load_Some)

lemma rest_allocated:
  assumes "foreign_ok fo" "rest_value fo h r = Some mk"
  shows "rest_foot fo h r \<subseteq> {..<length h}"
proof (cases r)
  case (RefOIDCShim a)
  with assms(2) obtain s meta spec where s: "load as_OIDCShim h a = Some s"
    "ops_value (fo_ObjectMeta fo) h (osm_ObjectMeta s) = Some meta" "OIDCShimSpec_value fo h (osm_Spec s) = Some spec"
    by (auto simp: bind_eq_Some_conv)
  show ?thesis
    using deep_copier.allocated [OF foreign_copiers(2) [OF assms(1)] s(2)]
      deep_copier.allocated [OF OIDCShimSpec_copier [OF assms(1)] s(3)] s(1) RefOIDCShim by simp
next
  case (RefClusterOIDCShim a)
  with assms(2) obtain s meta spec where s: "load as_ClusterOIDCShim h a = Some s"
    "ops_value (fo_ObjectMeta fo) h (csm_ObjectMeta s) = Some meta" "ClusterOIDCShimSpec_value fo h (csm_Spec s) = Some spec"
    by (auto simp: bind_eq_Some_conv)
  show ?thesis
    using deep_copier.allocated [OF foreign_copiers(2) [OF assms(1)] s(2)]
      deep_copier.allocated [OF ClusterOIDCShimSpec_copier [OF assms(1)] s(3)] s(1) RefClusterOIDCShim by simp
qed

text \<open>The object apart from its status is the same in two memories that agree on it up to its status.\<close>

lemma rest_frame:
  assumes fo: "foreign_ok fo" and v: "rest_value fo h r = Some mk"
    and ag: "agree h g (rest_foot fo h r)" and same: "agree h g {ref_addr r}"
  shows "rest_value fo g r = Some mk \<and> status_at g r = status_at h r \<and> rest_foot fo g r = rest_foot fo h r"
proof (cases r)
  case (RefOIDCShim a)
  with v same obtain s meta spec where s: "load as_OIDCShim h a = Some s" "load as_OIDCShim g a = Some s"
    "ops_value (fo_ObjectMeta fo) h (osm_ObjectMeta s) = Some meta" "OIDCShimSpec_value fo h (osm_Spec s) = Some spec"
    by (auto simp: bind_eq_Some_conv intro: load_agree)
  with ag RefOIDCShim have "agree h g (ops_foot (fo_ObjectMeta fo) h (osm_ObjectMeta s))" "agree h g (OIDCShimSpec_foot fo h (osm_Spec s))"
    by (auto elim: agree_subset)
  note l = deep_copier.local [OF foreign_copiers(2) [OF fo] s(3) this(1)] deep_copier.local [OF OIDCShimSpec_copier [OF fo] s(4) this(2)]
  from l s v show ?thesis by (simp add: RefOIDCShim)
next
  case (RefClusterOIDCShim a)
  with v same obtain s meta spec where s: "load as_ClusterOIDCShim h a = Some s" "load as_ClusterOIDCShim g a = Some s"
    "ops_value (fo_ObjectMeta fo) h (csm_ObjectMeta s) = Some meta" "ClusterOIDCShimSpec_value fo h (csm_Spec s) = Some spec"
    by (auto simp: bind_eq_Some_conv intro: load_agree)
  with ag RefClusterOIDCShim have "agree h g (ops_foot (fo_ObjectMeta fo) h (csm_ObjectMeta s))" "agree h g (ClusterOIDCShimSpec_foot fo h (csm_Spec s))"
    by (auto elim: agree_subset)
  note l = deep_copier.local [OF foreign_copiers(2) [OF fo] s(3) this(1)] deep_copier.local [OF ClusterOIDCShimSpec_copier [OF fo] s(4) this(2)]
  from l s v show ?thesis by (simp add: RefClusterOIDCShim)
qed

lemma rest_modify:
  assumes fo: "foreign_ok fo" and v: "rest_value fo h r = Some mk" and a: "ref_addr r \<notin> rest_foot fo h r"
    and st: "status_at h r = Some st"
  shows "rest_value fo (modify_status h r f) r = Some mk \<and> status_at (modify_status h r f) r = Some (f st) \<and>
    rest_foot fo (modify_status h r f) r = rest_foot fo h r"
proof (cases r)
  case (RefOIDCShim b)
  with v st obtain s meta spec where s: "load as_OIDCShim h b = Some s" "st = osm_Status s" "b < length h"
    "ops_value (fo_ObjectMeta fo) h (osm_ObjectMeta s) = Some meta" "OIDCShimSpec_value fo h (osm_Spec s) = Some spec"
    by (auto simp: bind_eq_Some_conv load_Some)
  with RefOIDCShim v a show ?thesis
    using deep_copier.stable_update [OF foreign_copiers(2) [OF fo] s(4), of b]
      deep_copier.stable_update [OF OIDCShimSpec_copier [OF fo] s(5), of b]
    by simp
next
  case (RefClusterOIDCShim b)
  with v st obtain s meta spec where s: "load as_ClusterOIDCShim h b = Some s" "st = csm_Status s" "b < length h"
    "ops_value (fo_ObjectMeta fo) h (csm_ObjectMeta s) = Some meta" "ClusterOIDCShimSpec_value fo h (csm_Spec s) = Some spec"
    by (auto simp: bind_eq_Some_conv load_Some)
  with RefClusterOIDCShim v a show ?thesis
    using deep_copier.stable_update [OF foreign_copiers(2) [OF fo] s(4), of b]
      deep_copier.stable_update [OF ClusterOIDCShimSpec_copier [OF fo] s(5), of b]
    by simp
qed

section \<open>The snapshot\<close>

text \<open>
  What holds between the writes: the object reads as \<open>mk\<close> of a status and holds the status \<open>st\<close>, the snapshot at \<open>b\<close>
  reads as \<open>old\<close>, and a write to the object's own cell is seen by neither the parts it refers to nor the snapshot.
\<close>

definition snapshot_inv ::
  "'x foreign \<Rightarrow> 'x mem \<Rightarrow> shim_ref \<Rightarrow> (OIDCShimStatus \<Rightarrow> Shim) \<Rightarrow> OIDCShimStatus_m \<Rightarrow> addr \<Rightarrow> OIDCShimStatus \<Rightarrow> bool" where
  "snapshot_inv fo h r mk st b old \<longleftrightarrow>
     rest_value fo h r = Some mk \<and> status_at h r = Some st \<and>
     ptr_value as_OIDCShimStatus (OIDCShimStatus_value fo) h (Some b) = Some (Some old) \<and>
     ref_addr r \<notin> rest_foot fo h r \<union> ptr_foot as_OIDCShimStatus (OIDCShimStatus_foot fo) h (Some b)"

definition status_inv :: "'x foreign \<Rightarrow> 'x mem \<Rightarrow> shim_ref \<Rightarrow> OIDCShimStatus_m \<Rightarrow> OIDCShimStatus \<Rightarrow> bool" where
  "status_inv fo h r st v \<longleftrightarrow> OIDCShimStatus_value fo h st = Some v \<and> ref_addr r \<notin> OIDCShimStatus_foot fo h st"

lemma snapshot_copier:
  "foreign_ok fo \<Longrightarrow> deep_copier (ptr_value as_OIDCShimStatus (OIDCShimStatus_value fo))
     (ptr_foot as_OIDCShimStatus (OIDCShimStatus_foot fo))
     (new_copy as_OIDCShimStatus COIDCShimStatus (OIDCShimStatus_DeepCopyInto fo))"
  by (rule deep_copier.ptr_copier [OF OIDCShimStatus_copier]) simp_all

lemma snapshot_modify:
  assumes fo: "foreign_ok fo" and inv: "snapshot_inv fo h r mk st b old"
  shows "snapshot_inv fo (modify_status h r f) r mk (f st) b old"
proof -
  obtain c where c: "modify_status h r f = h[ref_addr r := c]" using modify_status_update by blast
  show ?thesis
    using inv rest_modify [OF fo, of h r mk st f]
      deep_copier.stable_update [OF snapshot_copier [OF fo], of h "Some b" "Some old" "ref_addr r" c]
    unfolding snapshot_inv_def c by simp
qed

lemma status_modify:
  assumes fo: "foreign_ok fo" and "status_inv fo h r st v"
  shows "status_inv fo (modify_status h r f) r st v"
proof -
  obtain c where c: "modify_status h r f = h[ref_addr r := c]" using modify_status_update by blast
  show ?thesis
    using assms(2) deep_copier.stable_update [OF OIDCShimStatus_copier [OF fo], of h st v "ref_addr r" c]
    unfolding status_inv_def c by simp
qed

lemma snapshot_agree:
  assumes fo: "foreign_ok fo" and inv: "snapshot_inv fo h r mk st b old"
    and ag: "agree h g (insert (ref_addr r) (rest_foot fo h r \<union> ptr_foot as_OIDCShimStatus (OIDCShimStatus_foot fo) h (Some b)))"
  shows "snapshot_inv fo g r mk st b old"
proof -
  have "agree h g (rest_foot fo h r)" "agree h g {ref_addr r}"
    "agree h g (ptr_foot as_OIDCShimStatus (OIDCShimStatus_foot fo) h (Some b))"
    using agree_subset [OF ag] by blast+
  then show ?thesis
    using inv rest_frame [OF fo, of h r mk g] deep_copier.local [OF snapshot_copier [OF fo], of h "Some b" "Some old" g]
    unfolding snapshot_inv_def by simp
qed

lemma snapshot_append:
  assumes fo: "foreign_ok fo" and inv: "snapshot_inv fo h r mk st b old"
  shows "snapshot_inv fo (h @ [x]) r mk st b old"
proof (rule snapshot_agree [OF fo inv agree_prefix])
  show "insert (ref_addr r) (rest_foot fo h r \<union> ptr_foot as_OIDCShimStatus (OIDCShimStatus_foot fo) h (Some b)) \<subseteq> {..<length h}"
    using inv rest_allocated [OF fo, of h r mk] rest_value_addr [of fo h r mk]
      deep_copier.allocated [OF snapshot_copier [OF fo], of h "Some b" "Some old"]
    unfolding snapshot_inv_def by simp
qed simp

text \<open>Taking the snapshot, and setting the condition.\<close>

lemma snapshot_taken:
  assumes fo: "foreign_ok fo" and v: "rest_value fo h r = Some mk" "status_at h r = Some st" "OIDCShimStatus_value fo h st = Some v"
    and sep: "ref_addr r \<notin> rest_foot fo h r"
    and c: "alloc_copy COIDCShimStatus (OIDCShimStatus_DeepCopyInto fo) h st = (h1, b)"
  shows "prefix h h1 \<and> snapshot_inv fo h1 r mk st b v \<and> rest_foot fo h1 r = rest_foot fo h r \<and>
    ptr_foot as_OIDCShimStatus (OIDCShimStatus_foot fo) h1 (Some b) \<subseteq> {length h..<length h1}"
proof -
  note k = deep_copier.alloc_copied [OF OIDCShimStatus_copier [OF fo] as_simps(16) v(3) c]
  have a: "ref_addr r < length h" using v(1) by (rule rest_value_addr)
  have "agree h h1 (rest_foot fo h r)" "agree h h1 {ref_addr r}"
    using k a rest_allocated [OF fo v(1)] agree_prefix [of h h1] by auto
  from rest_frame [OF fo v(1) this] k a sep v(2) show ?thesis unfolding snapshot_inv_def by auto
qed

lemma OIDCShimStatus_value_Some:
  "OIDCShimStatus_value fo h st = Some v \<longleftrightarrow>
     conditions_value fo h (stm_Conditions st) = Some (st_Conditions v) \<and>
     stm_ObservedGeneration st = st_ObservedGeneration v \<and>
     ptr_value as_int32 flat_value h (stm_MatchedPods st) = Some (st_MatchedPods v)"
  by (auto simp: OIDCShimStatus_value_def bind_eq_Some_conv)

lemma condition_set:
  assumes fo: "foreign_ok fo" and set: "set_ok fo f setc" and sep: "separated fo h r"
    and v: "rest_value fo h r = Some mk" "status_at h r = Some st" "OIDCShimStatus_value fo h st = Some v"
    and c: "alloc_copy COIDCShimStatus (OIDCShimStatus_DeepCopyInto fo) h st = (h1, b)"
    and s: "setc h1 (stm_Conditions st) cond = (h2, conds)"
  shows "snapshot_inv fo h2 r mk st b v \<and> length h \<le> length h2 \<and>
    agree h h2 ({..<length h} - conditions_foot fo h (stm_Conditions st)) \<and>
    status_inv fo h2 r (st\<lparr>stm_Conditions := conds, stm_ObservedGeneration := g\<rparr>)
      (v\<lparr>st_Conditions := f (st_Conditions v) cond, st_ObservedGeneration := g\<rparr>)"
proof -
  let ?C = "conditions_foot fo h (stm_Conditions st)" and ?M = "matched_foot h (stm_MatchedPods st)"
    and ?P = "ptr_foot as_OIDCShimStatus (OIDCShimStatus_foot fo) h1 (Some b)"
  note C = Condition_slice [OF fo] and M = flat_ptr(3)
  have sp: "ref_addr r \<notin> rest_foot fo h r" "ref_addr r \<notin> ?M" "ref_addr r \<notin> ?C" "?C \<inter> rest_foot fo h r = {}" "?C \<inter> ?M = {}"
    using sep v(2) by (auto simp: separated_def Let_def)
  note t = snapshot_taken [OF fo v sp(1) c]
  have vc: "conditions_value fo h (stm_Conditions st) = Some (st_Conditions v)"
    "ptr_value as_int32 flat_value h (stm_MatchedPods st) = Some (st_MatchedPods v)"
    using v(3) by (simp_all add: OIDCShimStatus_value_Some)
  have al: "?C \<subseteq> {..<length h}" "?M \<subseteq> {..<length h}" "rest_foot fo h r \<subseteq> {..<length h}" "ref_addr r < length h" "?P \<subseteq> {..<length h1}"
    using deep_copier.allocated [OF C vc(1)] deep_copier.allocated [OF M vc(2)] rest_allocated [OF fo v(1)]
      rest_value_addr [OF v(1)] t by auto
  have len: "length h \<le> length h1" using t by (auto dest: prefix_length_le)
  have c1: "conditions_value fo h1 (stm_Conditions st) = Some (st_Conditions v)" "conditions_foot fo h1 (stm_Conditions st) = ?C"
    "ptr_value as_int32 flat_value h1 (stm_MatchedPods st) = Some (st_MatchedPods v)" "matched_foot h1 (stm_MatchedPods st) = ?M"
    using deep_copier.stable [OF C vc(1), of h1] deep_copier.stable [OF M vc(2), of h1] t by simp_all
  have k: "length h1 \<le> length h2" "conditions_value fo h2 conds = Some (f (st_Conditions v) cond)"
    "agree h1 h2 ({..<length h1} - ?C)" "conditions_foot fo h2 conds \<subseteq> ?C \<union> {length h1..<length h2}"
    using set s c1(1) unfolding set_ok_def c1(2) [symmetric] by blast+
  have "snapshot_inv fo h2 r mk st b v"
  proof (rule snapshot_agree [OF fo _ agree_subset [OF k(3)]])
    have "?C \<inter> ?P = {}" using t al(1) by fastforce
    then show "insert (ref_addr r) (rest_foot fo h1 r \<union> ?P) \<subseteq> {..<length h1} - ?C"
      using t al len sp by auto
  qed (use t in blast)
  moreover have "agree h h2 ({..<length h} - ?C)"
    using t k(3) len by (auto simp: agree_def prefix_def nth_append)
  moreover have m: "ptr_value as_int32 flat_value h2 (stm_MatchedPods st) = Some (st_MatchedPods v) \<and> matched_foot h2 (stm_MatchedPods st) = ?M"
  proof -
    have "?M \<subseteq> {..<length h1} - ?C" using sp(5) al(2) len by auto
    then show ?thesis using deep_copier.local [OF M c1(3), of h2] agree_subset [OF k(3)] unfolding c1(4) by simp
  qed
  then have "status_inv fo h2 r (st\<lparr>stm_Conditions := conds, stm_ObservedGeneration := g\<rparr>)
      (v\<lparr>st_Conditions := f (st_Conditions v) cond, st_ObservedGeneration := g\<rparr>)"
    using k(2,4) sp al(4) len unfolding status_inv_def OIDCShimStatus_value_Some by (auto simp: OIDCShimStatus_foot_def)
  ultimately show ?thesis using len k(1) by simp
qed

section \<open>The run as a whole\<close>

lemma agree_modify: "agree h g A \<Longrightarrow> ref_addr r \<notin> A \<Longrightarrow> agree h (modify_status g r f) A"
  using modify_status_update [of g r f] by (auto simp: agree_def) (metis nth_list_update_neq)

lemma agree_append: "agree h g A \<Longrightarrow> agree h (g @ xs) A"
  by (auto simp: agree_def nth_append)

lemma snapshot_read:
  assumes "snapshot_inv fo h r mk st b old" "status_inv fo h r st v"
  obtains x where "read_shim fo h r = Some (mk v)" "load as_OIDCShimStatus h b = Some x" "OIDCShimStatus_value fo h x = Some old"
  using assms by (auto simp: snapshot_inv_def status_inv_def read_shim_def ptr_value_Some)

lemma matched_set:
  assumes fo: "foreign_ok fo" and inv: "snapshot_inv fo h r mk st b old" and st: "status_inv fo h r st v"
  shows "status_inv fo (h @ [CInt32 m]) r (st\<lparr>stm_MatchedPods := Some (length h)\<rparr>) (v\<lparr>st_MatchedPods := Some m\<rparr>)"
proof -
  have vc: "conditions_value fo h (stm_Conditions st) = Some (st_Conditions v)" "ref_addr r \<notin> conditions_foot fo h (stm_Conditions st)"
    using st by (auto simp: status_inv_def OIDCShimStatus_value_Some OIDCShimStatus_foot_def)
  have "ref_addr r < length h" using inv rest_value_addr by (auto simp: snapshot_inv_def)
  then show ?thesis
    using st vc deep_copier.stable [OF Condition_slice [OF fo] vc(1), of "h @ [CInt32 m]"]
    by (simp add: status_inv_def OIDCShimStatus_value_Some OIDCShimStatus_foot_def ptr_value_def ptr_foot_def load_def
        flat_value_def flat_foot_def)
qed

text \<open>The memory after the writes, for either result of the count.\<close>

lemma status_written:
  assumes fo: "foreign_ok fo" and inv: "snapshot_inv fo h r mk st b old"
    and st: "status_inv fo h r (f2 (f1 st)) v"
    and h4: "h4 = modify_status (modify_status h r f1) r f2"
    and h5: "h5 = (case counted of
        Inr m \<Rightarrow> modify_status (h4 @ [CInt32 m]) r (\<lambda>st. st\<lparr>stm_MatchedPods := Some (length h4)\<rparr>) | Inl _ \<Rightarrow> h4)"
  shows "\<exists>st'. snapshot_inv fo h5 r mk st' b old \<and>
    status_inv fo h5 r st' (case counted of Inr m \<Rightarrow> v\<lparr>st_MatchedPods := Some m\<rparr> | Inl _ \<Rightarrow> v)"
proof -
  have 4: "snapshot_inv fo h4 r mk (f2 (f1 st)) b old" "status_inv fo h4 r (f2 (f1 st)) v"
    unfolding h4 by (intro snapshot_modify [OF fo] status_modify [OF fo] inv st)+
  show ?thesis
  proof (cases counted)
    case (Inr m)
    have "snapshot_inv fo h5 r mk ((f2 (f1 st))\<lparr>stm_MatchedPods := Some (length h4)\<rparr>) b old"
      unfolding h5 Inr by (simp, rule snapshot_modify [OF fo snapshot_append [OF fo 4(1)]])
    moreover have "status_inv fo h5 r ((f2 (f1 st))\<lparr>stm_MatchedPods := Some (length h4)\<rparr>) (v\<lparr>st_MatchedPods := Some m\<rparr>)"
      unfolding h5 Inr by (simp, rule status_modify [OF fo matched_set [OF fo 4]])
    ultimately show ?thesis using Inr by auto
  qed (use 4 h5 in auto)
qed

lemma reconcile_mem_run:
  assumes fo: "foreign_ok fo" and set: "set_ok fo (w_setCondition w) setc" and sep: "separated fo h r"
    and shim: "read_shim fo h r = Some shim"
    and run: "reconcileShim asSel E isPrint w shim = Some out"
  shows "\<exists>h'. reconcile_mem fo setc asSel E isPrint w h r = Some (h', out) \<and>
    read_shim fo h' r = Some (out_Shim out) \<and> agree h h' ({..<length h} - shim_foot fo h r)"
proof -
  from shim obtain mk st v where v: "rest_value fo h r = Some mk" "status_at h r = Some st" "OIDCShimStatus_value fo h st = Some v"
    and shim': "shim = mk v"
    by (auto simp: read_shim_def bind_eq_Some_conv)
  note mk = rest_value_mk [OF v(1)]
  let ?c = "ready_condition w (validateShim asSel E isPrint (ShimSpec shim) (GetName shim)) (GetGeneration shim)"
  let ?f1 = "\<lambda>conds st. st\<lparr>stm_Conditions := conds\<rparr>" and ?f2 = "\<lambda>st. st\<lparr>stm_ObservedGeneration := GetGeneration shim\<rparr>"
  obtain h1 b where c: "alloc_copy COIDCShimStatus (OIDCShimStatus_DeepCopyInto fo) h st = (h1, b)" by force
  obtain h2 conds where s: "setc h1 (stm_Conditions st) ?c = (h2, conds)" by force
  note k = condition_set [OF fo set sep v c s, of "GetGeneration shim"]
  obtain counted where n: "countMatchedPods (w_listPods w) shim = Some counted"
    using run by (auto simp: reconcileShim_def Let_def split: option.splits)
  define h4 where "h4 = modify_status (modify_status h2 r (?f1 conds)) r ?f2"
  define h5 where "h5 = (case counted of
        Inr m \<Rightarrow> modify_status (h4 @ [CInt32 m]) r (\<lambda>st. st\<lparr>stm_MatchedPods := Some (length h4)\<rparr>) | Inl _ \<Rightarrow> h4)"
  define v5 where "v5 = (case counted of
        Inr m \<Rightarrow> v\<lparr>st_Conditions := w_setCondition w (st_Conditions v) ?c, st_ObservedGeneration := GetGeneration shim,
                   st_MatchedPods := Some m\<rparr>
      | Inl _ \<Rightarrow> v\<lparr>st_Conditions := w_setCondition w (st_Conditions v) ?c, st_ObservedGeneration := GetGeneration shim\<rparr>)"
  obtain st' where st': "snapshot_inv fo h5 r mk st' b v" "status_inv fo h5 r st' v5"
    using status_written [OF fo, of h2 r mk st b v ?f2 "?f1 conds", OF _ _ h4_def h5_def] k unfolding v5_def by auto
  obtain x where rd: "read_shim fo h5 r = Some (mk v5)" "load as_OIDCShimStatus h5 b = Some x" "OIDCShimStatus_value fo h5 x = Some v"
    by (rule snapshot_read [OF st'])
  have key: "ShimKey (mk v5) = ShimKey shim" using mk(2) [of v5 v] ShimKey_with_status [of v5 "mk v"] shim' by simp
  have w': "with_ShimStatus x shim = mk x" "ShimStatus shim = v" for x using mk shim' by auto
  have out: "out = \<lparr>out_Shim = mk v5, out_Written = (if \<not> w_deepEqual w v v5 then Some (mk v5) else None),
      out_Result = (case (if \<not> w_deepEqual w v v5 then w_updateStatus w (mk v5) else None) of
         Some err \<Rightarrow> Inl (UpdatingStatus (ShimKey shim) err)
       | None \<Rightarrow> (case counted of Inl err \<Rightarrow> Inl (ListingPods (ShimKey shim) err) | Inr _ \<Rightarrow> Inr requeueInterval))\<rparr>"
    using run unfolding reconcileShim_def Let_def n w' v5_def by (cases counted) auto
  have "reconcile_mem fo setc asSel E isPrint w h r = Some (h5, out)"
    using rd key unfolding h5_def h4_def out
    by (cases counted) (simp_all add: reconcile_mem_def shim v(2) c s n mk(1) split: option.split)
  moreover have "agree h h5 ({..<length h} - shim_foot fo h r)"
  proof -
    have a: "ref_addr r \<notin> {..<length h} - shim_foot fo h r" by (simp add: shim_foot_def)
    have "agree h h2 ({..<length h} - shim_foot fo h r)"
      using k v(2) by (auto simp: shim_foot_def OIDCShimStatus_foot_def elim: agree_subset)
    from agree_modify [OF agree_modify [OF this a] a] have "agree h h4 ({..<length h} - shim_foot fo h r)"
      unfolding h4_def by blast
    from this agree_modify [OF agree_append [OF this] a] show ?thesis unfolding h5_def by (simp split: sum.split)
  qed
  moreover have "out_Shim out = mk v5" by (simp add: out)
  ultimately show ?thesis using rd by auto
qed

lemma agree_all_prefix: "agree h h' {..<length h} \<Longrightarrow> prefix h h'"
proof -
  assume a: "agree h h' {..<length h}"
  then have "\<not> length h' < length h" by (auto simp: agree_def)
  then have "take (length h) h' = h" using a by (intro nth_equalityI) (auto simp: agree_def)
  then show ?thesis by (metis take_is_prefix)
qed

lemma read_prefix:
  assumes fo: "foreign_ok fo" and shim: "read_shim fo h r = Some shim" and p: "prefix h h'"
  shows "read_shim fo h' r = Some shim"
proof -
  from shim obtain mk st v where v: "rest_value fo h r = Some mk" "status_at h r = Some st" "OIDCShimStatus_value fo h st = Some v" "shim = mk v"
    by (auto simp: read_shim_def bind_eq_Some_conv)
  have "agree h h' (rest_foot fo h r)" "agree h h' {ref_addr r}"
    using rest_allocated [OF fo v(1)] rest_value_addr [OF v(1)] by (auto intro: agree_prefix [OF p])
  from rest_frame [OF fo v(1) this] deep_copier.stable [OF OIDCShimStatus_copier [OF fo] v(3) p] v(2,4)
  show ?thesis by (simp add: read_shim_def)
qed

section \<open>Objects from a cache\<close>

text \<open>
  The reader of an informer cache hands out deep copies of the objects it holds. A copy has the form the
  run needs, whatever memory the parts of the original share.
\<close>

fun ref_DeepCopy :: "'x foreign \<Rightarrow> 'x mem \<Rightarrow> shim_ref \<Rightarrow> 'x mem \<times> shim_ref option" where
  "ref_DeepCopy fo h (RefOIDCShim a) =
     (case OIDCShim_DeepCopy fo h (Some a) of (h', p) \<Rightarrow> (h', map_option RefOIDCShim p))"
| "ref_DeepCopy fo h (RefClusterOIDCShim a) =
     (case ClusterOIDCShim_DeepCopy fo h (Some a) of (h', p) \<Rightarrow> (h', map_option RefClusterOIDCShim p))"

lemma status_copy_separate:
  assumes fo: "foreign_ok fo" and v: "OIDCShimStatus_value fo h st = Some v"
    and c: "OIDCShimStatus_DeepCopyInto fo h st = (h', st')" and a: "a \<notin> OIDCShimStatus_foot fo h' st'"
  shows "conditions_foot fo (h'[a := d]) (stm_Conditions st') \<inter> matched_foot (h'[a := d]) (stm_MatchedPods st') = {}"
proof -
  have vc: "conditions_value fo h (stm_Conditions st) = Some (st_Conditions v)"
    "ptr_value as_int32 flat_value h (stm_MatchedPods st) = Some (st_MatchedPods v)"
    using v by (simp_all add: OIDCShimStatus_value_Some)
  obtain h1 s p where p: "make_copy as_conditions CConditions (fo_zero fo) (ops_copy (fo_Condition fo)) h (stm_Conditions st) = (h1, s)"
    "new_copy as_int32 CInt32 flat_copy h1 (stm_MatchedPods st) = (h', p)" "st' = st\<lparr>stm_Conditions := s, stm_MatchedPods := p\<rparr>"
    using c by (auto simp: OIDCShimStatus_DeepCopyInto_def split: prod.splits)
  note k = two_copies [OF Condition_slice [OF fo] flat_ptr(3) vc p(1,2)]
  have "conditions_foot fo (h'[a := d]) s = conditions_foot fo h' s \<and> matched_foot (h'[a := d]) p = matched_foot h' p"
    using a p(3) deep_copier.stable_update [OF Condition_slice [OF fo] k(3), of a d] deep_copier.stable_update [OF flat_ptr(3) k(4), of a d]
    by (simp add: OIDCShimStatus_foot_def)
  moreover have "conditions_foot fo h' s \<inter> matched_foot h' p = {}" using k(5,6) by fastforce
  ultimately show ?thesis using p(3) by simp
qed

text \<open>
  A struct of metadata, spec and status, copied in this order into the new cell: the three parts and
  the cell have memory of their own.
\<close>

lemma three_copies:
  assumes 1: "deep_copier v1 f1 c1" and 2: "deep_copier v2 f2 c2" and 3: "deep_copier v3 f3 c3"
    and v: "v1 h x = Some a" "v2 h y = Some b" "v3 h z = Some c"
    and c: "c1 h x = (h1, x')" "c2 h1 y = (h2, y')" "c3 h2 z = (h3, z')"
  shows "prefix h h3" "v1 h3 x' = Some a" "v2 h3 y' = Some b" "v3 h2 z = Some c" "v3 h3 z' = Some c"
    "f1 h3 x' \<union> f2 h3 y' \<subseteq> {length h..<length h2}" "f3 h3 z' \<subseteq> {length h2..<length h3}" "length h \<le> length h2"
    "length h2 \<le> length h3"
proof -
  note k = two_copies [OF 1 2 v(1,2) c(1,2)]
  have p2: "prefix h h2" using k(1,2) prefix_order.trans by blast
  show z: "v3 h2 z = Some c" using deep_copier.stable [OF 3 v(3) p2] by simp
  note k3 = deep_copier.copied [OF 3 z c(3)]
  have s: "v1 h3 x' = Some a \<and> f1 h3 x' = f1 h2 x'" "v2 h3 y' = Some b \<and> f2 h3 y' = f2 h2 y'"
    using deep_copier.stable [OF 1 k(3)] deep_copier.stable [OF 2 k(4)] k3 by blast+
  show "prefix h h3" using p2 k3 prefix_order.trans by blast
  have "length h \<le> length h1" "length h1 \<le> length h2" using k(1,2) by (auto dest: prefix_length_le)
  then show "f1 h3 x' \<union> f2 h3 y' \<subseteq> {length h..<length h2}" "length h \<le> length h2" using s k(5,6) by (auto simp: subset_iff)
  show "v1 h3 x' = Some a" "v2 h3 y' = Some b" "v3 h3 z' = Some c" "f3 h3 z' \<subseteq> {length h2..<length h3}" "length h2 \<le> length h3"
    using s k3 by (auto dest: prefix_length_le)
qed

lemma allocated_copies:
  assumes C: "deep_copier v1 f1 c1" "deep_copier v2 f2 c2" "deep_copier v3 f3 c3"
    and v: "v1 h x = Some a" "v2 h y = Some b" "v3 h z = Some c"
    and c: "c1 (h @ [c0]) x = (h1, x')" "c2 h1 y = (h2, y')" "c3 h2 z = (h3, z')" and h': "h' = h3[length h := c']"
  shows "prefix h h'" "v1 h' x' = Some a" "v2 h' y' = Some b" "v3 h' z' = Some c" "v3 h2 z = Some c"
    "f1 h' x' \<union> f2 h' y' \<subseteq> {length h<..<length h2}" "f3 h' z' \<subseteq> {length h2..<length h'}" "length h < length h2"
    "length h2 \<le> length h'" "length h \<notin> f3 h3 z'"
proof -
  have p: "prefix h (h @ [c0])" by simp
  note k = three_copies [OF C deep_copier.stable [OF C(1) v(1) p, THEN conjunct1] deep_copier.stable [OF C(2) v(2) p, THEN conjunct1]
    deep_copier.stable [OF C(3) v(3) p, THEN conjunct1] c]
  have n: "length h \<notin> f1 h3 x'" "length h \<notin> f2 h3 y'" "length h \<notin> f3 h3 z'" using k(6,7,8) by auto
  note u = deep_copier.stable_update [OF C(1) k(2) n(1), of c'] deep_copier.stable_update [OF C(2) k(3) n(2), of c']
    deep_copier.stable_update [OF C(3) k(5) n(3), of c']
  show "prefix h h'" unfolding h' using prefix_order.trans [OF p k(1)] by (rule prefix_update) simp
  show "f1 h' x' \<union> f2 h' y' \<subseteq> {length h<..<length h2}" using u k(6) by (auto simp: h' Suc_le_eq)
  show "v1 h' x' = Some a" "v2 h' y' = Some b" "v3 h' z' = Some c" "v3 h2 z = Some c" "f3 h' z' \<subseteq> {length h2..<length h'}"
    "length h < length h2" "length h2 \<le> length h'" "length h \<notin> f3 h3 z'" using u k n by (simp_all add: h')
qed

lemma separatedI:
  assumes "status_at h r = Some st" "rest_foot fo h r \<subseteq> {ref_addr r<..<n}" "OIDCShimStatus_foot fo h st \<subseteq> {n..<m}" "ref_addr r < n"
    and "conditions_foot fo h (stm_Conditions st) \<inter> matched_foot h (stm_MatchedPods st) = {}"
  shows "separated fo h r" "n \<le> m \<Longrightarrow> shim_foot fo h r \<subseteq> {ref_addr r..<m}"
proof -
  have "conditions_foot fo h (stm_Conditions st) \<subseteq> {n..<m}" "matched_foot h (stm_MatchedPods st) \<subseteq> {n..<m}"
    using assms(3) by (auto simp: OIDCShimStatus_foot_def)
  then have "ref_addr r \<notin> rest_foot fo h r \<union> matched_foot h (stm_MatchedPods st)"
    "conditions_foot fo h (stm_Conditions st) \<inter> insert (ref_addr r) (rest_foot fo h r \<union> matched_foot h (stm_MatchedPods st)) = {}"
    using assms(2,4,5) by fastforce+
  then show "separated fo h r" using assms(1) by (simp add: separated_def)
  show "shim_foot fo h r \<subseteq> {ref_addr r..<m}" if "n \<le> m"
    using assms(1-4) that by (auto simp: shim_foot_def subset_iff)
qed

lemma copy_separated:
  assumes fo: "foreign_ok fo" and shim: "read_shim fo h r = Some shim" and c: "ref_DeepCopy fo h r = (h', p)"
  shows "\<exists>r'. p = Some r' \<and> prefix h h' \<and> read_shim fo h' r' = Some shim \<and> separated fo h' r' \<and>
    shim_foot fo h' r' \<subseteq> {length h..<length h'}"
proof (cases r)
  case (RefOIDCShim a)
  with shim obtain s meta spec st where s: "load as_OIDCShim h a = Some s"
    "ops_value (fo_ObjectMeta fo) h (osm_ObjectMeta s) = Some meta" "OIDCShimSpec_value fo h (osm_Spec s) = Some spec"
    "OIDCShimStatus_value fo h (osm_Status s) = Some st"
    by (auto simp: read_shim_def bind_eq_Some_conv)
  obtain h1 h2 h3 meta' spec' st' where k: "ops_copy (fo_ObjectMeta fo) (h @ [COIDCShim s]) (osm_ObjectMeta s) = (h1, meta')"
    "OIDCShimSpec_DeepCopyInto fo h1 (osm_Spec s) = (h2, spec')" "OIDCShimStatus_DeepCopyInto fo h2 (osm_Status s) = (h3, st')"
    by (metis prod.exhaust)
  let ?s = "s\<lparr>osm_ObjectMeta := meta', osm_Spec := spec', osm_Status := st'\<rparr>"
  have r: "h' = h3[length h := COIDCShim ?s]" "p = Some (RefOIDCShim (length h))"
    using c k s(1) by (auto simp: RefOIDCShim OIDCShim_DeepCopy_def new_copy_def alloc_copy_def OIDCShim_DeepCopyInto_def Let_def)
  note q = allocated_copies [OF foreign_copiers(2) [OF fo] OIDCShimSpec_copier [OF fo] OIDCShimStatus_copier [OF fo] s(2-4) k r(1)]
  have l: "load as_OIDCShim h' (length h) = Some ?s" using q(8,9) by (simp add: r(1))
  note d = status_copy_separate [OF fo q(5) k(3) q(10), of "COIDCShim ?s", folded r(1)]
  have "separated fo h' (RefOIDCShim (length h)) \<and> shim_foot fo h' (RefOIDCShim (length h)) \<subseteq> {length h..<length h'}"
    using separatedI [where h = h' and r = "RefOIDCShim (length h)" and st = st' and fo = fo, OF _ _ q(7)] q(6,8,9) l d by simp
  moreover have "read_shim fo h' (RefOIDCShim (length h)) = Some shim"
    using shim s l q(2-4) by (simp add: RefOIDCShim read_shim_def)
  ultimately show ?thesis using r(2) q(1) by blast
next
  case (RefClusterOIDCShim a)
  with shim obtain s meta spec st where s: "load as_ClusterOIDCShim h a = Some s"
    "ops_value (fo_ObjectMeta fo) h (csm_ObjectMeta s) = Some meta" "ClusterOIDCShimSpec_value fo h (csm_Spec s) = Some spec"
    "OIDCShimStatus_value fo h (csm_Status s) = Some st"
    by (auto simp: read_shim_def bind_eq_Some_conv)
  obtain h1 h2 h3 meta' spec' st' where k: "ops_copy (fo_ObjectMeta fo) (h @ [CClusterOIDCShim s]) (csm_ObjectMeta s) = (h1, meta')"
    "ClusterOIDCShimSpec_DeepCopyInto fo h1 (csm_Spec s) = (h2, spec')" "OIDCShimStatus_DeepCopyInto fo h2 (csm_Status s) = (h3, st')"
    by (metis prod.exhaust)
  let ?s = "s\<lparr>csm_ObjectMeta := meta', csm_Spec := spec', csm_Status := st'\<rparr>"
  have r: "h' = h3[length h := CClusterOIDCShim ?s]" "p = Some (RefClusterOIDCShim (length h))"
    using c k s(1) by (auto simp: RefClusterOIDCShim ClusterOIDCShim_DeepCopy_def new_copy_def alloc_copy_def ClusterOIDCShim_DeepCopyInto_def Let_def)
  note q = allocated_copies [OF foreign_copiers(2) [OF fo] ClusterOIDCShimSpec_copier [OF fo] OIDCShimStatus_copier [OF fo] s(2-4) k r(1)]
  have l: "load as_ClusterOIDCShim h' (length h) = Some ?s" using q(8,9) by (simp add: r(1))
  note d = status_copy_separate [OF fo q(5) k(3) q(10), of "CClusterOIDCShim ?s", folded r(1)]
  have "separated fo h' (RefClusterOIDCShim (length h)) \<and> shim_foot fo h' (RefClusterOIDCShim (length h)) \<subseteq> {length h..<length h'}"
    using separatedI [where h = h' and r = "RefClusterOIDCShim (length h)" and st = st' and fo = fo, OF _ _ q(7)] q(6,8,9) l d by simp
  moreover have "read_shim fo h' (RefClusterOIDCShim (length h)) = Some shim"
    using shim s l q(2-4) by (simp add: RefClusterOIDCShim read_shim_def)
  ultimately show ?thesis using r(2) q(1) by blast
qed

text \<open>
  The run on a shim that the cache holds at \<open>r\<close>: the reader of the cache, which belongs to controller-runtime, is
  documented to hand out a deep copy, made with the methods of the type, and \<open>Reconcile\<close> reconciles the copy.
\<close>

definition reconcile_cached ::
  "'x foreign \<Rightarrow> 'x set_condition \<Rightarrow> as_selector \<Rightarrow> engine \<Rightarrow> (nat \<Rightarrow> bool) \<Rightarrow> world \<Rightarrow> 'x mem \<Rightarrow> shim_ref \<Rightarrow>
     ('x mem \<times> shim_ref \<times> outcome) option" where
  "reconcile_cached fo setc asSel E isPrint w h r =
     (case ref_DeepCopy fo h r of
        (h1, None) \<Rightarrow> None
      | (h1, Some r') \<Rightarrow>
          map_option (\<lambda>(h', out). (h', r', out)) (reconcile_mem fo setc asSel E isPrint w h1 r'))"

section \<open>An instance\<close>

text \<open>
  \<open>SetStatusCondition\<close> for the structs of \<open>sample_foreign\<close>: a condition that is already there is replaced in
  place, a new one goes into a new array.
\<close>

definition sample_set :: "sample_struct set_condition" where
  "sample_set h s c =
     (case conditions_value sample_foreign h s of
        None \<Rightarrow> (h, s)
      | Some cs \<Rightarrow>
          (let cs' = store_condition cs c in
           case s of
             Some sl \<Rightarrow>
               if length cs' = sl_Len sl \<and> sl_Offset sl = 0 then (h[sl_Array sl := CConditions (map SCondition cs')], s)
               else (h @ [CConditions (map SCondition cs')], Some \<lparr>sl_Array = length h, sl_Offset = 0, sl_Len = length cs'\<rparr>)
           | None \<Rightarrow> (h @ [CConditions (map SCondition cs')], Some \<lparr>sl_Array = length h, sl_Offset = 0, sl_Len = length cs'\<rparr>)))"

lemma sample_conditions:
  assumes "load as_conditions h a = Some (map SCondition cs)"
  shows "conditions_value sample_foreign h (Some \<lparr>sl_Array = a, sl_Offset = 0, sl_Len = length cs\<rparr>) = Some cs"
    "conditions_foot sample_foreign h (Some \<lparr>sl_Array = a, sl_Offset = 0, sl_Len = length cs\<rparr>) = {a}"
  using assms
  by (auto simp: slice_value_def slice_foot_def elements_def window_def sample_foreign_def sample_ops_def those_map_Some
      list_all2_conv_all_nth flat_foot_def)

lemma sample_set_ok: "set_ok sample_foreign store_condition sample_set"
  unfolding set_ok_def
proof (intro allI impI)
  fix h s c cs h' s'
  assume v: "conditions_value sample_foreign h s = Some cs" and r: "sample_set h s c = (h', s')"
  let ?cs = "store_condition cs c"
  have al: "conditions_foot sample_foreign h s \<subseteq> {..<length h}"
    using deep_copier.allocated [OF Condition_slice [OF sample_foreign_ok] v] .
  consider (new) "h' = h @ [CConditions (map SCondition ?cs)]" "s' = Some \<lparr>sl_Array = length h, sl_Offset = 0, sl_Len = length ?cs\<rparr>"
    | (place) sl where "s = Some sl" "sl_Offset sl = 0" "sl_Len sl = length ?cs" "s' = s"
      "h' = h[sl_Array sl := CConditions (map SCondition ?cs)]"
    using v r by (cases s) (auto simp: sample_set_def slice_foot_def Let_def split: if_splits)
  then show "length h \<le> length h' \<and> conditions_value sample_foreign h' s' = Some ?cs \<and>
    agree h h' ({..<length h} - conditions_foot sample_foreign h s) \<and>
    conditions_foot sample_foreign h' s' \<subseteq> conditions_foot sample_foreign h s \<union> {length h..<length h'}"
  proof cases
    case new
    then have l: "load as_conditions h' (length h) = Some (map SCondition ?cs)" by (simp add: load_def)
    show ?thesis using sample_conditions [OF l] new by (auto simp: agree_def nth_append)
  next
    case (place sl)
    have a: "sl_Array sl \<in> conditions_foot sample_foreign h s" by (simp add: place(1) slice_foot_def)
    then have l: "load as_conditions h' (sl_Array sl) = Some (map SCondition ?cs)" using al place(5) by auto
    have "s' = Some \<lparr>sl_Array = sl_Array sl, sl_Offset = 0, sl_Len = length ?cs\<rparr>" using place by simp
    with sample_conditions [OF l] a place(5) agree_update [of "{..<length h} - conditions_foot sample_foreign h s" h "sl_Array sl"]
    show ?thesis by auto
  qed
qed

text \<open>The shim of \<open>sample_mem\<close>, observed at an earlier generation and not ready then.\<close>

definition stale_status :: OIDCShimStatus_m where
  "stale_status =
     \<lparr>stm_Conditions = Some \<lparr>sl_Array = 6, sl_Offset = 0, sl_Len = 1\<rparr>, stm_ObservedGeneration = 2, stm_MatchedPods = Some 4\<rparr>"

definition stale_condition :: Condition where
  "stale_condition =
     \<lparr>cond_Type = ConditionReady, cond_Status = ''False'', cond_Reason = ReasonInvalidSpec, cond_Message = ''invalid'',
      cond_ObservedGeneration = 2, cond_LastTransitionTime = 9\<rparr>"

definition stale_mem :: "sample_struct mem" where
  "stale_mem = sample_mem[5 := COIDCShim (sample_shim_m\<lparr>osm_Status := stale_status\<rparr>)] @ [CConditions [SCondition stale_condition]]"

lemma two_pages_count: "countMatchedPods two_pages shim = Some (Inr 3)"
proof -
  let ?b = "base_options shim"
  have "two_pages (page_options ?b ''next'') = Inr \<lparr>pl_Items = [sample_pod], pl_Continue = []\<rparr>"
      "two_pages (page_options ?b []) = Inr \<lparr>pl_Items = [sample_pod, sample_pod], pl_Continue = ''next''\<rparr>"
    by (simp_all add: two_pages_def page_options_def base_options_def)
  then show ?thesis unfolding countMatchedPods_def by (subst count_loop.simps, simp, subst count_loop.simps, simp)
qed

lemma stale_read: "\<exists>shim. read_shim sample_foreign stale_mem (RefOIDCShim 5) = Some shim \<and>
  st_ObservedGeneration (ShimStatus shim) = 2 \<and> GetGeneration shim = 3"
proof -
  have "(case read_shim sample_foreign stale_mem (RefOIDCShim 5) of
      Some shim \<Rightarrow> st_ObservedGeneration (ShimStatus shim) = 2 \<and> GetGeneration shim = 3 | None \<Rightarrow> False)" by code_simp
  then show ?thesis by (auto split: option.splits)
qed

lemma stale_separated: "separated sample_foreign stale_mem (RefOIDCShim 5)"
  by code_simp

lemma stale_run:
  assumes "read_shim sample_foreign stale_mem (RefOIDCShim 5) = Some shim"
  obtains out where "reconcileShim (\<lambda>_. Inl []) field_engine (\<lambda>c. True) sample_world shim = Some out"
    "out_Written out = Some (out_Shim out)"
proof -
  have g: "st_ObservedGeneration (ShimStatus shim) \<noteq> GetGeneration shim" using stale_read assms by auto
  obtain out where out: "reconcileShim (\<lambda>_. Inl []) field_engine (\<lambda>c. True) sample_world shim = Some out"
    by (auto simp: reconcileShim_def Let_def sample_world_def two_pages_count)
  have "out_Written out = Some (out_Shim out)"
  proof (rule reconcileShim_Some [OF out], goal_cases)
    case (1 counted st)
    then have "st_ObservedGeneration st = GetGeneration shim" by simp
    with g have "ShimStatus shim \<noteq> st" by auto
    with 1(3,4) show ?case by (simp add: sample_world_def)
  qed
  with out show thesis by (rule that)
qed

section \<open>Properties\<close>

text \<open>
  (C9) \<open>reconcileShim\<close> in memory refines its model on values. On an object that reads as a shim, and whose
  conditions share no memory with its other parts, it returns exactly when the model does and with the
  same outcome; the object then reads as the model says; and nothing outside the object was written.
  In particular the snapshot \<open>before\<close> sees none of the writes made through the status pointer, not even
  those that \<open>SetStatusCondition\<close> makes in place, so a changed status is always noticed.
\<close>

theorem reconcile_mem_refines:
  assumes "foreign_ok fo" "set_ok fo (w_setCondition w) setc" "read_shim fo h r = Some shim" "separated fo h r"
  shows "case reconcileShim asSel E isPrint w shim of
      None \<Rightarrow> reconcile_mem fo setc asSel E isPrint w h r = None
    | Some out \<Rightarrow> \<exists>h'. reconcile_mem fo setc asSel E isPrint w h r = Some (h', out) \<and>
        read_shim fo h' r = Some (out_Shim out) \<and> agree h h' ({..<length h} - shim_foot fo h r)"
proof (cases "reconcileShim asSel E isPrint w shim")
  case None
  then have "countMatchedPods (w_listPods w) shim = None" by (auto simp: reconcileShim_def Let_def split: option.splits)
  then show ?thesis using assms(3) None by (simp add: reconcile_mem_def bind_eq_None_conv split: prod.split)
next
  case (Some out)
  then show ?thesis using reconcile_mem_run [OF assms(1,2,4,3) Some] by simp
qed

theorem reconcile_mem_refines_witness:
  "\<exists>h' out. reconcile_mem sample_foreign sample_set (\<lambda>_. Inl []) field_engine (\<lambda>c. True) sample_world stale_mem (RefOIDCShim 5) =
      Some (h', out) \<and>
    out_Written out = Some (out_Shim out) \<and> read_shim sample_foreign h' (RefOIDCShim 5) = Some (out_Shim out)"
proof -
  obtain shim where shim: "read_shim sample_foreign stale_mem (RefOIDCShim 5) = Some shim" using stale_read by blast
  obtain out where out: "reconcileShim (\<lambda>_. Inl []) field_engine (\<lambda>c. True) sample_world shim = Some out"
    "out_Written out = Some (out_Shim out)"
    by (rule stale_run [OF shim])
  have "set_ok sample_foreign (w_setCondition sample_world) sample_set" by (simp add: sample_world_def sample_set_ok)
  from reconcile_mem_refines [OF sample_foreign_ok this shim stale_separated, of "\<lambda>_. Inl []" field_engine "\<lambda>c. True"] out
  show ?thesis by auto
qed

text \<open>
  (C30) A shim that the cache holds survives its reconciliation: the run works on a deep copy, so, whatever
  memory the cached object shares internally or with other objects, the run ends as the model says, the
  copy reads as the model says, and all memory there was before it, the cached object
  included, is as it was.
\<close>

theorem reconcile_keeps_cache:
  assumes "foreign_ok fo" "set_ok fo (w_setCondition w) setc" "read_shim fo h r = Some shim"
    and "reconcileShim asSel E isPrint w shim = Some out"
  shows "\<exists>h' r'. reconcile_cached fo setc asSel E isPrint w h r = Some (h', r', out) \<and>
    read_shim fo h' r' = Some (out_Shim out) \<and> prefix h h' \<and> read_shim fo h' r = Some shim"
proof -
  obtain h1 p where c: "ref_DeepCopy fo h r = (h1, p)" by force
  obtain r' where r': "p = Some r'" "prefix h h1" "read_shim fo h1 r' = Some shim" "separated fo h1 r'"
    "shim_foot fo h1 r' \<subseteq> {length h..<length h1}"
    using copy_separated [OF assms(1,3) c] by blast
  obtain h' where h': "reconcile_mem fo setc asSel E isPrint w h1 r' = Some (h', out)" "read_shim fo h' r' = Some (out_Shim out)"
    "agree h1 h' ({..<length h1} - shim_foot fo h1 r')"
    using reconcile_mem_run [OF assms(1,2) r'(4,3) assms(4)] by blast
  have "{..<length h} \<subseteq> {..<length h1} - shim_foot fo h1 r'" using r'(2,5) by (auto dest: prefix_length_le)
  from agree_subset [OF h'(3) this] r'(2) have "prefix h h'" by (intro agree_all_prefix) (auto simp: agree_def prefix_def nth_append)
  then show ?thesis using read_prefix [OF assms(1,3)] h' r'(1) c by (auto simp: reconcile_cached_def)
qed

theorem reconcile_keeps_cache_witness:
  "\<exists>h' r' out shim. reconcile_cached sample_foreign sample_set (\<lambda>_. Inl []) field_engine (\<lambda>c. True) sample_world stale_mem
      (RefOIDCShim 5) = Some (h', r', out) \<and>
    out_Written out = Some (out_Shim out) \<and> prefix stale_mem h' \<and>
    read_shim sample_foreign stale_mem (RefOIDCShim 5) = Some shim \<and> read_shim sample_foreign h' (RefOIDCShim 5) = Some shim"
proof -
  obtain shim where shim: "read_shim sample_foreign stale_mem (RefOIDCShim 5) = Some shim" using stale_read by blast
  obtain out where out: "reconcileShim (\<lambda>_. Inl []) field_engine (\<lambda>c. True) sample_world shim = Some out"
    "out_Written out = Some (out_Shim out)"
    by (rule stale_run [OF shim])
  have "set_ok sample_foreign (w_setCondition sample_world) sample_set" by (simp add: sample_world_def sample_set_ok)
  from reconcile_keeps_cache [OF sample_foreign_ok this shim out(1)] out(2) shim show ?thesis by blast
qed

end
