(* ===== verification/Schema.thy ===== *)
theory Schema
  imports Controller Handler
begin

text \<open>
  What the API server does to a shim before the operator sees it, as the \<open>+kubebuilder\<close> markers of \<open>api/v1alpha1\<close>
  say: the defaults and the checks of the schema, on the object as it is sent (an optional field is
  present or absent), and the decoding into the Go structs, where an absent string is the
  empty one. The operator repeats the defaults and some of the checks; the properties say that the two agree.
\<close>

section \<open>Objects as they are sent\<close>

record ParameterSource_j =
  sj_static :: "string option"
  sj_annotation :: "string option"
  sj_label :: "string option"
  sj_configMapKeyRef :: "ConfigMapKeySelector option"
  sj_template :: "string option"

record Parameter_j =
  pj_name :: string
  pj_valueFrom :: ParameterSource_j
  pj_default :: "string option"
  pj_required :: "bool option"

record TokenSpec_j =
  tj_volumeName :: "string option"
  tj_mountPath :: "string option"
  tj_fileName :: "string option"
  tj_fileMode :: "string option"

record EnvVar_j =
  ej_name :: string
  ej_value :: "string option"

record FileSpec_j =
  fj_path :: string
  fj_content :: string
  fj_mode :: "string option"

record InjectSpec_j =
  ij_env :: "EnvVar_j list"
  ij_files :: "FileSpec_j list"
  ij_containers :: "string list"

record SPIFFESpec_j =
  spj_csiDriver :: "string option"
  spj_socketMountPath :: "string option"
  spj_socketFile :: "string option"

record OIDCShimSpec_j =
  oj_provider :: "string option"
  oj_selection :: SelectionSpec
  oj_parameters :: "Parameter_j list"
  oj_audience :: string
  oj_extraAudiences :: "string list"
  oj_token :: "TokenSpec_j option"
  oj_inject :: InjectSpec_j
  oj_spiffe :: "SPIFFESpec_j option"
  oj_helper :: "HelperSpec option"

section \<open>Defaults\<close>

text \<open>A default is filled in where the object around it is present.\<close>

definition default_to :: "'a \<Rightarrow> 'a option \<Rightarrow> 'a option" where
  "default_to d x = (case x of None \<Rightarrow> Some d | Some v \<Rightarrow> Some v)"

definition EnrollmentSpec_defaults :: "EnrollmentSpec \<Rightarrow> EnrollmentSpec" where
  "EnrollmentSpec_defaults e =
     \<lparr>en_Namespaces = default_to True (en_Namespaces e), en_ServiceAccounts = default_to True (en_ServiceAccounts e),
      en_Pods = default_to True (en_Pods e)\<rparr>"

definition TokenSpec_defaults :: "TokenSpec_j \<Rightarrow> TokenSpec_j" where
  "TokenSpec_defaults t =
     t\<lparr>tj_fileName := default_to ''token'' (tj_fileName t), tj_fileMode := default_to ''0644'' (tj_fileMode t)\<rparr>"

definition FileSpec_defaults :: "FileSpec_j \<Rightarrow> FileSpec_j" where
  "FileSpec_defaults f = f\<lparr>fj_mode := default_to ''0644'' (fj_mode f)\<rparr>"

definition OIDCShimSpec_defaults :: "OIDCShimSpec_j \<Rightarrow> OIDCShimSpec_j" where
  "OIDCShimSpec_defaults s =
     s\<lparr>oj_selection := (oj_selection s)
         \<lparr>sel_Enrollment := map_option EnrollmentSpec_defaults (sel_Enrollment (oj_selection s))\<rparr>,
       oj_token := map_option TokenSpec_defaults (oj_token s),
       oj_inject := (oj_inject s)\<lparr>ij_files := map FileSpec_defaults (ij_files (oj_inject s))\<rparr>\<rparr>"

section \<open>Checks\<close>

text \<open>
  The server counts the characters of a string, in UTF-8 the bytes that do not continue one; the
  operator counts bytes.
\<close>

definition rune_count :: "string \<Rightarrow> nat" where
  "rune_count s = length (filter (\<lambda>c. (of_char c :: nat) div 64 \<noteq> 2) s)"

definition length_between :: "nat \<Rightarrow> nat \<Rightarrow> string \<Rightarrow> bool" where
  "length_between lo hi s \<longleftrightarrow> lo \<le> rune_count s \<and> rune_count s \<le> hi"

definition optional :: "('a \<Rightarrow> bool) \<Rightarrow> 'a option \<Rightarrow> bool" where
  "optional P x = (case x of None \<Rightarrow> True | Some v \<Rightarrow> P v)"

definition between :: "nat \<Rightarrow> nat \<Rightarrow> char \<Rightarrow> bool" where
  "between lo hi c \<longleftrightarrow> lo \<le> of_char c \<and> of_char c \<le> hi"

definition identifier_start :: "char \<Rightarrow> bool" where
  "identifier_start c \<longleftrightarrow> between 65 90 c \<or> between 97 122 c \<or> c = CHR ''_''"

definition identifier_pattern :: "string \<Rightarrow> bool" where
  "identifier_pattern s \<longleftrightarrow>
     s \<noteq> [] \<and> identifier_start (hd s) \<and> list_all (\<lambda>c. identifier_start c \<or> between 48 57 c) s"

definition has :: "'a option \<Rightarrow> nat" where
  "has x = (if x \<noteq> None then 1 else 0)"

definition ParameterSource_schema :: "ParameterSource_j \<Rightarrow> bool" where
  "ParameterSource_schema s \<longleftrightarrow>
     has (sj_static s) + has (sj_annotation s) + has (sj_label s) + has (sj_configMapKeyRef s) + has (sj_template s) = 1 \<and>
     optional (length_between 0 4096) (sj_static s) \<and>
     optional (length_between 1 317) (sj_annotation s) \<and>
     optional (length_between 1 317) (sj_label s) \<and>
     optional (\<lambda>r. 1 \<le> rune_count (cmk_Name r) \<and> 1 \<le> rune_count (cmk_Key r)) (sj_configMapKeyRef s) \<and>
     optional (length_between 1 4096) (sj_template s)"

definition Parameter_schema :: "Parameter_j \<Rightarrow> bool" where
  "Parameter_schema p \<longleftrightarrow>
     identifier_pattern (pj_name p) \<and> rune_count (pj_name p) \<le> 63 \<and> ParameterSource_schema (pj_valueFrom p)"

definition TokenSpec_schema :: "TokenSpec_j \<Rightarrow> bool" where
  "TokenSpec_schema t \<longleftrightarrow>
     optional (\<lambda>p. HasPrefix p ''/'') (tj_mountPath t) \<and> optional ModePattern (tj_fileMode t)"

definition FileSpec_schema :: "FileSpec_j \<Rightarrow> bool" where
  "FileSpec_schema f \<longleftrightarrow>
     HasPrefix (fj_path f) ''/'' \<and> rune_count (fj_content f) \<le> 65536 \<and> optional ModePattern (fj_mode f)"

definition InjectSpec_schema :: "InjectSpec_j \<Rightarrow> bool" where
  "InjectSpec_schema i \<longleftrightarrow>
     length (ij_env i) \<le> 64 \<and> distinct (map ej_name (ij_env i)) \<and> list_all (\<lambda>e. 1 \<le> rune_count (ej_name e)) (ij_env i) \<and>
     length (ij_files i) \<le> 32 \<and> list_all FileSpec_schema (ij_files i) \<and>
     length (ij_containers i) \<le> 64 \<and> list_all (\<lambda>c. rune_count c \<le> 63) (ij_containers i)"

definition SPIFFESpec_schema :: "SPIFFESpec_j \<Rightarrow> bool" where
  "SPIFFESpec_schema s \<longleftrightarrow> optional (\<lambda>p. HasPrefix p ''/'') (spj_socketMountPath s)"

definition providers :: "string list" where
  "providers = [''google'', ''aws'', ''azure'', ''generic'']"

definition OIDCShimSpec_schema :: "OIDCShimSpec_j \<Rightarrow> bool" where
  "OIDCShimSpec_schema s \<longleftrightarrow>
     optional (\<lambda>p. p \<in> set providers) (oj_provider s) \<and>
     length (oj_parameters s) \<le> 64 \<and> distinct (map pj_name (oj_parameters s)) \<and> list_all Parameter_schema (oj_parameters s) \<and>
     length_between 1 2048 (oj_audience s) \<and>
     length (oj_extraAudiences s) \<le> 16 \<and> list_all (\<lambda>a. rune_count a \<le> 2048) (oj_extraAudiences s) \<and>
     optional TokenSpec_schema (oj_token s) \<and> InjectSpec_schema (oj_inject s) \<and>
     optional SPIFFESpec_schema (oj_spiffe s)"

text \<open>The rule on the whole object, the same for both kinds of shim: the length of the name.\<close>

definition object_schema :: "string \<Rightarrow> OIDCShimSpec_j \<Rightarrow> bool" where
  "object_schema name s \<longleftrightarrow> rune_count name \<le> 46 \<and> OIDCShimSpec_schema s"

section \<open>Decoding\<close>

definition or_zero :: "string option \<Rightarrow> string" where
  "or_zero x = (case x of None \<Rightarrow> [] | Some s \<Rightarrow> s)"

definition ParameterSource_decode :: "ParameterSource_j \<Rightarrow> ParameterSource" where
  "ParameterSource_decode s =
     \<lparr>src_Static = sj_static s, src_Annotation = or_zero (sj_annotation s), src_Label = or_zero (sj_label s),
      src_ConfigMapKeyRef = sj_configMapKeyRef s, src_Template = or_zero (sj_template s)\<rparr>"

definition Parameter_decode :: "Parameter_j \<Rightarrow> Parameter" where
  "Parameter_decode p =
     \<lparr>par_Name = pj_name p, par_ValueFrom = ParameterSource_decode (pj_valueFrom p), par_Default = pj_default p,
      par_Required = (pj_required p = Some True)\<rparr>"

definition TokenSpec_decode :: "TokenSpec_j option \<Rightarrow> TokenSpec" where
  "TokenSpec_decode token =
     (case token of
        None \<Rightarrow> \<lparr>tk_VolumeName = [], tk_MountPath = [], tk_FileName = [], tk_FileMode = []\<rparr>
      | Some t \<Rightarrow>
          \<lparr>tk_VolumeName = or_zero (tj_volumeName t), tk_MountPath = or_zero (tj_mountPath t),
           tk_FileName = or_zero (tj_fileName t), tk_FileMode = or_zero (tj_fileMode t)\<rparr>)"

definition FileSpec_decode :: "FileSpec_j \<Rightarrow> FileSpec" where
  "FileSpec_decode f = \<lparr>fs_Path = fj_path f, fs_Content = fj_content f, fs_Mode = or_zero (fj_mode f)\<rparr>"

definition InjectSpec_decode :: "InjectSpec_j \<Rightarrow> InjectSpec" where
  "InjectSpec_decode i =
     \<lparr>inj_Env = map (\<lambda>e. \<lparr>es_Name = ej_name e, es_Value = or_zero (ej_value e)\<rparr>) (ij_env i),
      inj_Files = map FileSpec_decode (ij_files i), inj_Containers = ij_containers i\<rparr>"

definition SPIFFESpec_decode :: "SPIFFESpec_j \<Rightarrow> SPIFFESpec" where
  "SPIFFESpec_decode s =
     \<lparr>sp_CSIDriver = or_zero (spj_csiDriver s), sp_SocketMountPath = or_zero (spj_socketMountPath s),
      sp_SocketFile = or_zero (spj_socketFile s)\<rparr>"

definition OIDCShimSpec_decode :: "OIDCShimSpec_j \<Rightarrow> OIDCShimSpec" where
  "OIDCShimSpec_decode s =
     \<lparr>spec_Provider = or_zero (oj_provider s), spec_Selection = oj_selection s,
      spec_Parameters = map Parameter_decode (oj_parameters s), spec_Audience = oj_audience s,
      spec_ExtraAudiences = oj_extraAudiences s, spec_Token = TokenSpec_decode (oj_token s),
      spec_Inject = InjectSpec_decode (oj_inject s), spec_SPIFFE = map_option SPIFFESpec_decode (oj_spiffe s),
      spec_Helper = oj_helper s\<rparr>"

section \<open>The defaults of the schema and those of the operator\<close>

text \<open>The mode the operator uses for a file, written into the file: what it does depends on nothing else of the mode.\<close>

definition with_mode :: "FileSpec \<Rightarrow> FileSpec" where
  "with_mode f = f\<lparr>fs_Mode := file_mode f\<rparr>"

lemma with_mode_simps [simp]:
  "fs_Path (with_mode f) = fs_Path f" "fs_Content (with_mode f) = fs_Content f" "file_mode (with_mode f) = file_mode f"
  by (simp_all add: with_mode_def file_mode_def)

lemma render_files_mode: "render_files E vs mount i seen (map with_mode fs) = render_files E vs mount i seen fs"
  by (induction fs arbitrary: i seen) (auto split: sum.split)

lemma validate_files_mode: "validate_files_loop mount seen (map with_mode fs) = validate_files_loop mount seen fs"
  by (induction fs arbitrary: seen) (simp_all add: Let_def file_mode_def defaultFileMode_def with_mode_def)

lemma FileSpec_defaults_mode: "with_mode (FileSpec_decode (FileSpec_defaults f)) = with_mode (FileSpec_decode f)"
  by (simp add: with_mode_def FileSpec_decode_def FileSpec_defaults_def file_mode_def default_to_def or_zero_def split: option.split)

lemma defaults_files:
  "map with_mode (map FileSpec_decode (map FileSpec_defaults fs)) = map with_mode (map FileSpec_decode fs)"
  by (simp add: FileSpec_defaults_mode)

lemma defaults_token: "ResolveToken n (TokenSpec_decode (map_option TokenSpec_defaults t)) = ResolveToken n (TokenSpec_decode t)"
  by (cases t) (auto simp: ResolveToken_def TokenSpec_decode_def TokenSpec_defaults_def default_to_def or_zero_def split: option.split)

lemma defaults_enrollment: "Enrolled n (map_option EnrollmentSpec_defaults e) t = Enrolled n e t"
  by (cases e) (auto simp: Enrolled_def EnrollmentSpec_defaults_def kindEnabled_def default_to_def Let_def split: option.split)

text \<open>Two specs that the operator cannot tell apart.\<close>

definition same_effect :: "string \<Rightarrow> OIDCShimSpec \<Rightarrow> OIDCShimSpec \<Rightarrow> bool" where
  "same_effect n s s' \<longleftrightarrow>
     selector_sources (spec_Selection s') = selector_sources (spec_Selection s) \<and>
     (\<forall>t. Enrolled n (sel_Enrollment (spec_Selection s')) t = Enrolled n (sel_Enrollment (spec_Selection s)) t) \<and>
     ResolveToken n (spec_Token s') = ResolveToken n (spec_Token s) \<and>
     map with_mode (inj_Files (spec_Inject s')) = map with_mode (inj_Files (spec_Inject s)) \<and>
     inj_Env (spec_Inject s') = inj_Env (spec_Inject s) \<and> inj_Containers (spec_Inject s') = inj_Containers (spec_Inject s) \<and>
     spec_Parameters s' = spec_Parameters s \<and> spec_Audience s' = spec_Audience s \<and>
     spec_ExtraAudiences s' = spec_ExtraAudiences s \<and> spec_SPIFFE s' = spec_SPIFFE s \<and> spec_Helper s' = spec_Helper s"

lemma defaults_same_effect: "same_effect n (OIDCShimSpec_decode j) (OIDCShimSpec_decode (OIDCShimSpec_defaults j))"
  by (simp add: same_effect_def OIDCShimSpec_decode_def OIDCShimSpec_defaults_def InjectSpec_decode_def selector_sources_def
      defaults_token defaults_enrollment defaults_files del: map_map)

lemma same_effect_files:
  assumes "same_effect n s s'"
  shows "render_files E vs mount i seen (inj_Files (spec_Inject s')) = render_files E vs mount i seen (inj_Files (spec_Inject s))"
    "validate_files_loop mount seen (inj_Files (spec_Inject s')) = validate_files_loop mount seen (inj_Files (spec_Inject s))"
    "map (\<lambda>f. F (fs_Path f) (fs_Content f)) (inj_Files (spec_Inject s')) = map (\<lambda>f. F (fs_Path f) (fs_Content f)) (inj_Files (spec_Inject s))"
proof -
  have m: "map with_mode (inj_Files (spec_Inject s')) = map with_mode (inj_Files (spec_Inject s))"
    using assms by (simp add: same_effect_def)
  from m show "render_files E vs mount i seen (inj_Files (spec_Inject s')) = render_files E vs mount i seen (inj_Files (spec_Inject s))"
    "validate_files_loop mount seen (inj_Files (spec_Inject s')) = validate_files_loop mount seen (inj_Files (spec_Inject s))"
    by (metis render_files_mode, metis validate_files_mode)
  from arg_cong [OF m, of "map (\<lambda>f. F (fs_Path f) (fs_Content f))"]
  show "map (\<lambda>f. F (fs_Path f) (fs_Content f)) (inj_Files (spec_Inject s')) = map (\<lambda>f. F (fs_Path f) (fs_Content f)) (inj_Files (spec_Inject s))"
    by (simp add: comp_def)
qed

lemma same_effect_validate:
  assumes "same_effect n s s'"
  shows "validateShim asSel E isPrint s' n = validateShim asSel E isPrint s n"
proof -
  have "validateToken isPrint n (spec_Token s') = validateToken isPrint n (spec_Token s)"
    "Validate_selection asSel (spec_Selection s') = Validate_selection asSel (spec_Selection s)"
    using assms by (simp_all add: validateToken_def Validate_selection_def compile_def same_effect_def)
  moreover have "validateTemplates E s' = validateTemplates E s"
    using assms same_effect_files(3) [OF assms, of "\<lambda>p c. check_template E (known_keys s) (''spec.inject.files['' @ p @ '']'') c"]
    by (simp add: validateTemplates_def known_keys_def same_effect_def)
  ultimately show ?thesis
    using assms same_effect_files(2) [OF assms] by (simp add: validateShim_def validateFiles_def same_effect_def)
qed

fun with_ShimSpec :: "OIDCShimSpec \<Rightarrow> Shim \<Rightarrow> Shim" where
  "with_ShimSpec spec (Namespaced s) = Namespaced (s\<lparr>os_Spec := spec\<rparr>)"
| "with_ShimSpec spec (ClusterScoped s) = ClusterScoped (s\<lparr>cs_Spec := (cs_Spec s)\<lparr>cos_OIDCShimSpec := spec\<rparr>\<rparr>)"

lemma with_ShimSpec_simps [simp]:
  "ShimSpec (with_ShimSpec s x) = s" "GetName (with_ShimSpec s x) = GetName x" "GetNamespace (with_ShimSpec s x) = GetNamespace x"
  "IsClusterScoped (with_ShimSpec s x) = IsClusterScoped x" "ShimKey (with_ShimSpec s x) = ShimKey x"
  "ConfigMapNamespaceFor (with_ShimSpec s x) ns = ConfigMapNamespaceFor x ns"
  by (cases x; simp)+

lemma same_effect_plan:
  assumes "same_effect (GetName x) s s'"
  shows "plan_for lib h ns t (with_ShimSpec s' x) = plan_for lib h ns t (with_ShimSpec s x)"
proof -
  have "Matches (lib_asSel lib) (GetName x) (spec_Selection s') t = Matches (lib_asSel lib) (GetName x) (spec_Selection s) t"
    using assms by (auto simp: Matches_def compile_def same_effect_def split: sum.split prod.split)
  moreover have "shim_input h ns t (with_ShimSpec s' x) tok = shim_input h ns t (with_ShimSpec s x) tok" for tok
    using assms by (simp add: shim_input_def Builtins_for_def same_effect_def)
  moreover have "BuildPlan E isPrint (with_ShimSpec s' x) vs tok d = BuildPlan E isPrint (with_ShimSpec s x) vs tok d" for E isPrint vs tok d
  proof -
    have b: "base_plan (with_ShimSpec s' x) tok d = base_plan (with_ShimSpec s x) tok d"
      using assms by (simp add: base_plan_def same_effect_def)
    have e: "spec_Audience s' = spec_Audience s" "spec_ExtraAudiences s' = spec_ExtraAudiences s"
      "inj_Env (spec_Inject s') = inj_Env (spec_Inject s)"
      using assms by (simp_all add: same_effect_def)
    show ?thesis unfolding BuildPlan_def b Let_def with_ShimSpec_simps same_effect_files(1) [OF assms] e ..
  qed
  moreover have "ResolveToken (GetName x) (spec_Token s') = ResolveToken (GetName x) (spec_Token s)"
    using assms by (simp add: same_effect_def)
  ultimately show ?thesis unfolding plan_for_def Let_def with_ShimSpec_simps by presburger
qed

section \<open>What the webhook does with stored objects\<close>

text \<open>
  A stored shim is its metadata and status with the spec as it was sent; the readers of the handler serve
  it decoded, after a step \<open>f\<close> on what was sent.
\<close>

definition served :: "(OIDCShimSpec_j \<Rightarrow> OIDCShimSpec_j) \<Rightarrow> OIDCShim \<times> OIDCShimSpec_j \<Rightarrow> OIDCShim" where
  "served f = (\<lambda>(s, j). s\<lparr>os_Spec := OIDCShimSpec_decode (f j)\<rparr>)"

definition served_cluster :: "(OIDCShimSpec_j \<Rightarrow> OIDCShimSpec_j) \<Rightarrow> ClusterOIDCShim \<times> OIDCShimSpec_j \<Rightarrow> ClusterOIDCShim" where
  "served_cluster f = (\<lambda>(s, j). s\<lparr>cs_Spec := (cs_Spec s)\<lparr>cos_OIDCShimSpec := OIDCShimSpec_decode (f j)\<rparr>\<rparr>)"

definition serving ::
  "(OIDCShimSpec_j \<Rightarrow> OIDCShimSpec_j) \<Rightarrow> (string \<Rightarrow> go_error + (OIDCShim \<times> OIDCShimSpec_j) list) \<Rightarrow>
     go_error + (ClusterOIDCShim \<times> OIDCShimSpec_j) list \<Rightarrow> Handler \<Rightarrow> Handler" where
  "serving f shims clusterShims h =
     h\<lparr>hd_Reader := (hd_Reader h)
         \<lparr>rd_OIDCShims := (\<lambda>ns. map_sum id (map (served f)) (shims ns)),
          rd_ClusterOIDCShims := map_sum id (map (served_cluster f)) clusterShims\<rparr>\<rparr>"

lemma sort_key_map: "sort_key f (map g xs) = map g (sort_key (\<lambda>x. f (g x)) xs)"
proof (induction xs)
  case (Cons x xs)
  have "insort_key f (g x) (map g ys) = map g (insort_key (\<lambda>x. f (g x)) x ys)" for ys by (induction ys) auto
  with Cons show ?case by simp
qed simp

definition agree_on :: "library \<Rightarrow> Handler \<Rightarrow> Shim \<Rightarrow> Shim \<Rightarrow> bool" where
  "agree_on lib h x y \<longleftrightarrow> ShimKey x = ShimKey y \<and> (\<forall>ns t. plan_for lib h ns t x = plan_for lib h ns t y)"

lemma served_agree:
  "agree_on lib h (Namespaced (served OIDCShimSpec_defaults p)) (Namespaced (served (\<lambda>j. j) p))"
  "agree_on lib h (ClusterScoped (served_cluster OIDCShimSpec_defaults q)) (ClusterScoped (served_cluster (\<lambda>j. j) q))"
  using same_effect_plan [OF defaults_same_effect, where x = "Namespaced (fst p)"]
    same_effect_plan [OF defaults_same_effect, where x = "ClusterScoped (fst q)"]
  by (simp_all add: agree_on_def served_def served_cluster_def split_def)

lemma buildPlans_agree:
  "list_all2 (agree_on lib h) xs ys \<Longrightarrow> buildPlans lib h xs ns t = buildPlans lib h ys ns t"
proof (induction rule: list_all2_induct)
  case (Cons x xs y ys)
  then have p: "plan_for lib h ns t x = plan_for lib h ns t y" "ShimKey x = ShimKey y" by (auto simp: agree_on_def)
  show ?case unfolding buildPlans.simps p Cons.IH ..
qed simp

lemma plan_for_reader: "plan_for lib (h\<lparr>hd_Reader := r\<rparr>) ns t x = plan_for lib h ns t x"
proof -
  have "shim_input (h\<lparr>hd_Reader := r\<rparr>) = shim_input h" by (intro ext) (simp add: shim_input_def getConfigMap_def [abs_def])
  moreover have "hd_Options (h\<lparr>hd_Reader := r\<rparr>) = hd_Options h" by simp
  ultimately show ?thesis unfolding plan_for_def by presburger
qed

lemma buildPlans_reader: "buildPlans lib (h\<lparr>hd_Reader := r\<rparr>) xs ns t = buildPlans lib h xs ns t"
  by (induction xs) (simp_all add: plan_for_reader)

lemma serving_lists:
  "rel_sum (=) (list_all2 (agree_on lib h)) (listShims (serving OIDCShimSpec_defaults ss cs h) ns) (listShims (serving (\<lambda>j. j) ss cs h) ns)"
proof -
  have n: "os_Name (served f x) = os_Name (fst x)" "cs_Name (served_cluster f y) = cs_Name (fst y)" for f x y
    by (simp_all add: served_def served_cluster_def split_def)
  show ?thesis
    by (cases "ss ns"; cases cs)
      (simp_all add: listShims_def serving_def sort_key_map n list_all2_appendI list.rel_map served_agree list.rel_refl)
qed

lemma mutate_agree:
  assumes "list_all2 (agree_on lib h) xs ys"
  shows "mutate_pod lib (h\<lparr>hd_Reader := r\<rparr>) req pod ns o1 o2 xs = mutate_pod lib (h\<lparr>hd_Reader := r'\<rparr>) req pod ns o1 o2 ys"
  by (simp add: mutate_pod_def buildPlans_reader buildPlans_agree [OF assms])

section \<open>What an admitted object satisfies\<close>

lemma rune_count_ascii: "\<forall>c\<in>set s. (of_char c :: nat) < 128 \<Longrightarrow> rune_count s = length s"
  unfolding rune_count_def by (subst filter_True) auto

lemma rune_count_Nil [simp]: "rune_count [] = 0"
  by (simp add: rune_count_def)

lemma countSources_decode:
  assumes "ParameterSource_schema s"
  shows "countSources (ParameterSource_decode s) = 1"
proof -
  have some: "or_zero x = [] \<longleftrightarrow> x = None" if "optional (length_between 1 n) x" for x n
    using that by (auto simp: or_zero_def optional_def length_between_def split: option.splits)
  have o: "or_zero (sj_annotation s) = [] \<longleftrightarrow> sj_annotation s = None" "or_zero (sj_label s) = [] \<longleftrightarrow> sj_label s = None"
    "or_zero (sj_template s) = [] \<longleftrightarrow> sj_template s = None"
    using assms by (auto simp: ParameterSource_schema_def intro!: some)
  have c: "length (filter id [a, b, c, d, e]) = of_bool a + of_bool b + of_bool c + of_bool d + of_bool e" for a b c d e
    by simp
  have "countSources (ParameterSource_decode s) =
      has (sj_static s) + has (sj_annotation s) + has (sj_label s) + has (sj_configMapKeyRef s) + has (sj_template s)"
    unfolding countSources_def c has_def by (simp add: ParameterSource_decode_def o of_bool_def)
  with assms show ?thesis by (simp add: ParameterSource_schema_def)
qed

fun checked_by_schema :: "shim_problem \<Rightarrow> bool" where
  "checked_by_schema (NameTooLong _ _) = True"
| "checked_by_schema (ParameterProblem (DuplicateName _)) = True"
| "checked_by_schema (ParameterProblem (SourceCount _ _)) = True"
| "checked_by_schema (TokenProblem _) = True"
| "checked_by_schema (FileModeInvalid _ _) = True"
| "checked_by_schema _ = False"

lemma admitted_parameters:
  assumes "list_all Parameter_schema ps" "distinct (map pj_name ps)" "pj_name ` set ps \<inter> set seen = {}"
    and "q \<in> set (validate_loop E known seen (map Parameter_decode ps))"
  shows "\<not> checked_by_schema (ParameterProblem q)"
  using assms
proof (induction ps arbitrary: known seen)
  case (Cons p ps)
  have "countSources (par_ValueFrom (Parameter_decode p)) = 1" "par_Name (Parameter_decode p) = pj_name p"
    using Cons.prems(1) countSources_decode by (simp_all add: Parameter_schema_def Parameter_decode_def)
  with Cons.prems(3,4) consider "q = ReservedName (pj_name p)" | "q \<in> set (template_problems E known (Parameter_decode p))"
    | "q \<in> set (validate_loop E (pj_name p # known) (pj_name p # seen) (map Parameter_decode ps))"
    by (auto split: if_splits)
  then show ?case
  proof cases
    case 3
    then show ?thesis using Cons.IH [of "pj_name p # seen" "pj_name p # known"] Cons.prems(1-3) by auto
  qed (auto simp: template_problems_def split: if_splits sum.splits)
qed simp

lemma admitted_files:
  assumes "list_all FileSpec_schema fs" "f \<in> set (map FileSpec_decode fs)"
  shows "ModePattern (file_mode f)"
proof -
  obtain g where g: "FileSpec_schema g" "f = FileSpec_decode g" using assms by (auto simp: list_all_iff)
  have "ModePattern ''0644''" by (simp add: ModePattern_def is_octal_def HasPrefix_def)
  with g show ?thesis
    by (auto simp: file_mode_def FileSpec_decode_def FileSpec_schema_def optional_def or_zero_def split: option.splits)
qed

lemma admitted_file_problems:
  assumes "\<forall>f\<in>set fs. ModePattern (file_mode f)" "p \<in> set (validate_files_loop mount seen fs)"
  shows "\<not> checked_by_schema p"
  using assms
proof (induction fs arbitrary: seen)
  case (Cons f fs)
  have "(if fs_Mode f = [] then defaultFileMode else fs_Mode f) = file_mode f" by (simp add: file_mode_def defaultFileMode_def)
  with Cons show ?case by (auto simp: Let_def split: if_splits)
qed simp

lemma admitted_templates: "p \<in> set (validateTemplates E spec) \<Longrightarrow> \<not> checked_by_schema p"
proof -
  have t: "\<not> checked_by_schema p" if "p \<in> set (check_template E known field tmpl)" for known field tmpl
    using that by (auto simp: check_template_def split: sum.splits)
  have "\<not> checked_by_schema p" if "p \<in> set (check_extras E known i as)" for known i as
    using that t by (induction as arbitrary: i) auto
  then show ?thesis if "p \<in> set (validateTemplates E spec)" using that t by (auto simp: validateTemplates_def Let_def)
qed

lemma admitted_token:
  assumes "optional TokenSpec_schema t" "length n \<le> maxShimNameLength"
  shows "validateToken isPrint n (TokenSpec_decode t) = []"
proof -
  let ?t = "ResolveToken n (TokenSpec_decode t)"
  have "ModePattern ''0644''" by (simp add: ModePattern_def is_octal_def HasPrefix_def)
  then have "ModePattern (tok_FileMode ?t)"
    using assms(1) by (cases t) (auto simp: ResolveToken_def TokenSpec_decode_def TokenSpec_schema_def optional_def or_zero_def split: option.splits)
  moreover have "tok_MountPath ?t \<noteq> []" "tok_FileName ?t \<noteq> []" by (auto simp: ResolveToken_def path_Join_Nil_iff)
  ultimately show ?thesis
    by (simp add: validateToken_def Render_helper_def validationAgentAddress_def validationAudience_def Let_def)
qed

section \<open>Properties\<close>

text \<open>
  (C11) The defaults of the schema are the defaults of the operator. Whether the server fills them in (a
  toggle of the enrollment on, the token file name, the two modes) or they are absent, as
  in an object stored before the schema had them, the answer to every admission request is the same and the
  validation of every shim reports the same problems.
\<close>

theorem Handle_defaults_neutral:
  "Handle lib (serving OIDCShimSpec_defaults shims clusterShims h) req = Handle lib (serving (\<lambda>j. j) shims clusterShims h) req \<and>
   validateShim asSel E isPrint (OIDCShimSpec_decode (OIDCShimSpec_defaults j)) name =
     validateShim asSel E isPrint (OIDCShimSpec_decode j) name"
proof
  let ?h = "\<lambda>f. serving f shims clusterShims h"
  have rd: "rd_Namespace (hd_Reader (?h f)) = rd_Namespace (hd_Reader h)"
    "rd_ServiceAccount (hd_Reader (?h f)) = rd_ServiceAccount (hd_Reader h)"
    and same: "hd_Decode (?h f) = hd_Decode h" "hd_Options (?h f) = hd_Options h" for f
    by (simp_all add: serving_def)
  have target: "readTarget (?h f) ns pod = readTarget h ns pod" for f ns pod unfolding readTarget_def rd ..
  have "(case listShims (?h OIDCShimSpec_defaults) ns of Inl resp \<Rightarrow> resp
      | Inr xs \<Rightarrow> mutate_pod lib (?h OIDCShimSpec_defaults) req pod ns o1 o2 xs) =
    (case listShims (?h (\<lambda>j. j)) ns of Inl resp \<Rightarrow> resp
      | Inr xs \<Rightarrow> mutate_pod lib (?h (\<lambda>j. j)) req pod ns o1 o2 xs)" for ns pod o1 o2
    using serving_lists [of lib h shims clusterShims ns]
    by (cases rule: rel_sum.cases) (auto simp: serving_def intro: mutate_agree)
  then show "Handle lib (?h OIDCShimSpec_defaults) req = Handle lib (?h (\<lambda>j. j)) req"
    unfolding Handle_def same target by presburger
qed (rule same_effect_validate [OF defaults_same_effect])

lemma render_files_admitted:
  assumes "\<forall>f\<in>set fs. ModePattern (file_mode f)"
  shows "render_files E vs mount i seen fs \<noteq> Inl (BadFileMode k p m)"
  using assms ModePattern_parse(1)
  by (induction fs arbitrary: i seen) (auto split: sum.split if_splits)

lemma no_mode_error:
  "render_extras E vs i as \<noteq> Inl (BadFileMode k p m)" "render_env E vs i es \<noteq> Inl (BadFileMode k p m)"
  by (induction as arbitrary: i; auto split: sum.split) (induction es arbitrary: i; auto split: sum.split)

text \<open>
  The sample \<open>config/samples/oidcshim_v1alpha1_clusteroidcshim_azure.yaml\<close>.
\<close>

definition annotation_source :: "string \<Rightarrow> ParameterSource_j" where
  "annotation_source key =
     \<lparr>sj_static = None, sj_annotation = Some key, sj_label = None, sj_configMapKeyRef = None, sj_template = None\<rparr>"

definition azure_sample :: OIDCShimSpec_j where
  "azure_sample =
     \<lparr>oj_provider = Some ''azure'',
      oj_selection = \<lparr>sel_Enrollment = Some \<lparr>en_Namespaces = Some True, en_ServiceAccounts = Some True, en_Pods = Some True\<rparr>,
        sel_NamespaceSelector = None, sel_ServiceAccountSelector = None, sel_PodSelector = None\<rparr>,
      oj_parameters =
        [\<lparr>pj_name = ''clientId'', pj_valueFrom = annotation_source ''azure.workload.identity/client-id'',
          pj_default = None, pj_required = Some True\<rparr>,
         \<lparr>pj_name = ''tenantId'', pj_valueFrom = annotation_source ''azure.workload.identity/tenant-id'',
          pj_default = None, pj_required = Some True\<rparr>,
         \<lparr>pj_name = ''authorityHost'', pj_valueFrom = annotation_source ''azure.workload.identity/authority-host'',
          pj_default = Some ''https://login.microsoftonline.com/'', pj_required = None\<rparr>],
      oj_audience = ''api://AzureADTokenExchange'',
      oj_extraAudiences = [],
      oj_token = Some \<lparr>tj_volumeName = None, tj_mountPath = Some ''/var/run/secrets/azure/tokens'',
        tj_fileName = Some ''azure-identity-token'', tj_fileMode = None\<rparr>,
      oj_inject = \<lparr>ij_env =
          [\<lparr>ej_name = ''AZURE_CLIENT_ID'', ej_value = Some ''{{ .clientId }}''\<rparr>,
           \<lparr>ej_name = ''AZURE_TENANT_ID'', ej_value = Some ''{{ .tenantId }}''\<rparr>,
           \<lparr>ej_name = ''AZURE_AUTHORITY_HOST'', ej_value = Some ''{{ .authorityHost }}''\<rparr>,
           \<lparr>ej_name = ''AZURE_FEDERATED_TOKEN_FILE'', ej_value = Some ''{{ .tokenPath }}''\<rparr>],
        ij_files = [], ij_containers = []\<rparr>,
      oj_spiffe = None, oj_helper = None\<rparr>"

text \<open>
  (C31) What the operator's validation can still find in an object that the schema admitted: never a name
  too long, a parameter defined twice or with a number of sources other than one, a token setting that the
  helper's configuration refuses or a bad file mode. The checks that repeat the schema never fire, and no
  file mode of such a shim makes a plan fail.
\<close>

theorem admitted_problems:
  assumes "object_schema name (OIDCShimSpec_defaults j)" "\<forall>c\<in>set name. (of_char c :: nat) < 128"
    and "spec = OIDCShimSpec_decode (OIDCShimSpec_defaults j)"
  shows "(\<forall>p\<in>set (validateShim asSel E isPrint spec name). \<not> checked_by_schema p) \<and>
    BuildPlan E isPrint (with_ShimSpec spec shim) vs tok d \<noteq> Inl (BadFileMode k path m)"
proof -
  let ?j = "OIDCShimSpec_defaults j"
  have sch: "OIDCShimSpec_schema ?j" and n: "length name \<le> maxShimNameLength"
    using assms(1,2) rune_count_ascii [of name] by (simp_all add: object_schema_def maxShimNameLength_def)
  have sp: "spec_Parameters spec = map Parameter_decode (oj_parameters ?j)" "spec_Token spec = TokenSpec_decode (oj_token ?j)"
    "inj_Files (spec_Inject spec) = map FileSpec_decode (ij_files (oj_inject ?j))"
    by (simp_all add: assms(3) OIDCShimSpec_decode_def InjectSpec_decode_def)
  have f: "\<forall>f\<in>set (inj_Files (spec_Inject spec)). ModePattern (file_mode f)"
    using admitted_files [of "ij_files (oj_inject ?j)"] sch unfolding sp by (auto simp: OIDCShimSpec_schema_def InjectSpec_schema_def)
  have par: "\<not> checked_by_schema (ParameterProblem q)" if "q \<in> set (Validate_params E (spec_Parameters spec))" for q
    using admitted_parameters [of "oj_parameters ?j" "[]" q E builtinKeys] sch that
    by (simp add: sp Validate_params_def OIDCShimSpec_schema_def)
  have tok: "validateToken isPrint name (spec_Token spec) = []"
    unfolding sp(2) by (rule admitted_token [OF _ n]) (use sch in \<open>simp add: OIDCShimSpec_schema_def\<close>)
  have "\<not> checked_by_schema p" if "p \<in> set (validateShim asSel E isPrint spec name)" for p
    using that n par tok admitted_templates admitted_file_problems [OF f] unfolding validateShim_def validateName_def validateFiles_def
    by (auto simp: validateHelper_def split: option.splits if_splits)
  moreover have "BuildPlan E isPrint (with_ShimSpec spec shim) vs tok d \<noteq> Inl (BadFileMode k path m)"
    using render_files_admitted [OF f] no_mode_error by (auto simp: BuildPlan_def Let_def split: sum.splits if_splits)
  ultimately show ?thesis by blast
qed

theorem admitted_problems_witness:
  "object_schema ''azure'' (OIDCShimSpec_defaults azure_sample) \<and>
   list_all (\<lambda>p. \<not> checked_by_schema p)
     (validateShim (\<lambda>_. Inl []) field_engine (\<lambda>c. True) (OIDCShimSpec_decode (OIDCShimSpec_defaults azure_sample)) ''azure'')"
proof -
  have "object_schema ''azure'' (OIDCShimSpec_defaults azure_sample)" by code_simp
  moreover have "\<forall>c\<in>set ''azure''. (of_char c :: nat) < 128" by code_simp
  ultimately show ?thesis using admitted_problems [OF _ _ refl, of "''azure''" azure_sample] unfolding list_all_iff by blast
qed

end
