(* ===== verification/Messages.thy ===== *)
theory Messages
  imports Schema
begin

text \<open>
  The texts of the program: the messages of its errors, the warnings of an admission response and the message of
  the Ready condition, byte for byte as the format strings of the code produce them. Elsewhere an error is
  a value with the data its text prints; here each kind of error has its text, composed the way the
  code wraps errors. The parameter \<open>isPrint\<close> is the table of printable runes of \<open>%q\<close>.
\<close>

section \<open>Numbers and joined errors\<close>

definition itoa_int :: "int \<Rightarrow> string" where
  "itoa_int n = (if n < 0 then ''-'' @ itoa (nat (- n)) else itoa (nat n))"

text \<open>
  \<open>errors.Join\<close>: nil errors are dropped, the texts of the others are lines; without any the result
  is nil.
\<close>

definition errors_Join :: "string option list \<Rightarrow> string option" where
  "errors_Join errs =
     (let texts = List.map_filter (\<lambda>e. e) errs in
      if texts = [] then None else Some (join newline texts))"

definition lines_of :: "('e \<Rightarrow> string) \<Rightarrow> 'e list \<Rightarrow> string option" where
  "lines_of text es = errors_Join (map (\<lambda>e. Some (text e)) es)"

section \<open>Errors of the packages\<close>

fun source_text :: "(nat \<Rightarrow> bool) \<Rightarrow> source_description \<Rightarrow> string" where
  "source_text isPrint StaticValue = ''static value''"
| "source_text isPrint (AnnotationSource a) = ''annotation '' @ Quote isPrint a"
| "source_text isPrint (LabelSource l) = ''label '' @ Quote isPrint l"
| "source_text isPrint (ConfigMapSource key name) = ''key '' @ Quote isPrint key @ '' of ConfigMap '' @ Quote isPrint name"
| "source_text isPrint TemplateSource = ''template''"
| "source_text isPrint NoSource = ''no source''"

fun resolve_error_text :: "(nat \<Rightarrow> bool) \<Rightarrow> resolve_error \<Rightarrow> string" where
  "resolve_error_text isPrint (MissingParameterError name source) =
     ''required parameter '' @ Quote isPrint name @ '' has no value: '' @ source_text isPrint source @
     '' yielded nothing and no default is set''"
| "resolve_error_text isPrint (NoConfigMapGetter name) =
     ''parameter '' @ Quote isPrint name @ '': configMapKeyRef requires a ConfigMap getter''"
| "resolve_error_text isPrint (ReadingConfigMap name cm err) =
     ''parameter '' @ Quote isPrint name @ '': reading ConfigMap '' @ Quote isPrint cm @ '': '' @ err"
| "resolve_error_text isPrint (ParameterTemplate name err) = ''parameter '' @ Quote isPrint name @ '': '' @ err"

fun helper_error_text :: "(nat \<Rightarrow> bool) \<Rightarrow> helper_error \<Rightarrow> string" where
  "helper_error_text isPrint AgentAddressEmpty = ''spiffehelper: AgentAddress must not be empty''"
| "helper_error_text isPrint CertDirEmpty = ''spiffehelper: CertDir must not be empty''"
| "helper_error_text isPrint JWTAudienceEmpty = ''spiffehelper: JWTAudience must not be empty''"
| "helper_error_text isPrint JWTSVIDFileNameEmpty = ''spiffehelper: JWTSVIDFileName must not be empty''"
| "helper_error_text isPrint (InvalidFileMode mode) =
     ''spiffehelper: JWTSVIDFileMode '' @ Quote isPrint mode @ '' is not a valid octal mode''"

definition plan_prefix :: "(nat \<Rightarrow> bool) \<Rightarrow> string \<Rightarrow> string" where
  "plan_prefix isPrint name = ''injection: shim '' @ Quote isPrint name @ '': ''"

fun plan_error_text :: "(nat \<Rightarrow> bool) \<Rightarrow> string \<Rightarrow> plan_error \<Rightarrow> string" where
  "plan_error_text isPrint name (RenderAudience err) = plan_prefix isPrint name @ ''render audience: '' @ err"
| "plan_error_text isPrint name (RenderExtraAudience i err) =
     plan_prefix isPrint name @ ''render extraAudiences['' @ itoa i @ '']: '' @ err"
| "plan_error_text isPrint name (RenderEnv i env err) =
     plan_prefix isPrint name @ ''render inject.env['' @ itoa i @ ''] '' @ Quote isPrint env @ '': '' @ err"
| "plan_error_text isPrint name (RenderFile i path err) =
     plan_prefix isPrint name @ ''render inject.files['' @ itoa i @ ''] '' @ Quote isPrint path @ '': '' @ err"
| "plan_error_text isPrint name (PathIsTokenMount i path) =
     plan_prefix isPrint name @ ''inject.files['' @ itoa i @ ''] path '' @ Quote isPrint path @
     '' collides with the token mountPath''"
| "plan_error_text isPrint name (PathAlreadyUsed i path) =
     plan_prefix isPrint name @ ''inject.files['' @ itoa i @ ''] path '' @ Quote isPrint path @
     '' is already used by an earlier file''"
| "plan_error_text isPrint name (PathUnderTokenMount i path mount) =
     plan_prefix isPrint name @ ''inject.files['' @ itoa i @ ''] path '' @ Quote isPrint path @
     '' is under the token mountPath '' @ Quote isPrint mount @ '', which is mounted read-only''"
| "plan_error_text isPrint name (BadFileMode i path mode) =
     plan_prefix isPrint name @ ''inject.files['' @ itoa i @ ''] '' @ Quote isPrint path @ '': '' @
     Quote isPrint mode @ '' is not a valid octal file mode''"
| "plan_error_text isPrint name (RenderHelperConf err) =
     plan_prefix isPrint name @ ''render helper config: '' @ helper_error_text isPrint err"
| "plan_error_text isPrint name (TooManyRenderedBytes n limit) =
     plan_prefix isPrint name @ ''rendered content is '' @ itoa n @ '' bytes, exceeds the '' @ itoa_int limit @ '' byte limit''"

definition selection_problem_text :: "string \<times> go_error \<Rightarrow> string" where
  "selection_problem_text = (\<lambda>(field, err). field @ '': '' @ err)"

section \<open>Warnings of an admission response\<close>

definition skipped :: "string \<Rightarrow> string \<Rightarrow> string" where
  "skipped shimKey err = ''shim '' @ shimKey @ '' skipped: '' @ err"

definition skipped_plan :: "(nat \<Rightarrow> bool) \<Rightarrow> string \<Rightarrow> string \<Rightarrow> string" where
  "skipped_plan isPrint shimName reason = ''shim '' @ Quote isPrint shimName @ '': skipped: '' @ reason"

fun skip_error_text :: "(nat \<Rightarrow> bool) \<Rightarrow> string \<Rightarrow> skip_error \<Rightarrow> string" where
  "skip_error_text isPrint name (SkipSelection problems) = join newline (map selection_problem_text problems)"
| "skip_error_text isPrint name (SkipResolve err) = resolve_error_text isPrint err"
| "skip_error_text isPrint name (SkipPlan err) = plan_error_text isPrint name err"

fun collision_text :: "(nat \<Rightarrow> bool) \<Rightarrow> collision \<Rightarrow> string" where
  "collision_text isPrint SocketVolumeNotCSI =
     ''volume '' @ Quote isPrint socketVolumeName @ '' already exists but is not a CSI volume''"
| "collision_text isPrint (SocketVolumeDriver got drv) =
     ''volume '' @ Quote isPrint socketVolumeName @ '' already exists with CSI driver '' @ Quote isPrint got @
     '', want '' @ Quote isPrint drv"
| "collision_text isPrint (VolumeExists name) = ''volume '' @ Quote isPrint name @ '' already exists on the pod''"
| "collision_text isPrint (InitContainerExists name) =
     ''init container '' @ Quote isPrint name @ '' already exists on the pod''"
| "collision_text isPrint (MountExists c path) =
     ''container '' @ Quote isPrint c @ '' already mounts '' @ Quote isPrint path"

fun apply_warning_text :: "(nat \<Rightarrow> bool) \<Rightarrow> apply_warning \<Rightarrow> string" where
  "apply_warning_text isPrint PodAlreadyInjected =
     ''pod already carries '' @ StatusAnnotation @ ''='' @ StatusInjected @ ''; skipping injection''"
| "apply_warning_text isPrint (BudgetExceeded shimKey bytes) =
     ''shim '' @ shimKey @ '' skipped: rendered content would exceed the pod annotation budget ('' @ itoa bytes @ '' > '' @
     itoa MaxPodAnnotationBytes @ '' bytes)''"
| "apply_warning_text isPrint (ContainerNotFound shimName name) =
     ''shim '' @ Quote isPrint shimName @ '': container '' @ Quote isPrint name @ '' not found on pod''"
| "apply_warning_text isPrint (NoRequestedContainer shimName requested) =
     skipped_plan isPrint shimName (''none of the requested containers exist on the pod: '' @ join '', '' requested)"
| "apply_warning_text isPrint (CollisionFound shimName reason) =
     skipped_plan isPrint shimName (collision_text isPrint reason)"
| "apply_warning_text isPrint (EnvAlreadyDefined shimName container name) =
     ''shim '' @ Quote isPrint shimName @ '': container '' @ Quote isPrint container @ '' already defines env var '' @
     Quote isPrint name @ ''; leaving it untouched''"

text \<open>
  The warning of a skipped shim carries its key; the name that the text of a plan error prints is the last part of it.
\<close>

definition key_name :: "string \<Rightarrow> string" where
  "key_name key = last (split_on (CHR ''/'') key)"

fun handler_warning_text :: "(nat \<Rightarrow> bool) \<Rightarrow> handler_warning \<Rightarrow> string" where
  "handler_warning_text isPrint (ShimSkipped key err) = skipped key (skip_error_text isPrint (key_name key) err)"
| "handler_warning_text isPrint (ApplyWarning w) = apply_warning_text isPrint w"

fun response_warnings :: "response \<Rightarrow> handler_warning list" where
  "response_warnings (Allowed reason ws) = ws"
| "response_warnings (Errored code err) = []"
| "response_warnings (Patched before after ws) = ws"

fun handler_error_text :: "(nat \<Rightarrow> bool) \<Rightarrow> handler_error \<Rightarrow> string" where
  "handler_error_text isPrint (DecodeFailed err) = err"
| "handler_error_text isPrint (GetNamespaceFailed ns err) = ''get namespace '' @ Quote isPrint ns @ '': '' @ err"
| "handler_error_text isPrint (GetServiceAccountFailed ns sa err) =
     ''get serviceaccount '' @ Quote isPrint ns @ ''/'' @ Quote isPrint sa @ '': '' @ err"
| "handler_error_text isPrint (ListShimsFailed ns err) = ''list oidcshims in '' @ Quote isPrint ns @ '': '' @ err"
| "handler_error_text isPrint (ListClusterShimsFailed err) = ''list clusteroidcshims: '' @ err"
| "handler_error_text isPrint (MarshalFailed err) = err"

section \<open>Problems of a shim\<close>

fun param_problem_text :: "(nat \<Rightarrow> bool) \<Rightarrow> param_problem \<Rightarrow> string" where
  "param_problem_text isPrint (DuplicateName n) = ''parameter '' @ Quote isPrint n @ '': duplicate name''"
| "param_problem_text isPrint (ReservedName n) =
     ''parameter '' @ Quote isPrint n @ '': name is reserved for a builtin value''"
| "param_problem_text isPrint (SourceCount n k) =
     ''parameter '' @ Quote isPrint n @
     '': exactly one of static, annotation, label, configMapKeyRef or template must be set, got '' @ itoa k"
| "param_problem_text isPrint (InvalidTemplate n err) =
     ''parameter '' @ Quote isPrint n @ '': invalid template: '' @ err"
| "param_problem_text isPrint (UndefinedReference n key) =
     ''parameter '' @ Quote isPrint n @ '': template references '' @ Quote isPrint key @
     '', which is not a builtin or a parameter defined before it''"

definition file_field :: "string \<Rightarrow> string" where
  "file_field path = ''spec.inject.files['' @ path @ '']''"

fun shim_problem_text :: "(nat \<Rightarrow> bool) \<Rightarrow> shim_problem \<Rightarrow> string" where
  "shim_problem_text isPrint (NameTooLong name n) =
     ''metadata.name: '' @ Quote isPrint name @ '' is '' @ itoa n @ '' characters, at most '' @ itoa maxShimNameLength @
     '' are allowed (it is embedded in container and volume names)''"
| "shim_problem_text isPrint (ParameterProblem p) = param_problem_text isPrint p"
| "shim_problem_text isPrint (SelectionProblem p) = selection_problem_text p"
| "shim_problem_text isPrint (TokenProblem err) = ''spec.token: '' @ helper_error_text isPrint err"
| "shim_problem_text isPrint (BadImagePullPolicy policy) =
     ''spec.helper.imagePullPolicy: '' @ Quote isPrint policy @ '' must be one of Always, IfNotPresent or Never''"
| "shim_problem_text isPrint (TemplateInvalid field err) = field @ '': invalid template: '' @ err"
| "shim_problem_text isPrint (TemplateReference field key) =
     field @ '': template references '' @ Quote isPrint key @ '', which is not a builtin or a parameter of this shim''"
| "shim_problem_text isPrint (FileModeInvalid path mode) =
     file_field path @ '': mode '' @ Quote isPrint mode @ '' is not a valid octal mode''"
| "shim_problem_text isPrint (FileOnTokenMount path mount) =
     file_field path @ '': path collides with the token mountPath '' @ Quote isPrint mount"
| "shim_problem_text isPrint (FilePathDuplicate path) = file_field path @ '': duplicate path''"
| "shim_problem_text isPrint (FileUnderTokenMount path mount) =
     file_field path @ '': path is under the token mountPath '' @ Quote isPrint mount @ '', which is mounted read-only''"

text \<open>The text of a list of problems, one per line; and the error that \<open>validateShim\<close> returns, joined as the code joins it.\<close>

definition problems_text :: "(nat \<Rightarrow> bool) \<Rightarrow> shim_problem list \<Rightarrow> string" where
  "problems_text isPrint problems = join newline (map (shim_problem_text isPrint) problems)"

definition validateShim_error ::
  "as_selector \<Rightarrow> engine \<Rightarrow> (nat \<Rightarrow> bool) \<Rightarrow> OIDCShimSpec \<Rightarrow> string \<Rightarrow> string option" where
  "validateShim_error asSel E isPrint spec shimName =
     errors_Join
       [lines_of (shim_problem_text isPrint) (validateName shimName),
        lines_of (param_problem_text isPrint) (Validate_params E (spec_Parameters spec)),
        lines_of selection_problem_text (Validate_selection asSel (spec_Selection spec)),
        lines_of (shim_problem_text isPrint) (validateToken isPrint shimName (spec_Token spec)),
        lines_of (shim_problem_text isPrint) (validateHelper (spec_Helper spec)),
        lines_of (shim_problem_text isPrint) (validateTemplates E spec),
        lines_of (shim_problem_text isPrint)
          (validateFiles (inj_Files (spec_Inject spec)) (tok_MountPath (ResolveToken shimName (spec_Token spec))))]"

fun reconcile_error_text :: "reconcile_error \<Rightarrow> string" where
  "reconcile_error_text (UpdatingStatus key err) = ''updating status of '' @ key @ '': '' @ err"
| "reconcile_error_text (ListingPods key err) = ''listing pods of '' @ key @ '': '' @ err"
| "reconcile_error_text (GettingShim err) = err"

fun option_error_text :: "(nat \<Rightarrow> bool) \<Rightarrow> option_error \<Rightarrow> string" where
  "option_error_text isPrint ImageEmpty = ''spiffe helper image must not be empty''"
| "option_error_text isPrint (BadPullPolicy policy) =
     ''spiffe helper image pull policy must be one of Always, IfNotPresent, Never: '' @ Quote isPrint policy"
| "option_error_text isPrint CSIDriverEmpty = ''spiffe CSI driver must not be empty''"
| "option_error_text isPrint (SocketMountPathNotAbsolute path) =
     ''spiffe socket mount path must be absolute: '' @ Quote isPrint path"
| "option_error_text isPrint SocketFileEmpty = ''spiffe socket file must not be empty''"
| "option_error_text isPrint (SocketFileHasSlash file) = ''spiffe socket file must not contain '' @ [CHR 0x27] @ ''/'' @ [CHR 0x27] @ '': '' @ Quote isPrint file"
| "option_error_text isPrint (MaxRenderedBytesNotPositive n) = ''max rendered bytes must be positive: '' @ itoa_int n"

section \<open>The log line of an admission\<close>

text \<open>\<open>log\<close>: what is logged for a handled pod, at verbosity 1.\<close>

record log_entry =
  log_pod :: string
  log_namespace :: string
  log_appliedShims :: "string list"
  log_warnings :: "string list"

definition log_line ::
  "bool \<Rightarrow> (nat \<Rightarrow> bool) \<Rightarrow> Pod \<Rightarrow> string \<Rightarrow> Plan list \<Rightarrow> handler_warning list \<Rightarrow> log_entry option" where
  "log_line enabled isPrint pod namespace applied warnings =
     (if \<not> enabled then None
      else Some
        \<lparr>log_pod = (if pod_Name pod = [] then pod_GenerateName pod @ ''<generated>'' else pod_Name pod),
         log_namespace = namespace,
         log_appliedShims = map p_ShimKey applied,
         log_warnings = map (handler_warning_text isPrint) warnings\<rparr>)"

section \<open>Reading a warning\<close>

text \<open>Whom a warning is about, as a user reads it: the key or the quoted name behind the word \<open>shim\<close>.\<close>

datatype warned = ByKey string | ByName string

definition read_warning :: "string \<Rightarrow> warned option" where
  "read_warning s =
     (if \<not> HasPrefix s ''shim '' then None
      else
        (let r = drop 5 s in
         if HasPrefix r [CHR 0x22] then map_option (\<lambda>(name, rest). ByName name) (unquote r)
         else Some (ByKey (takeWhile (\<lambda>c. c \<noteq> CHR '' '') r))))"

lemma read_warning_name: "read_warning (''shim '' @ Quote isPrint n @ rest) = Some (ByName n)"
proof -
  have "HasPrefix (Quote isPrint n @ rest) [CHR 0x22]" by (simp add: Quote_def HasPrefix_def)
  then show ?thesis using unquote_Quote [of isPrint n rest] by (simp add: read_warning_def HasPrefix_def)
qed

lemma read_warning_key:
  assumes "CHR '' '' \<notin> set key" "\<not> HasPrefix key [CHR 0x22]" "key \<noteq> []"
  shows "read_warning (''shim '' @ key @ '' '' @ rest) = Some (ByKey key)"
proof -
  have "takeWhile (\<lambda>c. c \<noteq> CHR '' '') (key @ CHR '' '' # rest) = key"
    using assms(1) by (subst takeWhile_append2) auto
  with assms(2,3) show ?thesis by (cases key) (auto simp: read_warning_def HasPrefix_def)
qed

fun about_plan :: "Plan \<Rightarrow> apply_warning \<Rightarrow> bool" where
  "about_plan plan PodAlreadyInjected = False"
| "about_plan plan (BudgetExceeded k _) = (k = p_ShimKey plan)"
| "about_plan plan (ContainerNotFound n _) = (n = p_ShimName plan)"
| "about_plan plan (NoRequestedContainer n _) = (n = p_ShimName plan)"
| "about_plan plan (CollisionFound n _) = (n = p_ShimName plan)"
| "about_plan plan (EnvAlreadyDefined n _ _) = (n = p_ShimName plan)"

lemma select_targets_about: "w \<in> set (snd (select_targets cs (p_ShimName plan) ns)) \<Longrightarrow> about_plan plan w"
  by (induction ns) (auto split: prod.splits if_splits)

lemma add_env_about: "w \<in> set (snd (add_env (p_ShimName plan) es c)) \<Longrightarrow> about_plan plan w"
proof (induction es arbitrary: c)
  case (Cons e es)
  then show ?case using Cons.IH [of c] by (cases "add_env (p_ShimName plan) es c") (auto split: if_splits)
qed simp

lemma injectIntoContainers_about: "w \<in> set (snd (injectIntoContainers cs plan ns)) \<Longrightarrow> about_plan plan w"
proof (induction ns arbitrary: cs)
  case (Cons n ns)
  show ?case
  proof (cases "findContainer cs n")
    case (Some c)
    obtain c' ws where c': "inject_container plan c = (c', ws)" by force
    obtain cs' ws' where r: "injectIntoContainers (replace_first n c' cs) plan ns = (cs', ws')" by force
    have "w \<in> set ws \<or> w \<in> set ws'" using Cons.prems Some c' r by auto
    then show ?thesis
      using Cons.IH [of "replace_first n c' cs"] c' r
        add_env_about [of w plan "p_Env plan" "c\<lparr>c_VolumeMounts := c_VolumeMounts c @ plan_mounts plan\<rparr>"]
      by (auto simp: inject_container_def)
  qed (use Cons in simp)
qed simp

lemma apply_plan_about:
  assumes "w \<in> set (a_warnings (apply_plan N plan st))"
  shows "w \<in> set (a_warnings st) \<or> about_plan plan w"
proof -
  obtain targets requested tws where r: "resolveTargets (a_pod st) plan = (targets, requested, tws)"
    by (cases "resolveTargets (a_pod st) plan") auto
  have t: "about_plan plan w" if "w \<in> set tws"
    using that r select_targets_about [of w "pod_Containers (a_pod st)" plan "requested_containers (a_pod st) plan"]
    by (auto simp: resolveTargets_def Let_def split: if_splits prod.splits)
  show ?thesis
    using assms t injectIntoContainers_about [of w "pod_Containers (addVolumes (a_pod st) plan)" plan targets]
    by (auto simp: apply_plan_def r Let_def split: if_splits option.splits prod.splits)
qed

lemma fold_apply_about:
  "w \<in> set (a_warnings (fold (apply_plan N) plans st)) \<Longrightarrow> w \<in> set (a_warnings st) \<or> (\<exists>plan\<in>set plans. about_plan plan w)"
  by (induction plans arbitrary: st) (auto dest: apply_plan_about)

lemma Apply_about:
  assumes "Apply_pod pod plans = (pod', applied, ws)" "smap_get (pod_Annotations pod) StatusAnnotation \<noteq> StatusInjected" "w \<in> set ws"
  shows "\<exists>plan\<in>set plans. about_plan plan w"
  using assms fold_apply_about [of w "annotationBytes pod" plans "apply_start pod"]
  by (auto simp: Apply_pod_def apply_start_def Let_def split: if_splits)

lemma buildPlans_warned:
  "ShimSkipped key err \<in> set (snd (buildPlans lib h shims ns t)) \<Longrightarrow> \<exists>s\<in>set shims. key = ShimKey s"
  "ApplyWarning w \<notin> set (snd (buildPlans lib h shims ns t))"
  by (induction shims) (auto split: prod.splits sum.splits option.splits)

lemma buildPlans_from:
  "plan \<in> set (fst (buildPlans lib h shims ns t)) \<Longrightarrow> \<exists>s\<in>set shims. p_ShimKey plan = ShimKey s \<and> p_ShimName plan = GetName s"
  unfolding buildPlans_plans using shim_plan_Some(3,4) [of lib h ns t _ plan] by (auto simp: List.map_filter_def)

text \<open>The warnings of a response: what a listed shim, or a plan of one, gave rise to.\<close>

fun about_shim :: "Shim \<Rightarrow> handler_warning \<Rightarrow> bool" where
  "about_shim s (ShimSkipped key err) = (key = ShimKey s)"
| "about_shim s (ApplyWarning w) = (\<exists>plan. p_ShimKey plan = ShimKey s \<and> p_ShimName plan = GetName s \<and> about_plan plan w)"

lemma mutate_pod_warned:
  assumes "w \<in> set (response_warnings (mutate_pod lib h req pod ns o1 o2 shims))"
    and "smap_get (pod_Annotations pod) StatusAnnotation \<noteq> StatusInjected"
  shows "\<exists>s\<in>set shims. about_shim s w"
proof -
  let ?t = "\<lparr>t_Pod = Some pod, t_ServiceAccount = o2, t_Namespace = o1\<rparr>"
  obtain plans ws where b: "buildPlans lib h shims ns ?t = (plans, ws)" by force
  obtain pod' applied aws where a: "Apply_pod pod plans = (pod', applied, aws)" by (metis prod.exhaust)
  have "w \<in> set ws \<or> (\<exists>v\<in>set aws. w = ApplyWarning v)"
    using assms(1) by (auto simp: mutate_pod_def Let_def b a split: if_splits sum.splits)
  then show ?thesis
  proof
    assume ws: "w \<in> set ws"
    show ?thesis
    proof (cases w)
      case (ShimSkipped key err)
      with ws b buildPlans_warned(1) [of key err lib h shims ns ?t] show ?thesis by simp
    next
      case (ApplyWarning v)
      with ws b buildPlans_warned(2) [of v lib h shims ns ?t] show ?thesis by simp
    qed
  next
    assume "\<exists>v\<in>set aws. w = ApplyWarning v"
    then show ?thesis using Apply_about [OF a assms(2)] buildPlans_from [of _ lib h shims ns ?t] b by fastforce
  qed
qed

lemma error_response_silent:
  "readTarget h ns pod = Inl r \<Longrightarrow> response_warnings r = []"
  "listShims h ns = Inl r \<Longrightarrow> response_warnings r = []"
  using readTarget_error [of h ns pod r] listShims_error [of h ns r] by auto

lemma Handle_warned:
  assumes "w \<in> set (response_warnings (Handle lib h req))"
  shows "\<exists>pod shims. hd_Decode h req = Inr pod \<and> listShims h (request_namespace req pod) = Inr shims \<and>
    (\<exists>s\<in>set shims. about_shim s w)"
  using assms
  by (auto simp: Handle_def Let_def error_response_silent split: if_splits sum.splits prod.splits dest!: mutate_pod_warned)

lemma about_shim_read:
  assumes "about_shim s w" "CHR '' '' \<notin> set (ShimKey s)"
  shows "read_warning (handler_warning_text isPrint w) = Some (ByKey (ShimKey s)) \<or>
    read_warning (handler_warning_text isPrint w) = Some (ByName (GetName s))"
proof -
  have key: "read_warning (''shim '' @ ShimKey s @ '' '' @ rest) = Some (ByKey (ShimKey s))" for rest
    by (rule read_warning_key [OF assms(2)]) (cases s; simp add: HasPrefix_def)+
  show ?thesis
  proof (cases w)
    case (ShimSkipped k err)
    with assms(1) key [of "''skipped: '' @ skip_error_text isPrint (key_name k) err"] show ?thesis by (simp add: skipped_def)
  next
    case (ApplyWarning v)
    with assms(1) show ?thesis
      using key read_warning_name [of isPrint "GetName s"]
      by (cases v) (auto simp: skipped_plan_def)
  qed
qed

section \<open>The length of a Ready message\<close>

lemma join_append:
  "join sep (xs @ ys) = (if xs = [] then join sep ys else if ys = [] then join sep xs else join sep xs @ sep @ join sep ys)"
  by (induction sep xs rule: join.induct) (auto simp: neq_Nil_conv)

lemma lines_of_eq: "lines_of text es = (if es = [] then None else Some (join newline (map text es)))"
  by (simp add: lines_of_def errors_Join_def List.map_filter_def comp_def)

lemma errors_Join_lines:
  "errors_Join (map (\<lambda>ts. if ts = [] then None else Some (join newline ts)) tss) =
     (if concat tss = [] then None else Some (join newline (concat tss)))"
proof -
  have "join newline (List.map_filter (\<lambda>e. e) (map (\<lambda>ts. if ts = [] then None else Some (join newline ts)) tss)) =
      join newline (concat tss) \<and>
    (List.map_filter (\<lambda>e. e) (map (\<lambda>ts. if ts = [] then None else Some (join newline ts)) tss) = [] \<longleftrightarrow> concat tss = [])"
  proof (induction tss)
    case (Cons ts tss)
    let ?r = "List.map_filter (\<lambda>e. e) (map (\<lambda>ts. if ts = [] then None else Some (join newline ts)) tss)"
    have "join newline (x # ?r) = (if ?r = [] then x else x @ newline @ join newline ?r)" for x
      by (cases ?r) simp_all
    with Cons show ?case by (auto simp: map_filter_simps join_append)
  qed (simp add: map_filter_simps)
  then show ?thesis unfolding errors_Join_def Let_def by auto
qed

text \<open>The joined error of the validation lists the problems in order, whatever check found them.\<close>

lemma validateShim_error_eq:
  "validateShim_error asSel E isPrint spec n =
     (case validateShim asSel E isPrint spec n of [] \<Rightarrow> None | ps \<Rightarrow> Some (problems_text isPrint ps))"
proof -
  let ?T = "map (shim_problem_text isPrint)"
  let ?tss = "[?T (validateName n), map (param_problem_text isPrint) (Validate_params E (spec_Parameters spec)),
      map selection_problem_text (Validate_selection asSel (spec_Selection spec)),
      ?T (validateToken isPrint n (spec_Token spec)), ?T (validateHelper (spec_Helper spec)), ?T (validateTemplates E spec),
      ?T (validateFiles (inj_Files (spec_Inject spec)) (tok_MountPath (ResolveToken n (spec_Token spec))))]"
  have c: "concat ?tss = ?T (validateShim asSel E isPrint spec n)"
    by (simp add: validateShim_def comp_def)
  have "validateShim_error asSel E isPrint spec n =
      errors_Join (map (\<lambda>ts. if ts = [] then None else Some (join newline ts)) ?tss)"
    by (simp add: validateShim_error_def lines_of_eq)
  also have "\<dots> = (if ?T (validateShim asSel E isPrint spec n) = [] then None
      else Some (join newline (?T (validateShim asSel E isPrint spec n))))"
    by (subst errors_Join_lines) (simp only: c)
  finally show ?thesis by (auto simp: problems_text_def split: list.split)
qed

text \<open>
  The schema of the conditions of a status: the values of the status, the length and the pattern of the reason
  and at most 32768 characters in the message. (That types are names and generations are not negative is
  left out: \<open>Ready\<close> and the generation of an object always satisfy it.) \<open>SetStatusCondition\<close> of
  apimachinery stores the condition it is given and leaves the others alone.
\<close>

definition message_limit :: nat where "message_limit = 32768"

definition reason_char :: "char \<Rightarrow> bool" where
  "reason_char c \<longleftrightarrow> between 65 90 c \<or> between 97 122 c \<or> between 48 57 c \<or> c = CHR ''_''"

definition reason_pattern :: "string \<Rightarrow> bool" where
  "reason_pattern s \<longleftrightarrow>
     s \<noteq> [] \<and> (between 65 90 (hd s) \<or> between 97 122 (hd s)) \<and> reason_char (last s) \<and>
     list_all (\<lambda>c. reason_char c \<or> c = CHR '','' \<or> c = CHR '':'') s"

definition Condition_schema :: "Condition \<Rightarrow> bool" where
  "Condition_schema c \<longleftrightarrow>
     cond_Status c \<in> set [''True'', ''False'', ''Unknown''] \<and>
     length_between 1 1024 (cond_Reason c) \<and> reason_pattern (cond_Reason c) \<and>
     rune_count (cond_Message c) \<le> message_limit"

definition OIDCShimStatus_schema :: "OIDCShimStatus \<Rightarrow> bool" where
  "OIDCShimStatus_schema st \<longleftrightarrow> list_all Condition_schema (st_Conditions st)"

definition changes_only :: "(Condition list \<Rightarrow> Condition \<Rightarrow> Condition list) \<Rightarrow> bool" where
  "changes_only set_cond \<longleftrightarrow> (\<forall>cs c d. d \<in> set (set_cond cs c) \<longrightarrow> d \<in> set cs \<or> same_condition d c)"

lemma store_condition_only: "changes_only store_condition"
  by (auto simp: changes_only_def store_condition_def same_condition_def split: option.splits if_splits)

lemma set_condition_schema:
  assumes "sets_condition set_cond" "changes_only set_cond" "OIDCShimStatus_schema st"
  shows "OIDCShimStatus_schema \<lparr>st_Conditions = set_cond (st_Conditions st) c, st_ObservedGeneration = g, st_MatchedPods = m\<rparr> \<longleftrightarrow>
    Condition_schema c"
proof -
  obtain d where "find_condition (set_cond (st_Conditions st) c) (cond_Type c) = Some d" "same_condition d c"
    using assms(1) unfolding sets_condition_def by blast
  then have "d \<in> set (set_cond (st_Conditions st) c)" "Condition_schema d = Condition_schema c"
    by (auto simp: find_condition_def same_condition_def find_Some_iff Condition_schema_def)
  moreover have "e \<in> set (st_Conditions st) \<or> Condition_schema e = Condition_schema c" if "e \<in> set (set_cond (st_Conditions st) c)" for e
    using assms(2) that unfolding changes_only_def same_condition_def Condition_schema_def by metis
  ultimately show ?thesis using assms(3) unfolding OIDCShimStatus_schema_def list_all_iff by (metis OIDCShimStatus.select_convs(1))
qed

lemma ready_condition_schema:
  "Condition_schema (ready_condition w ps g) \<longleftrightarrow> rune_count (cond_Message (ready_condition w ps g)) \<le> message_limit"
proof -
  have "length_between 1 1024 ReasonValid" "length_between 1 1024 ReasonInvalidSpec" "reason_pattern ReasonValid"
    "reason_pattern ReasonInvalidSpec"
    by code_simp+
  then show ?thesis by (simp add: Condition_schema_def ready_condition_def Let_def)
qed

lemma rune_count_append [simp]: "rune_count (s @ t) = rune_count s + rune_count t"
  by (simp add: rune_count_def)

lemma rune_count_join: "x \<in> set xs \<Longrightarrow> rune_count x \<le> rune_count (join sep xs)"
  by (induction sep xs rule: join.induct) auto

lemma long_problem:
  assumes "p \<in> set ps"
  shows "rune_count (shim_problem_text isPrint p) \<le> rune_count (problems_text isPrint ps)"
  unfolding problems_text_def by (rule rune_count_join) (use assms in simp)

section \<open>Samples\<close>

text \<open>The sample cluster with a namespace that enrols its pods in the shim but does not configure the pool.\<close>

definition unconfigured_handler :: Handler where
  "unconfigured_handler =
     sample_handler\<lparr>hd_Reader := sample_reader
       \<lparr>rd_Namespace := (\<lambda>n. Found (sample_namespace\<lparr>mo_Annotations := [(EnrollmentKey, ''gcp'')]\<rparr>))\<rparr>\<rparr>"

definition missing_pool :: handler_warning where
  "missing_pool = ShimSkipped ''OIDCShim/ns/gcp'' (SkipResolve (MissingParameterError ''pool'' (AnnotationSource ''wid-pool'')))"

lemma unconfigured_lists:
  "listShims unconfigured_handler ns = Inr (if ns = ''ns'' then [sample_shim] else [])"
  by (simp add: listShims_def unconfigured_handler_def sample_handler_def sample_reader_def sample_shim_def)

lemma unconfigured_plans:
  "buildPlans sample_lib unconfigured_handler [sample_shim] ''ns''
     \<lparr>t_Pod = Some sample_pod, t_ServiceAccount = None,
      t_Namespace = Some (sample_namespace\<lparr>mo_Annotations := [(EnrollmentKey, ''gcp'')]\<rparr>)\<rparr> = ([], [missing_pool])"
proof -
  let ?t = "\<lparr>t_Pod = Some sample_pod, t_ServiceAccount = None,
      t_Namespace = Some (sample_namespace\<lparr>mo_Annotations := [(EnrollmentKey, ''gcp'')]\<rparr>)\<rparr>"
  have s: "GetName sample_shim = ''gcp''" "ShimSpec sample_shim = sample_spec" "ShimKey sample_shim = ''OIDCShim/ns/gcp''"
    by (simp_all add: sample_shim_def)
  have m: "Matches (\<lambda>s. Inr (\<lambda>m. True)) ''gcp'' (spec_Selection sample_spec) ?t = Inr True" by code_simp
  have "Resolve field_engine (shim_input unconfigured_handler ''ns'' ?t sample_shim sample_token) =
      Inl (MissingParameterError ''pool'' (AnnotationSource ''wid-pool''))"
    by code_simp
  with m have "plan_for sample_lib unconfigured_handler ''ns'' ?t sample_shim =
      Inl (SkipResolve (MissingParameterError ''pool'' (AnnotationSource ''wid-pool'')))"
    by (simp add: plan_for_def s Let_def sample_lib_def sample_token_def [symmetric])
  then show ?thesis by (simp add: s missing_pool_def)
qed

lemma unconfigured_warning:
  "response_warnings (Handle sample_lib unconfigured_handler (sample_request ''in'')) = [missing_pool]"
proof -
  have ns: "request_namespace (sample_request ''in'') sample_pod = ''ns''"
    by (simp add: request_namespace_def sample_request_def)
  have h: "hd_Decode unconfigured_handler (sample_request ''in'') = Inr sample_pod" "hd_Options unconfigured_handler = sample_options"
    "readTarget unconfigured_handler ''ns'' sample_pod = Inr (Some (sample_namespace\<lparr>mo_Annotations := [(EnrollmentKey, ''gcp'')]\<rparr>), None)"
    by (simp_all add: unconfigured_handler_def sample_handler_def sample_request_def readTarget_def sample_reader_def)
  have x: "\<not> OptedOut (Some sample_pod)" "smap_get (pod_Annotations sample_pod) StatusAnnotation \<noteq> StatusInjected"
    "\<not> Excluded (exclusions_of sample_options) ''ns''"
    using sample_exempt by (simp_all add: exempt_def)
  have "Apply_pod sample_pod [] = (sample_pod, [], [])"
    using x(2) by (simp add: Apply_pod_def apply_start_def Let_def)
  then show ?thesis
    by (simp add: Handle_def h ns x unconfigured_lists mutate_pod_def unconfigured_plans Let_def del: buildPlans.simps)
      (simp add: sample_request_def)
qed

text \<open>A spec that the schema admits, with a file path of 40001 characters given twice.\<close>

definition long_path :: string where "long_path = CHR ''/'' # replicate 40000 (CHR ''a'')"

definition long_sample :: OIDCShimSpec_j where
  "long_sample = azure_sample\<lparr>oj_inject := (oj_inject azure_sample)\<lparr>ij_files :=
     [\<lparr>fj_path = long_path, fj_content = [], fj_mode = None\<rparr>, \<lparr>fj_path = long_path, fj_content = [], fj_mode = None\<rparr>]\<rparr>\<rparr>"

lemma long_path_count: "rune_count long_path = 40001"
  by (simp add: long_path_def rune_count_def)

lemma long_sample_admitted: "object_schema ''azure'' long_sample"
proof -
  have "object_schema ''azure'' azure_sample" by code_simp
  then show ?thesis
    by (simp add: object_schema_def OIDCShimSpec_schema_def InjectSpec_schema_def long_sample_def FileSpec_schema_def
        optional_def long_path_def HasPrefix_def)
qed

lemma long_sample_problem:
  "FilePathDuplicate long_path \<in> set (validateShim asSel E isPrint (OIDCShimSpec_decode long_sample) n)"
proof -
  have "tok_MountPath (ResolveToken n (spec_Token (OIDCShimSpec_decode long_sample))) = ''/var/run/secrets/azure/tokens''"
    by (simp add: long_sample_def azure_sample_def OIDCShimSpec_decode_def TokenSpec_decode_def ResolveToken_def Let_def or_zero_def)
  moreover have "long_path \<noteq> ''/var/run/secrets/azure/tokens''"
  proof
    assume "long_path = ''/var/run/secrets/azure/tokens''"
    then have "rune_count long_path \<le> length ''/var/run/secrets/azure/tokens''" by (simp add: rune_count_def)
    then show False unfolding long_path_count by simp
  qed
  moreover have "map fs_Path (inj_Files (spec_Inject (OIDCShimSpec_decode long_sample))) = [long_path, long_path]"
    by (simp add: long_sample_def OIDCShimSpec_decode_def InjectSpec_decode_def FileSpec_decode_def)
  ultimately show ?thesis
    by (auto simp: validateShim_def validateFiles_def Let_def map_eq_Cons_conv)
qed

lemma long_sample_message:
  "\<exists>msg. validateShim_error asSel E isPrint (OIDCShimSpec_decode long_sample) n = Some msg \<and> message_limit < rune_count msg"
proof -
  let ?ps = "validateShim asSel E isPrint (OIDCShimSpec_decode long_sample) n"
  have "40001 \<le> rune_count (shim_problem_text isPrint (FilePathDuplicate long_path))"
    unfolding shim_problem_text.simps file_field_def rune_count_append long_path_count by simp
  with long_problem [OF long_sample_problem [of asSel E isPrint n], of isPrint]
  have "message_limit < rune_count (problems_text isPrint ?ps)" by (simp add: message_limit_def)
  moreover have "?ps \<noteq> []" using long_sample_problem [of asSel E isPrint n] by auto
  ultimately show ?thesis by (auto simp: validateShim_error_eq split: list.split)
qed

definition long_shim :: Shim where
  "long_shim = with_ShimSpec (OIDCShimSpec_decode long_sample) sample_shim"

definition schema_world :: world where
  "schema_world = sample_world\<lparr>w_errorText := problems_text (\<lambda>c. True),
     w_updateStatus := (\<lambda>s. if OIDCShimStatus_schema (ShimStatus s) then None else Some ''invalid'')\<rparr>"

lemma long_shim_reconciles: "\<exists>out. reconcileShim (\<lambda>_. Inl []) field_engine (\<lambda>c. True) schema_world long_shim = Some out"
proof -
  have "countMatchedPods lst long_shim = countMatchedPods lst sample_shim" for lst
    by (simp add: countMatchedPods_def long_shim_def base_options_def)
  moreover have "w_listPods schema_world = w_listPods sample_world" by (simp add: schema_world_def)
  ultimately show ?thesis using sample_reconciles unfolding reconcileShim_returns by simp
qed

section \<open>Properties\<close>

text \<open>
  (C34) Every warning of an admission response names its shim: read as text, it yields the key or the quoted name
  of a shim that was listed for the namespace of the pod. Keys hold no spaces, as names of Kubernetes
  objects do not.
\<close>

theorem warnings_name_shims:
  assumes "w \<in> set (response_warnings (Handle lib h req))"
    and "\<And>ns shims s. listShims h ns = Inr shims \<Longrightarrow> s \<in> set shims \<Longrightarrow> CHR '' '' \<notin> set (ShimKey s)"
  shows "\<exists>pod shims s. hd_Decode h req = Inr pod \<and> listShims h (request_namespace req pod) = Inr shims \<and> s \<in> set shims \<and>
    (read_warning (handler_warning_text isPrint w) = Some (ByKey (ShimKey s)) \<or>
     read_warning (handler_warning_text isPrint w) = Some (ByName (GetName s)))"
  using Handle_warned [OF assms(1)] assms(2) about_shim_read by meson

theorem warnings_name_shims_witness:
  "read_warning (handler_warning_text (\<lambda>c. True) missing_pool) = Some (ByKey ''OIDCShim/ns/gcp'') \<or>
   read_warning (handler_warning_text (\<lambda>c. True) missing_pool) = Some (ByName ''gcp'')"
proof -
  have names: "CHR '' '' \<notin> set (ShimKey s)"
    if "listShims unconfigured_handler ns = Inr shims" "s \<in> set shims" for ns shims s
    using that by (auto simp: unconfigured_lists sample_shim_def split: if_splits)
  have w: "missing_pool \<in> set (response_warnings (Handle sample_lib unconfigured_handler (sample_request ''in'')))"
    by (simp add: unconfigured_warning)
  show ?thesis
    using warnings_name_shims [OF w, where isPrint = "\<lambda>c. True"] names by (auto simp: unconfigured_lists sample_shim_def split: if_splits)
qed

text \<open>
  (C35) When the Ready condition can be stored. With an API server that refuses a status update exactly when it breaks
  the schema, a reconciliation of a shim with a valid status fails to update it exactly when the text of the validation
  error is longer than the schema allows: such a shim is never reported as invalid, and its
  reconciliation is retried.
\<close>

theorem ready_message_limit:
  assumes "reconcileShim asSel E isPrint w shim = Some out"
    and "w_errorText w = problems_text isPrint"
    and "sets_condition (w_setCondition w)" "changes_only (w_setCondition w)"
    and "\<And>a b. w_deepEqual w a b \<longleftrightarrow> a = b"
    and "\<And>s. w_updateStatus w s = None \<longleftrightarrow> OIDCShimStatus_schema (ShimStatus s)"
    and "OIDCShimStatus_schema (ShimStatus shim)"
  shows "(\<exists>err. out_Result out = Inl (UpdatingStatus (ShimKey shim) err)) \<longleftrightarrow>
    (case validateShim_error asSel E isPrint (ShimSpec shim) (GetName shim) of
       None \<Rightarrow> False
     | Some msg \<Rightarrow> message_limit < rune_count msg)"
proof (rule reconcileShim_Some [OF assms(1)])
  fix counted st
  let ?c = "ready_condition w (problems_of asSel E isPrint shim) (GetGeneration shim)"
  assume st: "st = \<lparr>st_Conditions = w_setCondition w (st_Conditions (ShimStatus shim)) ?c,
          st_ObservedGeneration = GetGeneration shim,
          st_MatchedPods = (case counted of Inr m \<Rightarrow> Some m | Inl _ \<Rightarrow> st_MatchedPods (ShimStatus shim))\<rparr>"
    and res: "out_Result out = (case (if w_deepEqual w (ShimStatus shim) st then None else w_updateStatus w (with_ShimStatus st shim)) of
       Some err \<Rightarrow> Inl (UpdatingStatus (ShimKey shim) err)
     | None \<Rightarrow> (case counted of Inl err \<Rightarrow> Inl (ListingPods (ShimKey shim) err) | Inr _ \<Rightarrow> Inr requeueInterval))"
  have schema: "OIDCShimStatus_schema st \<longleftrightarrow> rune_count (cond_Message ?c) \<le> message_limit"
    unfolding st by (simp add: set_condition_schema [OF assms(3,4,7)] ready_condition_schema)
  have "(\<exists>err. out_Result out = Inl (UpdatingStatus (ShimKey shim) err)) \<longleftrightarrow> \<not> OIDCShimStatus_schema st"
    using assms(6) [of "with_ShimStatus st shim"] assms(5,7) unfolding res by (auto split: option.split sum.split)
  also have "\<dots> \<longleftrightarrow> (case validateShim_error asSel E isPrint (ShimSpec shim) (GetName shim) of
       None \<Rightarrow> False | Some msg \<Rightarrow> message_limit < rune_count msg)"
    unfolding schema validateShim_error_eq by (auto simp: ready_condition_def problems_of_def Let_def assms(2) split: list.split)
  finally show ?thesis .
qed

theorem ready_message_limit_witness:
  "object_schema ''azure'' long_sample \<and>
   (\<exists>out err. reconcileShim (\<lambda>_. Inl []) field_engine (\<lambda>c. True) schema_world long_shim = Some out \<and>
      out_Result out = Inl (UpdatingStatus (ShimKey long_shim) err))"
proof -
  obtain out where out: "reconcileShim (\<lambda>_. Inl []) field_engine (\<lambda>c. True) schema_world long_shim = Some out"
    using long_shim_reconciles by blast
  have w: "w_errorText schema_world = problems_text (\<lambda>c. True)" "w_setCondition schema_world = store_condition"
    "w_deepEqual schema_world a b \<longleftrightarrow> a = b"
    "w_updateStatus schema_world s = None \<longleftrightarrow> OIDCShimStatus_schema (ShimStatus s)" for a b s
    by (simp_all add: schema_world_def sample_world_def)
  have st: "OIDCShimStatus_schema (ShimStatus long_shim)"
    by (simp add: long_shim_def sample_shim_def OIDCShimStatus_schema_def)
  obtain msg where "validateShim_error (\<lambda>_. Inl []) field_engine (\<lambda>c. True) (ShimSpec long_shim) (GetName long_shim) = Some msg"
    "message_limit < rune_count msg"
    using long_sample_message [of "\<lambda>_. Inl []" field_engine "\<lambda>c. True" "GetName long_shim"] by (auto simp: long_shim_def)
  then have "\<exists>err. out_Result out = Inl (UpdatingStatus (ShimKey long_shim) err)"
    using ready_message_limit [OF out w(1) _ _ w(3,4) st] store_condition_sets store_condition_only w(2) by simp
  with out long_sample_admitted show ?thesis by blast
qed

end
