(* ===== verification/Scheme.thy ===== *)
theory Scheme
  imports Startup
begin

text \<open>
  The registration of the types of the operator with the runtime scheme: the package variables of
  \<open>groupversion_info.go\<close>, the \<open>init\<close> functions of the two type files, in the order of the file names, and
  the \<open>init\<close> function of \<open>cmd/main.go\<close>. \<open>runtime.Scheme\<close>, \<open>scheme.Builder\<close> and the scheme of client-go are
  parameters; kinds are the names of the registered Go types.
\<close>

record GroupVersion =
  gv_Group :: string
  gv_Version :: string

text \<open>
  What the packages of Kubernetes provide. \<open>sl_GroupVersion\<close> and \<open>sl_Types\<close> look into a builder: its group and
  version and the types registered with it.
\<close>

record ('s, 'b) scheme_lib =
  sl_NewScheme :: 's
  sl_Recognizes :: "'s \<Rightarrow> GroupVersion \<Rightarrow> string \<Rightarrow> bool"
  sl_ClientGo :: "'s \<Rightarrow> go_error + 's"
  sl_Builder :: "GroupVersion \<Rightarrow> 'b"
  sl_Register :: "'b \<Rightarrow> string list \<Rightarrow> 'b"
  sl_AddToScheme :: "'b \<Rightarrow> 's \<Rightarrow> go_error + 's"
  sl_GroupVersion :: "'b \<Rightarrow> GroupVersion"
  sl_Types :: "'b \<Rightarrow> string list"

section \<open>The package v1alpha1\<close>

definition GroupVersion_v1alpha1 :: GroupVersion where
  "GroupVersion_v1alpha1 = \<lparr>gv_Group = ''oidcshim.kemo.dev'', gv_Version = ''v1alpha1''\<rparr>"

text \<open>
  The variables of the package. \<open>SchemeBuilder\<close> is a pointer; \<open>AddToScheme\<close> is a method value, which keeps the
  pointer it was taken from, not the builder as it was then.
\<close>

record 'b package_vars =
  pv_builders :: "'b list"
  pv_SchemeBuilder :: nat
  pv_AddToScheme :: nat

definition package_variables :: "('s, 'b) scheme_lib \<Rightarrow> 'b package_vars" where
  "package_variables L = \<lparr>pv_builders = [sl_Builder L GroupVersion_v1alpha1], pv_SchemeBuilder = 0, pv_AddToScheme = 0\<rparr>"

definition builder_Register :: "('s, 'b) scheme_lib \<Rightarrow> string list \<Rightarrow> 'b package_vars \<Rightarrow> 'b package_vars" where
  "builder_Register L types v =
     v\<lparr>pv_builders := (pv_builders v)[pv_SchemeBuilder v := sl_Register L (pv_builders v ! pv_SchemeBuilder v) types]\<rparr>"

definition init_clusteroidcshim_types :: "('s, 'b) scheme_lib \<Rightarrow> 'b package_vars \<Rightarrow> 'b package_vars" where
  "init_clusteroidcshim_types L = builder_Register L [''ClusterOIDCShim'', ''ClusterOIDCShimList'']"

definition init_oidcshim_types :: "('s, 'b) scheme_lib \<Rightarrow> 'b package_vars \<Rightarrow> 'b package_vars" where
  "init_oidcshim_types L = builder_Register L [''OIDCShim'', ''OIDCShimList'']"

definition package_init :: "('s, 'b) scheme_lib \<Rightarrow> 'b package_vars" where
  "package_init L = init_oidcshim_types L (init_clusteroidcshim_types L (package_variables L))"

definition AddToScheme :: "('s, 'b) scheme_lib \<Rightarrow> 'b package_vars \<Rightarrow> 's \<Rightarrow> go_error + 's" where
  "AddToScheme L v s = sl_AddToScheme L (pv_builders v ! pv_AddToScheme v) s"

section \<open>The scheme of the manager\<close>

text \<open>\<open>init\<close> of the main package; \<open>utilruntime.Must\<close> panics, as None, with the error it is given.\<close>

definition Must :: "go_error + 'a \<Rightarrow> 'a option" where
  "Must r = (case r of Inl err \<Rightarrow> None | Inr x \<Rightarrow> Some x)"

definition main_init :: "('s, 'b) scheme_lib \<Rightarrow> 's option" where
  "main_init L =
     (case Must (sl_ClientGo L (sl_NewScheme L)) of
        None \<Rightarrow> None
      | Some s \<Rightarrow> Must (AddToScheme L (package_init L) s))"

text \<open>The kinds the operator reads or watches: those of the core group, those of its own.\<close>

definition core_v1 :: GroupVersion where
  "core_v1 = \<lparr>gv_Group = [], gv_Version = ''v1''\<rparr>"

fun informer_kind :: "informer \<Rightarrow> GroupVersion \<times> string" where
  "informer_kind InformNamespace = (core_v1, ''Namespace'')"
| "informer_kind InformServiceAccount = (core_v1, ''ServiceAccount'')"
| "informer_kind InformOIDCShim = (GroupVersion_v1alpha1, ''OIDCShim'')"
| "informer_kind InformClusterOIDCShim = (GroupVersion_v1alpha1, ''ClusterOIDCShim'')"

definition core_kinds :: "string list" where
  "core_kinds = [''Pod'', ''PodList'', ''Namespace'', ''ServiceAccount'', ''ConfigMap'']"

definition group_kinds :: "string list" where
  "group_kinds = [''ClusterOIDCShim'', ''ClusterOIDCShimList'', ''OIDCShim'', ''OIDCShimList'']"

section \<open>What the libraries promise\<close>

text \<open>
  A builder collects types for its group and version; adding it to a scheme that has none of them succeeds, makes them
  known and forgets no kind. The scheme of client-go has the core kinds, and none of another project's groups.
\<close>

definition builder_laws :: "('s, 'b) scheme_lib \<Rightarrow> bool" where
  "builder_laws L \<longleftrightarrow>
     (\<forall>gv. sl_GroupVersion L (sl_Builder L gv) = gv \<and> sl_Types L (sl_Builder L gv) = []) \<and>
     (\<forall>b ts. sl_GroupVersion L (sl_Register L b ts) = sl_GroupVersion L b \<and>
        sl_Types L (sl_Register L b ts) = sl_Types L b @ ts) \<and>
     (\<forall>b s. (\<forall>t\<in>set (sl_Types L b). \<not> sl_Recognizes L s (sl_GroupVersion L b) t) \<longrightarrow>
        (\<exists>s'. sl_AddToScheme L b s = Inr s' \<and>
           (\<forall>t\<in>set (sl_Types L b). sl_Recognizes L s' (sl_GroupVersion L b) t) \<and>
           (\<forall>gv t. sl_Recognizes L s gv t \<longrightarrow> sl_Recognizes L s' gv t)))"

definition client_go_laws :: "('s, 'b) scheme_lib \<Rightarrow> bool" where
  "client_go_laws L \<longleftrightarrow>
     (\<exists>s. sl_ClientGo L (sl_NewScheme L) = Inr s \<and> (\<forall>k\<in>set core_kinds. sl_Recognizes L s core_v1 k) \<and>
        (\<forall>v k. \<not> sl_Recognizes L s \<lparr>gv_Group = ''oidcshim.kemo.dev'', gv_Version = v\<rparr> k))"

lemma builder_adds:
  assumes "builder_laws L" "\<And>t. \<not> sl_Recognizes L s (sl_GroupVersion L b) t"
  shows "\<exists>s'. sl_AddToScheme L b s = Inr s' \<and> (\<forall>t\<in>set (sl_Types L b). sl_Recognizes L s' (sl_GroupVersion L b) t) \<and>
    (\<forall>gv t. sl_Recognizes L s gv t \<longrightarrow> sl_Recognizes L s' gv t)"
  using assms unfolding builder_laws_def by blast

lemma package_builder:
  "pv_builders (package_init L) ! pv_AddToScheme (package_init L) =
     sl_Register L (sl_Register L (sl_Builder L GroupVersion_v1alpha1) [''ClusterOIDCShim'', ''ClusterOIDCShimList''])
       [''OIDCShim'', ''OIDCShimList'']"
  by (simp add: package_init_def init_oidcshim_types_def init_clusteroidcshim_types_def builder_Register_def package_variables_def)

lemma package_types:
  assumes "builder_laws L"
  shows "sl_Types L (pv_builders (package_init L) ! pv_AddToScheme (package_init L)) = group_kinds"
    "sl_GroupVersion L (pv_builders (package_init L) ! pv_AddToScheme (package_init L)) = GroupVersion_v1alpha1"
  using assms by (simp_all add: builder_laws_def package_builder group_kinds_def)

text \<open>Laws that hold of plain lists of kinds.\<close>

definition list_scheme :: "((GroupVersion \<times> string) list, GroupVersion \<times> string list) scheme_lib" where
  "list_scheme =
     \<lparr>sl_NewScheme = [], sl_Recognizes = (\<lambda>s gv k. (gv, k) \<in> set s),
      sl_ClientGo = (\<lambda>s. Inr (map (Pair core_v1) core_kinds @ s)),
      sl_Builder = (\<lambda>gv. (gv, [])), sl_Register = (\<lambda>(gv, ts) us. (gv, ts @ us)),
      sl_AddToScheme = (\<lambda>(gv, ts) s. if \<exists>t\<in>set ts. (gv, t) \<in> set s then Inl ''double registration''
         else Inr (map (Pair gv) ts @ s)),
      sl_GroupVersion = fst, sl_Types = snd\<rparr>"

lemma list_scheme_laws: "builder_laws list_scheme" "client_go_laws list_scheme"
  by (auto simp: builder_laws_def client_go_laws_def list_scheme_def core_kinds_def core_v1_def)

section \<open>Property\<close>

text \<open>
  (C36) Initialisation gives the manager a scheme with all that the operator handles. It does not panic; the kinds of both
  controllers, of every informer of the warm-up, of the lists of shims and of the pods and ConfigMaps that are read are
  registered, although the method value that registers the group is taken before the types are; and the group is that
  of the annotations and labels.
\<close>

theorem main_init_registers:
  assumes "builder_laws L" "client_go_laws L"
  shows "\<exists>s. main_init L = Some s \<and>
    (\<forall>i\<in>set warm_objects. case informer_kind i of (gv, k) \<Rightarrow> sl_Recognizes L s gv k) \<and>
    sl_Recognizes L s GroupVersion_v1alpha1 (cr_For SetupWithManager_OIDCShim) \<and>
    sl_Recognizes L s GroupVersion_v1alpha1 (cr_For SetupWithManager_ClusterOIDCShim) \<and>
    (\<forall>k\<in>set group_kinds. sl_Recognizes L s GroupVersion_v1alpha1 k) \<and>
    (\<forall>k\<in>set core_kinds. sl_Recognizes L s core_v1 k) \<and>
    GroupPrefix = gv_Group GroupVersion_v1alpha1"
proof -
  let ?b = "pv_builders (package_init L) ! pv_AddToScheme (package_init L)"
  obtain s where s: "sl_ClientGo L (sl_NewScheme L) = Inr s" "\<forall>k\<in>set core_kinds. sl_Recognizes L s core_v1 k"
    "\<And>k. \<not> sl_Recognizes L s GroupVersion_v1alpha1 k"
    using assms(2) unfolding client_go_laws_def GroupVersion_v1alpha1_def by blast
  obtain s' where s': "sl_AddToScheme L ?b s = Inr s'" "\<forall>t\<in>set group_kinds. sl_Recognizes L s' GroupVersion_v1alpha1 t"
    "\<forall>t\<in>set core_kinds. sl_Recognizes L s' core_v1 t"
    using builder_adds [OF assms(1), of s ?b] s(2,3) unfolding package_types [OF assms(1)] by blast
  have "main_init L = Some s'" by (simp add: main_init_def Must_def s(1) AddToScheme_def s'(1))
  then show ?thesis using s'(2,3)
    by (auto simp: warm_objects_def group_kinds_def core_kinds_def SetupWithManager_OIDCShim_def
        SetupWithManager_ClusterOIDCShim_def GroupVersion_v1alpha1_def GroupPrefix_def)
qed

theorem main_init_registers_witness:
  "\<exists>s. main_init list_scheme = Some s \<and> list_all (\<lambda>k. (GroupVersion_v1alpha1, k) \<in> set s) group_kinds"
  using main_init_registers [OF list_scheme_laws] by (auto simp: list_all_iff list_scheme_def)

end
