(* ===== verification/Spec2Isabelle.thy ===== *)
theory Spec2Isabelle
  imports Startup Cluster PodTyping StatusMemory Schema Messages Scheme
begin

text \<open>
  Verification of the ztwim-oidc-shims operator.

  The program is a Kubernetes operator. Users describe, in the resources \<open>OIDCShim\<close> (in a namespace) and
  \<open>ClusterOIDCShim\<close>, how a pod obtains a SPIFFE identity token for a cloud provider. A mutating webhook
  injects spiffe-helper containers, volumes, files and variables into matching pods when they are
  created; two controllers validate the resources and report on their status. All Go code with
  logic of its own is modelled; the theories follow the packages.

  \<^item> \<open>Prelude\<close>, \<open>GoStrings\<close>, \<open>GoQuote\<close>: Go maps as association lists (interface \<open>string_map\<close>) and the
    parts of the Go standard library the program uses: splitting and trimming, decimal and octal numbers,
    \<open>path.Join\<close>, case folding, \<open>strconv.Quote\<close> with its inverse. Strings are lists of bytes.
  \<^item> \<open>ApiTypes\<close>, \<open>PodModel\<close>: the types of \<open>api/v1alpha1\<close>, the interface \<open>Shim\<close> and its two kinds (locale
    \<open>shim_interface\<close>), and the core Kubernetes objects, each with an opaque field for what the program
    never looks at.
  \<^item> \<open>GoHeap\<close>, \<open>DeepCopy\<close>, \<open>DeepCopyCorrect\<close> (\<open>zz_generated.deepcopy.go\<close>): an explicit memory with pointers and
    slices, the API types as they lie in it, and all their deep copies. The contract of a deep copy is the locale
    \<open>deep_copier\<close>, closed under pointers, slices and structs and shown for every type from those of its fields.
  \<^item> \<open>Schema\<close> (the \<open>+kubebuilder\<close> markers of \<open>api/v1alpha1\<close>): the defaults and checks of the API server on an
    object as it is sent, and its decoding into the types of \<open>ApiTypes\<close>.
  \<^item> \<open>Selection\<close> (\<open>internal/selection\<close>): namespace exclusions, enrolment and label selectors; the agreement
    of validation and matching is the locale \<open>selection_contract\<close>.
  \<^item> \<open>TextTemplate\<close>, \<open>Params\<close> (\<open>internal/params\<close>): the contract of the template engine (locale
    \<open>template_engine\<close>, with an executable engine for templates made of text and field actions, the plain
    templates; texts with \<open>define\<close> or \<open>block\<close> actions are outside the contract), rendering, referenced keys, parameter resolution and validation.
  \<^item> \<open>SpiffeHelper\<close> (\<open>internal/spiffehelper\<close>): the helper configuration file, and a reader for it.
  \<^item> \<open>InjectionPlan\<close>, \<open>InjectionApply\<close> (\<open>internal/injection\<close>): plans and the mutation of a pod, the loop of
    \<open>Apply\<close> as a fold over a record of its variables. \<open>InjectionCorrect\<close> gives the loop as a step relation
    with its reachable states and proves seven invariants, each an interpretation of the locale
    \<open>apply_invariant\<close>; \<open>InjectionProps\<close> draws the properties of \<open>Apply\<close> from them. \<open>InjectionRefine\<close> states
    an abstract specification, an allocator of the resources of a pod, and proves that \<open>Apply\<close> refines
    it (locale \<open>fold_refinement\<close>); \<open>PodTyping\<close> adds a typing of pods that \<open>Apply\<close> preserves, one more
    interpretation of \<open>apply_invariant\<close>.
  \<^item> \<open>Config\<close> (\<open>internal/config\<close>): options, environment, the flags of the options.
  \<^item> \<open>Handler\<close> (\<open>internal/webhook/pod/handler.go\<close>): the admission handler over an API server given by its
    answers; it uses \<open>Apply\<close> through the locale \<open>pod_injector\<close>.
  \<^item> \<open>Warmup\<close> (\<open>internal/webhook/pod/setup.go\<close>): readiness as a step relation, and the registrations.
  \<^item> \<open>Startup\<close> (\<open>cmd/main.go\<close> and \<open>SetupWithManager\<close> of the controllers): the command line as the flag package
    reads it, the TLS set-up, and the registrations up to the run of the manager, as a trace of events.
  \<^item> \<open>Controller\<close> (\<open>internal/controller\<close>): static validation, the paged pod count, the status. \<open>StatusMemory\<close> has
    \<open>reconcileShim\<close> once more, in memory: the snapshot of the status, the writes through the status pointer and
    the comparison; it refines the model on values.
  \<^item> \<open>Messages\<close>: the texts of the errors, warnings and conditions, byte for byte, with \<open>errors.Join\<close> and \<open>%q\<close>; the
    function \<open>log\<close> of the handler; a reader of warnings; and the limit that the CRD sets on the text of a condition.
  \<^item> \<open>Scheme\<close> (\<open>groupversion_info.go\<close> and the \<open>init\<close> functions): the registration of the types.
  \<^item> \<open>Cluster\<close>: webhook and controllers together, a step relation on the pods the API server stores.
  \<^item> This theory: properties that span the components.

  Effects. Where a claim depends on what is shared, the memory is explicit (\<open>DeepCopy\<close>, \<open>StatusMemory\<close>).
  Elsewhere a pod or shim that Go mutates in place is passed and returned; a returned pointer into a
  slice is an update of the first element of that name. Errors and warnings are values that carry the
  data their texts print, and \<open>Messages\<close> has the texts. Joined errors are lists, and no
  error is the empty list; \<open>validateShim_error_eq\<close> shows that the nested \<open>errors.Join\<close> of the validation prints as that list. Integers whose width matters are 32-bit words (file modes, the pod
  count); lengths and byte counts are natural numbers, far below the 64 bits of a Go \<open>int\<close>. The only
  loop that may not end, the paged count, is a \<open>partial_function\<close> into \<^typ>\<open>'a option\<close>, and the count
  is proved to return exactly when the server ends the list or fails. No definition uses fuel.

  Code of other modules is a parameter: the deep copies of the structs of other packages, label selectors, the template engine, the table of printable
  runes, JSON encoding and decoding, API reads and writes, \<open>SetStatusCondition\<close> and \<open>DeepEqual\<close>, the
  informer cache, the calls into the manager, the runtime scheme with its builder and the types of client-go, and the flags that logging and client packages bind. Where a property needs their documented
  behaviour, it is a hypothesis, and a witness instantiates it with concrete functions.

  What the properties show. For \<open>Apply\<close>: its exact effect, down to the mounts and variables of each container, that an applied plan is wired up completely and
  its files are delivered, that the pod stays valid and typed, the annotation budget, when a plan is
  applied, that \<open>Apply\<close> implements the allocator and that its choice is maximal. For the handler: when it rejects, what it leaves alone, that every
  patch is justified, that re-invocation is safe, that the order is deterministic, and that the text of every
  warning names its shim. For plans,
  templates, parameters and the helper configuration: soundness, precedence, agreement of validation
  with rendering, and the round trip of the configuration. For the controllers: what they report, that
  they settle, that a validated shim is skipped only for reasons of the pod or the cluster, and that in
  every reachable cluster the reported count is the number of pods that record the shim; in memory, that
  the snapshot of the status sees no later write and that reconciling a deep copy leaves the cache alone. For
  the deep copies: a copy reads as the original and shares nothing with it. For the schema: its
  defaults are those of the operator, and the checks that repeat it never fire on an admitted object. For
  \<open>main\<close>: what is in place when the manager starts, that all kinds in use are registered, that weaker settings need
  an explicit flag, and that the namespace of the operator is never touched. Three properties characterise the inputs on which the
  program does not do what it means to: a container requested several times, a token volume with a reserved
  name, and a shim whose problems are too long to report; a lemma of \<open>Controller\<close> shows file modes on which controller and webhook differ.

  Not modelled: the log lines of \<open>main\<close>, the help texts of flags, the texts of the errors of \<open>SetupWithManager\<close>, the schema of
  the core types that a shim embeds, and the helpers of the end-to-end tests (\<open>test/utils\<close>), which run kubectl and kind.
\<close>

section \<open>Properties across components\<close>

lemma resolve_error_kinds:
  assumes "template_engine E" "Validate_params E (in_Parameters inp) = []"
    and "\<And>p. p \<in> set (in_Parameters inp) \<Longrightarrow> plain_text E (src_Template (par_ValueFrom p))"
    and "in_GetConfigMap inp \<noteq> None" "Resolve E inp = Inl e"
  shows "(\<exists>n d. e = MissingParameterError n d) \<or> (\<exists>n m err. e = ReadingConfigMap n m err)"
proof (cases e)
  case (NoConfigMapGetter n)
  from resolve_loop_error [OF assms(5) [unfolded Resolve_def]] obtain p sofar
    where "param_value E inp p sofar = Inl e" by blast
  with NoConfigMapGetter assms(4) show ?thesis
    by (auto simp: param_value_def resolveOne_def Let_def split: sum.splits option.splits if_splits)
next
  case (ParameterTemplate n err)
  have "resolve_loop E inp (in_Parameters inp) (builtin_values (in_Builtins inp)) \<noteq> Inl (ParameterTemplate n err)"
    using assms(2,3) lookup_builtin_values
    by (intro template_engine.resolve_loop_no_template_error [OF assms(1), where known = builtinKeys and seen = "[]"])
      (auto simp: Validate_params_def)
  with ParameterTemplate assms(5) show ?thesis by (simp add: Resolve_def)
qed auto

text \<open>
  (C7) A valid shim on a running operator. Let the options of the operator be valid and let the controller
  find no problem in a shim whose templates are plain. When the webhook then skips the shim for a
  pod with an error, the error is one that only that pod or the cluster can cause: a required
  parameter has no value for the pod, a ConfigMap could not be read, the audience renders to
  nothing, or the rendered content is too large.
\<close>

theorem validated_shim_skips:
  assumes "template_engine (lib_engine lib)" "Validate_options (hd_Options h) = []"
    and "validateShim (lib_asSel lib) (lib_engine lib) (lib_isPrint lib) (ShimSpec shim) (GetName shim) = []"
    and "\<And>s. s \<in> set (spec_templates (ShimSpec shim)) \<Longrightarrow> plain_text (lib_engine lib) s"
    and "\<And>p. p \<in> set (spec_Parameters (ShimSpec shim)) \<Longrightarrow>
      plain_text (lib_engine lib) (src_Template (par_ValueFrom p))"
    and "plan_for lib h namespace target shim = Inl e"
  shows "(\<exists>n d. e = SkipResolve (MissingParameterError n d)) \<or>
    (\<exists>n m err. e = SkipResolve (ReadingConfigMap n m err)) \<or>
    e = SkipPlan (RenderHelperConf JWTAudienceEmpty) \<or>
    (\<exists>n. e = SkipPlan (TooManyRenderedBytes n (o_MaxRenderedBytes (hd_Options h))))"
proof -
  let ?tok = "ResolveToken (GetName shim) (spec_Token (ShimSpec shim))"
  let ?inp = "shim_input h namespace target shim ?tok"
  let ?d = "defaults_of (hd_Options h)"
  have v: "Validate_selection (lib_asSel lib) (spec_Selection (ShimSpec shim)) = []"
    "Validate_params (lib_engine lib) (spec_Parameters (ShimSpec shim)) = []"
    using assms(3) by (simp_all add: validateShim_Nil)
  have p: "in_Parameters ?inp = spec_Parameters (ShimSpec shim)" "in_GetConfigMap ?inp \<noteq> None"
    by (simp_all add: shim_input_def)
  obtain b where m: "Matches (lib_asSel lib) (GetName shim) (spec_Selection (ShimSpec shim)) target = Inr b"
    using selc.valid_decides [of "lib_asSel lib" "spec_Selection (ShimSpec shim)"] v(1) by blast
  have s: "d_SocketMountPath ?d \<noteq> []"
    using Validate_options_socket(1) [OF assms(2)] by (auto simp: defaults_of_def IsAbs_def HasPrefix_def)
  show ?thesis
  proof (cases "Resolve (lib_engine lib) ?inp")
    case (Inl err)
    from resolve_error_kinds [OF assms(1) _ _ p(2) Inl] v(2) assms(5) p(1)
    have "(\<exists>n d. err = MissingParameterError n d) \<or> (\<exists>n m e. err = ReadingConfigMap n m e)" by auto
    with Inl m assms(6) show ?thesis by (auto simp: plan_for_def Let_def split: if_splits)
  next
    case (Inr vs)
    from template_engine.BuildPlan_validated [OF assms(1,3,4) known_keys_resolved [OF Inr p(1)] s refl]
    show ?thesis using Inr m assms(6) by (auto simp: plan_for_def Let_def defaults_of_def split: if_splits)
  qed
qed

definition bare_target :: Target where
  "bare_target =
     \<lparr>t_Pod = Some sample_pod, t_ServiceAccount = None,
      t_Namespace = Some (sample_namespace\<lparr>mo_Annotations := [(EnrollmentKey, ''gcp'')]\<rparr>)\<rparr>"

lemma bare_target_skipped:
  "plan_for sample_lib sample_handler ''ns'' bare_target sample_shim =
     Inl (SkipResolve (MissingParameterError ''pool'' (AnnotationSource ''wid-pool'')))"
proof -
  have "ParseEnrollment ''gcp'' = [''gcp'']" by code_simp
  then have m: "Matches asSel ''gcp'' (spec_Selection sample_spec) bare_target = Inr True" for asSel
    by (simp add: Matches_def compile_def selector_sources_def sample_spec_def Enrolled_def kindEnabled_def
        enrolls_def bare_target_def smap_get_def smap_lookup_def)
  have r: "Resolve field_engine (shim_input sample_handler ''ns'' bare_target sample_shim sample_token) =
      Inl (MissingParameterError ''pool'' (AnnotationSource ''wid-pool''))" by code_simp
  have "GetName sample_shim = ''gcp''" "ShimSpec sample_shim = sample_spec" by (simp_all add: sample_shim_def)
  then show ?thesis by (simp add: plan_for_def Let_def m r sample_lib_def flip: sample_token_def)
qed

theorem validated_shim_skips_witness:
  "plan_for sample_lib sample_handler ''ns'' bare_target sample_shim
     \<noteq> Inl (SkipPlan (BadFileMode 0 ''/etc/key'' ''0444'')) \<and>
   Validate_options (hd_Options sample_handler) = []"
proof -
  have o: "Validate_options (hd_Options sample_handler) = []"
    using Validate_Defaults by (simp add: sample_handler_def sample_options_def Validate_options_def split: if_splits)
  have s: "ShimSpec sample_shim = sample_spec" "GetName sample_shim = ''gcp''" by (simp_all add: sample_shim_def)
  have E: "lib_engine sample_lib = field_engine" by (simp add: sample_lib_def)
  have v: "validateShim (lib_asSel sample_lib) (lib_engine sample_lib) (lib_isPrint sample_lib)
      (ShimSpec sample_shim) (GetName sample_shim) = []"
    unfolding s E by (rule sample_spec_valid)
  have t: "template_engine (lib_engine sample_lib)" unfolding E by (rule fe.template_engine_axioms)
  show ?thesis
    using validated_shim_skips [OF t o v _ _ bare_target_skipped] o field_engine_plain_text
    by (simp add: E bare_target_skipped)
qed

text \<open>
  (C29) The operator never injects into its own pods. Whatever the environment and the command line, if \<open>main\<close>
  registers the webhook and the environment names the namespace of the operator, then the handler at
  the path of the webhook allows every pod created in that namespace unchanged and without warnings.
\<close>

theorem operator_namespace_untouched:
  assumes "WebhookRegistered mgr \<in> set (snd (main ext getenv args pf))"
    and "map_of (mg_webhooks mgr) Path = Some h"
    and "getenv ''POD_NAMESPACE'' \<noteq> []" "hd_Decode h req = Inr pod"
    and "request_namespace req pod = getenv ''POD_NAMESPACE''"
  shows "\<exists>msg. Handle lib h req = Allowed msg []"
  using assms(1)
proof (rule main_event)
  fix st
  assume st: "parse_flags ext args (initial_flags getenv) = Inr st"
    and "WebhookRegistered mgr \<in> set (registrations pf (fl_manager st) (fl_opts st))"
  then have "hd_Options h = fl_opts st" using assms(2) webhook_setup_handler [of pf "fl_opts st"] by auto
  then have "Excluded (exclusions_of (hd_Options h)) (request_namespace req pod)"
    using parse_flags_OperatorNamespace [OF st] assms(3,5)
    by (simp add: Excluded_iff exclusions_of_def set_ExcludedNamespaceNames)
  then show ?thesis using assms(4) by (auto simp: Handle_def Let_def)
qed

theorem operator_namespace_untouched_witness:
  "\<exists>mgr h msg. WebhookRegistered mgr \<in> set (snd (main no_ext plain_env sample_args working_platform)) \<and>
     map_of (mg_webhooks mgr) Path = Some h \<and> Handle sample_lib h (sample_request ''in'') = Allowed msg []"
proof -
  let ?mgr = "snd (webhook_setup working_platform (fl_opts sample_flags))"
  let ?h = "(pf_clients working_platform)\<lparr>hd_Options := fl_opts sample_flags\<rparr>"
  have w: "WebhookRegistered ?mgr \<in> set (snd (main no_ext plain_env sample_args working_platform))"
    by (simp add: sample_main)
  have "plain_env ''POD_NAMESPACE'' \<noteq> []" "hd_Decode ?h (sample_request ''in'') = Inr sample_pod"
      "request_namespace (sample_request ''in'') sample_pod = plain_env ''POD_NAMESPACE''"
    by (simp_all add: working_platform_def sample_handler_def sample_request_def request_namespace_def plain_env_def)
  with operator_namespace_untouched [OF w webhook_setup_handler] w webhook_setup_handler
  show ?thesis by blast
qed

end
